theory Spec2Isabelle
  imports Main
begin

section \<open>Data model\<close>

text \<open>
  A value thrown by a JavaScript call. \<open>JsError m c\<close> is an instance of \<open>Error\<close> with
  message \<open>m\<close> and the optional numeric \<open>code\<close> property that the transport's errors
  carry; \<open>Thrown\<close> is a thrown value that is not an \<open>Error\<close> (it has neither).
\<close>

datatype fault = JsError string "int option" | Thrown

text \<open>The \<open>secure\<close> option of the transport: \<open>false\<close>, \<open>true\<close> or \<open>"implicit"\<close>.\<close>

datatype secure_mode = SecureFalse | SecureTrue | SecureImplicit

record AccessOptions =
  host :: string
  user :: string
  password :: string
  port :: "nat option"
  secure :: secure_mode
  rejectUnauthorized :: bool

text \<open>The requests the code sends to the transport collaborator (a basic-ftp client).\<close>

datatype request =
    Close
  | Access AccessOptions
  | Send string
  | EnsureDir string
  | Cdup
  | Remove string
  | RemoveDir string
  | UploadFrom string string
  | DownloadTo string string
  | ClearWorkingDir
  | List string

text \<open>
  Entries, manifests and change sets (\<open>Record\<close>, \<open>IFileList\<close>, \<open>DiffResult\<close> of the
  absent \<open>types\<close> module; the fields are the ones the source reads).
\<close>

datatype entry_type = File | Folder

record Record =
  rtype :: entry_type
  name :: string
  rsize :: "nat option"
  hash :: "string option"

record IFileList =
  description :: string
  version :: string
  generatedTime :: int
  data :: "Record list"

record DiffResult =
  upload :: "Record list"
  delete :: "Record list"
  replace :: "Record list"
  same :: "Record list"
  sizeUpload :: nat
  sizeDelete :: nat
  sizeReplace :: nat

text \<open>
  What is written to a local file: the manifest as \<open>createLocalState\<close> serialises it, or
  the object \<open>updateStateFile\<close> builds (description, version, time, and the entries of
  the change set each tagged with its action).
\<close>

datatype content =
    StateJson IFileList
  | PartialSyncJson string string int "(Record \<times> string) list"

section \<open>Effects\<close>

datatype channel = LoggerAll | LoggerStandard | LoggerVerbose | ConsoleError | ConsoleLog

text \<open>
  Everything the code does to the outside world is an event of the trace, oldest first:
  a request to the transport on the client with the given identity, a log line (the
  channel, the text of the template in ASCII and the interpolated values), and the
  local file operations.
\<close>

datatype event =
    Call nat request
  | Log channel string "string list"
  | WriteFile string content
  | ReadFile string
  | Unlink string

text \<open>
  The mutable part of the run: the trace, the identity of \<open>this.client\<close>,
  \<open>this.lastNoopTime\<close> and \<open>this.state\<close>.
\<close>

record pstate =
  trace :: "event list"
  client :: nat
  lastNoopTime :: int
  state :: IFileList

type_synonym 'a action = "pstate \<Rightarrow> (fault + 'a) \<times> pstate"

text \<open>
  The collaborators, and the constants and helpers of modules that are not among the
  source files. Each outcome may depend on everything that happened before (the trace).
  \<open>retryRequest\<close> (module \<open>utilities\<close>) wraps a callback; nothing is assumed of it.
\<close>

record environment =
  transport :: "event list \<Rightarrow> nat \<Rightarrow> request \<Rightarrow> fault option"
  Date_now :: "event list \<Rightarrow> int"
  writeFileSync :: "event list \<Rightarrow> string \<Rightarrow> content \<Rightarrow> fault option"
  readFileSync :: "event list \<Rightarrow> string \<Rightarrow> fault + string"
  unlinkSync :: "event list \<Rightarrow> string \<Rightarrow> fault option"
  JSON_parse :: "string \<Rightarrow> IFileList option"
  retryRequest :: "unit action \<Rightarrow> unit action"
  applyExcludeFilter :: "string \<Rightarrow> bool \<Rightarrow> string list \<Rightarrow> bool"
  FileNotFoundOrNoAccess :: int
  currentSyncFileVersion :: string
  syncFileDescription :: string

text \<open>The constructor arguments of \<open>FTPSyncProvider\<close>.\<close>

record FTPSyncProvider =
  localPath :: string
  serverPath :: string
  stateName :: string
  dryRun :: bool
  server :: string
  username :: string
  password' :: string

subsection \<open>Sequencing, exceptions\<close>

definition ret :: "'a \<Rightarrow> 'a action" where
  "ret v s = (Inr v, s)"

definition throw :: "fault \<Rightarrow> 'a action" where
  "throw e s = (Inl e, s)"

definition bnd :: "'a action \<Rightarrow> ('a \<Rightarrow> 'b action) \<Rightarrow> 'b action" where
  "bnd m f s = (case m s of (Inl e, s') \<Rightarrow> (Inl e, s') | (Inr v, s') \<Rightarrow> f v s')"

definition try_catch :: "'a action \<Rightarrow> (fault \<Rightarrow> 'a action) \<Rightarrow> 'a action" where
  "try_catch m h s = (case m s of (Inl e, s') \<Rightarrow> h e s' | (Inr v, s') \<Rightarrow> (Inr v, s'))"

text \<open>A block of statements, run in order; the first one that throws ends the block.\<close>

fun block :: "unit action list \<Rightarrow> unit action" where
  "block [] = ret ()"
| "block (a # as) = bnd a (\<lambda>_. block as)"

definition emit :: "event \<Rightarrow> unit action" where
  "emit e s = (Inr (), s\<lparr>trace := trace s @ [e]\<rparr>)"

definition logger :: "channel \<Rightarrow> string \<Rightarrow> string list \<Rightarrow> unit action" where
  "logger ch template args = emit (Log ch template args)"

text \<open>A request on the current client: recorded, then answered by the transport.\<close>

definition client_call :: "environment \<Rightarrow> request \<Rightarrow> unit action" where
  "client_call env r s =
     (case transport env (trace s) (client s) r of
        None \<Rightarrow> (Inr (), s\<lparr>trace := trace s @ [Call (client s) r]\<rparr>)
      | Some e \<Rightarrow> (Inl e, s\<lparr>trace := trace s @ [Call (client s) r]\<rparr>))"

definition fs_writeFileSync :: "environment \<Rightarrow> string \<Rightarrow> content \<Rightarrow> unit action" where
  "fs_writeFileSync env path c s =
     (case writeFileSync env (trace s) path c of
        None \<Rightarrow> (Inr (), s\<lparr>trace := trace s @ [WriteFile path c]\<rparr>)
      | Some e \<Rightarrow> (Inl e, s\<lparr>trace := trace s @ [WriteFile path c]\<rparr>))"

subsection \<open>Strings\<close>

definition startsWith :: "string \<Rightarrow> string \<Rightarrow> bool" where
  "startsWith s p = (take (length p) s = p)"

fun includes' :: "string \<Rightarrow> string \<Rightarrow> bool" where
  "includes' [] p = (p = [])"
| "includes' (c # cs) p = (startsWith (c # cs) p \<or> includes' cs p)"

definition digit_char :: "nat \<Rightarrow> char" where
  "digit_char d = ''0123456789'' ! d"

function show_nat :: "nat \<Rightarrow> string" where
  "show_nat n = (if n < 10 then [digit_char n] else show_nat (n div 10) @ [digit_char (n mod 10)])"
  by pat_completeness auto
termination
  by (relation "measure (\<lambda>n. n)") auto

text \<open>\<open>error.message\<close> read off a caught value of type \<open>any\<close>, as a template prints it.\<close>

fun error_message :: "fault \<Rightarrow> string" where
  "error_message (JsError m c) = m"
| "error_message Thrown = ''undefined''"

text \<open>\<open>e.code\<close> read off a caught value (\<open>undefined\<close> is \<open>None\<close>).\<close>

fun error_code :: "fault \<Rightarrow> int option" where
  "error_code (JsError m c) = c"
| "error_code Thrown = None"

section \<open>The connection-resilience layer (unnamed part 001)\<close>

definition reconnect_options :: "FTPSyncProvider \<Rightarrow> AccessOptions" where
  "reconnect_options p =
     \<lparr>host = server p, user = username p, password = password' p, port = None,
      secure = SecureTrue, rejectUnauthorized = False\<rparr>"

text \<open>\<open>new basicFtp.Client(...)\<close>: \<open>this.client\<close> becomes a client with a new identity.\<close>

definition new_client :: "unit action" where
  "new_client s = (Inr (), s\<lparr>client := Suc (client s)\<rparr>)"

definition reconnect :: "environment \<Rightarrow> FTPSyncProvider \<Rightarrow> unit action" where
  "reconnect env p = block
     [logger LoggerVerbose ''Reconnecting to FTP server...'' [],
      try_catch (client_call env Close)
        (\<lambda>error. logger LoggerVerbose ''Error while closing client (ignored): {}'' [error_message error]),
      new_client,
      client_call env (Access (reconnect_options p)),
      logger LoggerVerbose ''Reconnected successfully.'' []]"

definition sendNoopIfNeeded :: "environment \<Rightarrow> bool \<Rightarrow> unit action" where
  "sendNoopIfNeeded env force s =
     (let now = Date_now env (trace s) in
      if now - lastNoopTime s > 5000 \<or> force then
        try_catch
          (block
            [client_call env (Send ''NOOP''),
             logger LoggerAll ''{Hey Mr. FTP ... I am still here!!!}'' [],
             (\<lambda>s'. (Inr (), s'\<lparr>lastNoopTime := now\<rparr>))])
          (\<lambda>error. case error of
             JsError m c \<Rightarrow> logger LoggerVerbose ''Failed to send NOOP: {}'' [m]
           | Thrown \<Rightarrow> logger LoggerVerbose ''Failed to send NOOP: Unknown error'' []) s
      else (Inr (), s))"

text \<open>The two message signatures \<open>safeOperation\<close> classifies as a dropped connection.\<close>

definition connection_issue :: "string \<Rightarrow> bool" where
  "connection_issue m = (includes' m ''Client is closed'' \<or> includes' m ''Server sent FIN packet'')"

text \<open>
  The catch block of the retry loop at attempt \<open>attempt\<close> (counted from 0); what it leaves
  in \<open>lastError\<close> is given by \<open>last_error\<close>.
\<close>

fun last_error :: "fault \<Rightarrow> string" where
  "last_error (JsError m c) = m"
| "last_error Thrown = ''Unknown error occurred''"

definition on_failure :: "environment \<Rightarrow> FTPSyncProvider \<Rightarrow> nat \<Rightarrow> nat \<Rightarrow> fault \<Rightarrow> unit action" where
  "on_failure env p retries attempt error = block
     [case error of
        JsError m c \<Rightarrow>
          if connection_issue m then block
            [logger LoggerVerbose ''Connection issue detected: {}'' [m],
             logger LoggerVerbose ''Attempting to reconnect...'' [],
             reconnect env p]
          else logger ConsoleError ''Operation failed (attempt {}/{}): {}''
                 [show_nat (attempt + 1), show_nat retries, m]
      | Thrown \<Rightarrow>
          logger ConsoleError ''Operation failed (attempt {}/{}): Unknown error''
            [show_nat (attempt + 1), show_nat retries],
      if attempt < retries - 1 then logger ConsoleLog ''Retrying...'' [] else ret ()]"

definition exhausted :: "nat \<Rightarrow> string option \<Rightarrow> fault" where
  "exhausted retries lastError =
     JsError (''Operation failed after '' @ show_nat retries @ '' attempts: '' @
              (case lastError of None \<Rightarrow> ''undefined'' | Some m \<Rightarrow> m)) None"

text \<open>
  The retry loop, from attempt \<open>attempt\<close> on. Both versions of the source file have this
  loop; they differ in the catch block only, which is the parameter \<open>catch\<close>. A fault of
  the catch block itself (a failed reconnect) leaves the loop at once.
\<close>

function safeOperation_loop ::
  "(nat \<Rightarrow> nat \<Rightarrow> fault \<Rightarrow> unit action) \<Rightarrow> 'a action \<Rightarrow> nat \<Rightarrow> nat \<Rightarrow> string option \<Rightarrow> 'a action" where
  "safeOperation_loop catch operation retries attempt lastError s =
     (if attempt < retries then
        (case operation s of
           (Inr v, s1) \<Rightarrow> (Inr v, s1)
         | (Inl error, s1) \<Rightarrow>
             (case catch retries attempt error s1 of
                (Inl f, s2) \<Rightarrow> (Inl f, s2)
              | (Inr u, s2) \<Rightarrow>
                  safeOperation_loop catch operation retries (attempt + 1)
                    (Some (last_error error)) s2))
      else (Inl (exhausted retries lastError), s))"
  by pat_completeness auto
termination
  by (relation "measure (\<lambda>(catch, operation, retries, attempt, lastError, s). retries - attempt)") auto

definition safeOperation :: "environment \<Rightarrow> FTPSyncProvider \<Rightarrow> 'a action \<Rightarrow> nat \<Rightarrow> 'a action" where
  "safeOperation env p operation retries =
     safeOperation_loop (on_failure env p) operation retries 0 None"

section \<open>The operations of the provider (unnamed part 001)\<close>

fun split_on :: "char \<Rightarrow> string \<Rightarrow> string list" where
  "split_on c [] = [[]]"
| "split_on c (x # xs) =
     (if x = c then [] # split_on c xs
      else (case split_on c xs of [] \<Rightarrow> [[x]] | w # ws \<Rightarrow> (x # w) # ws))"

fun join :: "string \<Rightarrow> string list \<Rightarrow> string" where
  "join sep [] = []"
| "join sep [w] = w"
| "join sep (w # v # ws) = w @ sep @ join sep (v # ws)"

record IFilePath =
  folders :: "string list option"
  file' :: "string option"

definition getFileBreadcrumbs :: "string \<Rightarrow> IFilePath" where
  "getFileBreadcrumbs fullPath =
     (let pathSplit = split_on CHR ''/'' fullPath;
          file = last pathSplit;
          folders = filter (\<lambda>folderName. folderName \<noteq> []) (butlast pathSplit)
      in \<lparr>folders = (if length folders = 0 then None else Some folders),
          file' = (if file = [] then None else Some file)\<rparr>)"

text \<open>\<open>ensureDir\<close> (the timing calls, which only feed the final report, are left out).\<close>

definition ensureDir :: "environment \<Rightarrow> string \<Rightarrow> unit action" where
  "ensureDir env folder = block
     [logger LoggerVerbose ''  changing dir to {}'' [folder],
      retryRequest env (client_call env (EnsureDir folder)),
      logger LoggerVerbose ''  dir changed'' []]"

definition upDir :: "environment \<Rightarrow> nat option \<Rightarrow> unit action" where
  "upDir env dirCount =
     (case dirCount of
        None \<Rightarrow> ret ()
      | Some n \<Rightarrow> block (replicate n (retryRequest env (client_call env Cdup))))"

definition createLocalState :: "environment \<Rightarrow> IFileList \<Rightarrow> string \<Rightarrow> string \<Rightarrow> unit action" where
  "createLocalState env localFiles local_dir state_name = block
     [logger LoggerVerbose ''Creating local state at {}{}'' [local_dir, state_name],
      fs_writeFileSync env (local_dir @ state_name) (StateJson localFiles),
      logger LoggerVerbose ''Local state created'' []]"

definition state_push :: "Record \<Rightarrow> unit action" where
  "state_push newEntry s = (Inr (), s\<lparr>state := (state s)\<lparr>data := data (state s) @ [newEntry]\<rparr>\<rparr>)"

definition createFolder :: "environment \<Rightarrow> FTPSyncProvider \<Rightarrow> string \<Rightarrow> unit action" where
  "createFolder env p folderPath = block
     [logger LoggerAll ''creating folder {}'' [folderPath @ ''/''],
      if dryRun p then ret ()
      else (let path = getFileBreadcrumbs (folderPath @ ''/'') in block
        [sendNoopIfNeeded env False,
         case folders path of
           None \<Rightarrow> logger LoggerVerbose ''  no need to change dir'' []
         | Some fs \<Rightarrow> safeOperation env p (ensureDir env (join ''/'' fs)) 3,
         upDir env (map_option length (folders path)),
         logger LoggerVerbose ''  completed'' [],
         state_push \<lparr>rtype = Folder, name = folderPath, rsize = None, hash = None\<rparr>,
         (\<lambda>s. createLocalState env (state s) (localPath p) (stateName p) s)])]"

definition removeFile :: "environment \<Rightarrow> FTPSyncProvider \<Rightarrow> string \<Rightarrow> unit action" where
  "removeFile env p filePath = block
     [logger LoggerAll ''removing {}'' [filePath],
      if \<not> dryRun p then
        try_catch (safeOperation env p (client_call env (Remove filePath)) 3)
          (\<lambda>e. if error_code e = Some (FileNotFoundOrNoAccess env)
                then logger LoggerStandard
                       ''File not found or you do not have access to the file - skipping...'' []
                else throw e)
      else ret (),
      logger LoggerVerbose ''  file removed'' [],
      logger LoggerVerbose ''  completed'' []]"

text \<open>\<open>String.prototype.replace\<close> with a string pattern: the first occurrence only.\<close>

fun replace_first :: "string \<Rightarrow> string \<Rightarrow> string \<Rightarrow> string" where
  "replace_first [] pat rep = (if pat = [] then rep else [])"
| "replace_first (c # cs) pat rep =
     (if startsWith (c # cs) pat then rep @ drop (length pat) (c # cs)
      else c # replace_first cs pat rep)"

definition absoluteFolderPath :: "FTPSyncProvider \<Rightarrow> string \<Rightarrow> string" where
  "absoluteFolderPath p folderPath =
     ''/'' @ (if startsWith (serverPath p) ''./'' then replace_first (serverPath p) ''./'' ''''
              else serverPath p) @ folderPath"

definition removeFolder :: "environment \<Rightarrow> FTPSyncProvider \<Rightarrow> string \<Rightarrow> unit action" where
  "removeFolder env p folderPath = block
     [logger LoggerAll ''removing folder {}'' [absoluteFolderPath p folderPath],
      if \<not> dryRun p then
        safeOperation env p
          (retryRequest env (client_call env (RemoveDir (absoluteFolderPath p folderPath)))) 3
      else ret (),
      logger LoggerVerbose ''  completed'' []]"

datatype upload_type = Upload | Replace

definition uploadFile :: "environment \<Rightarrow> FTPSyncProvider \<Rightarrow> string \<Rightarrow> upload_type \<Rightarrow> unit action" where
  "uploadFile env p filePath type = block
     [logger LoggerAll (if type = Upload then ''uploading {}'' else ''replacing {}'') [filePath],
      sendNoopIfNeeded env False,
      if \<not> dryRun p then
        safeOperation env p (client_call env (UploadFrom (localPath p @ filePath) filePath)) 3
      else ret (),
      logger LoggerVerbose (if type = Upload then ''  file uploaded'' else ''  file replaced'') []]"

section \<open>The orchestrator (unnamed part 001)\<close>

definition flushState :: "environment \<Rightarrow> FTPSyncProvider \<Rightarrow> nat \<Rightarrow> unit action" where
  "flushState env p operationsCount =
     (if \<not> dryRun p then
        try_catch
          (block
            [safeOperation env p
               (client_call env
                  (UploadFrom (localPath p @ stateName p) (serverPath p @ stateName p))) 3,
             logger LoggerVerbose ''State file {} uploaded to the server after {} operations.''
               [stateName p, show_nat operationsCount]])
          (\<lambda>error. logger LoggerAll ''Failed to upload state file: {}'' [error_message error])
      else ret ())"

text \<open>
  One of the five loops: each item is handled by \<open>body\<close>, the counter \<open>operationsCount\<close>
  is incremented, and \<open>flush\<close> runs when the counter is a multiple of 5. The result is the
  counter after the loop.
\<close>

fun apply_each :: "('x \<Rightarrow> unit action) \<Rightarrow> (nat \<Rightarrow> unit action) \<Rightarrow> 'x list \<Rightarrow> nat \<Rightarrow> nat action" where
  "apply_each body flush [] operationsCount = ret operationsCount"
| "apply_each body flush (file # rest) operationsCount =
     bnd (body file) (\<lambda>_.
     bnd (if (operationsCount + 1) mod 5 = 0 then flush (operationsCount + 1) else ret ()) (\<lambda>_.
     apply_each body flush rest (operationsCount + 1)))"

text \<open>
  The four lines that open the run (\<open>pluralize\<close> and \<open>prettyBytes\<close> only format the
  numbers, which are logged here as they are).
\<close>

definition sync_header :: "DiffResult \<Rightarrow> unit action" where
  "sync_header diffs =
     (let totalCount = length (delete diffs) + length (upload diffs) + length (replace diffs)
      in block
        [logger LoggerAll ''----------------------------------------------------------------'' [],
         logger LoggerAll ''Making changes to {} files/folders to sync server state'' [show_nat totalCount],
         logger LoggerAll ''Uploading: {} -- Deleting: {} -- Replacing: {}''
           [show_nat (sizeUpload diffs), show_nat (sizeDelete diffs), show_nat (sizeReplace diffs)],
         logger LoggerAll ''----------------------------------------------------------------'' []])"

definition syncLocalToServer :: "environment \<Rightarrow> FTPSyncProvider \<Rightarrow> DiffResult \<Rightarrow> unit action" where
  "syncLocalToServer env p diffs =
     bnd (sync_header diffs) (\<lambda>_.
     bnd (apply_each
            (\<lambda>file. block
               [logger LoggerStandard ''Creating folder: {}'' [name file],
                createFolder env p (name file)])
            (flushState env p)
            (filter (\<lambda>item. rtype item = Folder) (upload diffs)) 0) (\<lambda>n1.
     bnd (apply_each
            (\<lambda>file. block
               [logger LoggerStandard ''Uploading new file: {}'' [name file],
                uploadFile env p (name file) Upload])
            (flushState env p)
            (filter (\<lambda>item. name item \<noteq> stateName p)
               (filter (\<lambda>item. rtype item = File) (upload diffs))) n1) (\<lambda>n2.
     bnd (apply_each
            (\<lambda>file. block
               [logger LoggerStandard ''Replacing file: {}'' [name file],
                uploadFile env p (name file) Replace])
            (flushState env p)
            (filter (\<lambda>item. name item \<noteq> stateName p)
               (filter (\<lambda>item. rtype item = File) (replace diffs))) n2) (\<lambda>n3.
     bnd (apply_each
            (\<lambda>file. block
               [logger LoggerStandard ''Deleting file: {}'' [name file],
                removeFile env p (name file)])
            (flushState env p)
            (filter (\<lambda>item. rtype item = File) (delete diffs)) n3) (\<lambda>n4.
     bnd (apply_each
            (\<lambda>file. block
               [logger LoggerStandard ''Deleting folder: {}'' [name file],
                removeFolder env p (name file)])
            (flushState env p)
            (filter (\<lambda>item. rtype item = Folder) (delete diffs)) n4) (\<lambda>n5.
     block
       [logger LoggerAll ''----------------------------------------------------------------'' [],
        logger LoggerAll ''A je to tam!'' [],
        logger LoggerAll ''Sync complete. Saving current server state to {}''
          [serverPath p @ stateName p],
        flushState env p n5]))))))"

section \<open>The provider of \<open>src/syncProvider.ts\<close>\<close>

text \<open>
  The named source file holds a second version of the same class. \<open>reconnect\<close>,
  \<open>sendNoopIfNeeded\<close>, \<open>getFileBreadcrumbs\<close>, \<open>upDir\<close> and \<open>ensureDir\<close> are the same text
  in both; what differs is given here, with the suffix \<open>_ts\<close>.
\<close>

definition on_failure_ts :: "environment \<Rightarrow> FTPSyncProvider \<Rightarrow> nat \<Rightarrow> nat \<Rightarrow> fault \<Rightarrow> unit action" where
  "on_failure_ts env p retries attempt error = block
     [case error of
        JsError m c \<Rightarrow> block
          [if includes' m ''Client is closed'' then block
             [logger LoggerVerbose ''Client closed, attempting to reconnect...'' [],
              reconnect env p]
           else ret (),
           logger ConsoleError ''Operation failed (attempt {}/{}): {}''
             [show_nat (attempt + 1), show_nat retries, m]]
      | Thrown \<Rightarrow>
          logger ConsoleError ''Operation failed (attempt {}/{}): Unknown error''
            [show_nat (attempt + 1), show_nat retries],
      if attempt < retries - 1 then logger ConsoleLog ''Retrying...'' [] else ret ()]"

definition safeOperation_ts :: "environment \<Rightarrow> FTPSyncProvider \<Rightarrow> 'a action \<Rightarrow> nat \<Rightarrow> 'a action" where
  "safeOperation_ts env p operation retries =
     safeOperation_loop (on_failure_ts env p) operation retries 0 None"

definition updateStateFile :: "environment \<Rightarrow> string \<Rightarrow> string \<Rightarrow> DiffResult \<Rightarrow> unit action" where
  "updateStateFile env localPath' stateName' diffs = block
     [(\<lambda>s. fs_writeFileSync env (localPath' @ stateName')
              (PartialSyncJson ''Updated state after partial sync'' (currentSyncFileVersion env)
                 (Date_now env (trace s))
                 (map (\<lambda>file. (file, ''upload'')) (upload diffs) @
                  map (\<lambda>file. (file, ''delete'')) (delete diffs) @
                  map (\<lambda>file. (file, ''replace'')) (replace diffs))) s),
      logger LoggerVerbose ''State file updated at {}'' [localPath' @ stateName']]"

definition createFolder_ts :: "environment \<Rightarrow> FTPSyncProvider \<Rightarrow> string \<Rightarrow> unit action" where
  "createFolder_ts env p folderPath = block
     [logger LoggerAll ''creating folder {}'' [folderPath @ ''/''],
      if dryRun p then ret ()
      else (let path = getFileBreadcrumbs (folderPath @ ''/'') in block
        [sendNoopIfNeeded env False,
         case folders path of
           None \<Rightarrow> logger LoggerVerbose ''  no need to change dir'' []
         | Some fs \<Rightarrow> safeOperation_ts env p (ensureDir env (join ''/'' fs)) 3,
         updateStateFile env (localPath p) (stateName p)
           \<lparr>upload = [\<lparr>rtype = Folder, name = folderPath, rsize = None, hash = None\<rparr>],
            delete = [], replace = [], same = [],
            sizeUpload = 0, sizeDelete = 0, sizeReplace = 0\<rparr>,
         upDir env (map_option length (folders path)),
         logger LoggerVerbose ''  completed'' []])]"

definition removeFile_ts :: "environment \<Rightarrow> FTPSyncProvider \<Rightarrow> string \<Rightarrow> unit action" where
  "removeFile_ts env p filePath = block
     [logger LoggerAll ''removing {}'' [filePath],
      if \<not> dryRun p then
        try_catch (safeOperation_ts env p (client_call env (Remove filePath)) 3)
          (\<lambda>e. if error_code e = Some (FileNotFoundOrNoAccess env)
                then logger LoggerStandard
                       ''File not found or you do not have access to the file - skipping...'' []
                else throw e)
      else ret (),
      logger LoggerVerbose ''  file removed'' [],
      logger LoggerVerbose ''  completed'' []]"

definition removeFolder_ts :: "environment \<Rightarrow> FTPSyncProvider \<Rightarrow> string \<Rightarrow> unit action" where
  "removeFolder_ts env p folderPath = block
     [logger LoggerAll ''removing folder {}'' [absoluteFolderPath p folderPath],
      if \<not> dryRun p then
        safeOperation_ts env p
          (retryRequest env (client_call env (RemoveDir (absoluteFolderPath p folderPath)))) 3
      else ret (),
      logger LoggerVerbose ''  completed'' []]"

definition uploadFile_ts :: "environment \<Rightarrow> FTPSyncProvider \<Rightarrow> string \<Rightarrow> upload_type \<Rightarrow> unit action" where
  "uploadFile_ts env p filePath type = block
     [logger LoggerAll (if type = Upload then ''uploading {}'' else ''replacing {}'') [filePath],
      sendNoopIfNeeded env False,
      if \<not> dryRun p then
        safeOperation_ts env p (client_call env (UploadFrom (localPath p @ filePath) filePath)) 3
      else ret (),
      logger LoggerVerbose (if type = Upload then ''  file uploaded'' else ''  file replaced'') []]"

definition syncLocalToServer_ts :: "environment \<Rightarrow> FTPSyncProvider \<Rightarrow> DiffResult \<Rightarrow> unit action" where
  "syncLocalToServer_ts env p diffs =
     bnd (sync_header diffs) (\<lambda>_.
     try_catch
       (block
         [block (map (\<lambda>file. createFolder_ts env p (name file))
                   (filter (\<lambda>item. rtype item = Folder) (upload diffs))),
          block (map (\<lambda>file. uploadFile_ts env p (name file) Upload)
                   (filter (\<lambda>item. name item \<noteq> stateName p)
                      (filter (\<lambda>item. rtype item = File) (upload diffs)))),
          block (map (\<lambda>file. uploadFile_ts env p (name file) Replace)
                   (filter (\<lambda>item. name item \<noteq> stateName p)
                      (filter (\<lambda>item. rtype item = File) (replace diffs)))),
          block (map (\<lambda>file. removeFile_ts env p (name file))
                   (filter (\<lambda>item. rtype item = File) (delete diffs))),
          block (map (\<lambda>file. removeFolder_ts env p (name file))
                   (filter (\<lambda>item. rtype item = Folder) (delete diffs))),
          logger LoggerAll ''----------------------------------------------------------------'' [],
          logger LoggerAll ''Sync complete.'' []])
       (\<lambda>error. block
          [logger LoggerAll ''Sync interrupted due to an error: {}'' [error_message error],
           updateStateFile env (localPath p) (stateName p) diffs,
           throw error]))"

section \<open>Connecting and fetching the baseline (unnamed part 000)\<close>

datatype protocol = Ftp | Ftps | FtpsLegacy

datatype security = Strict | Loose

text \<open>The fields of \<open>IFtpDeployArgumentsWithDefaults\<close> that these functions read.\<close>

record arguments =
  arg_server :: string
  arg_username :: string
  arg_password :: string
  arg_port :: nat
  arg_protocol :: protocol
  arg_security :: security
  arg_local_dir :: string
  arg_server_dir :: string
  arg_state_name :: string
  arg_dry_run :: bool
  arg_dangerous_clean_slate :: bool
  arg_exclude :: "string list"

definition connect_options :: "arguments \<Rightarrow> AccessOptions" where
  "connect_options args =
     \<lparr>host = arg_server args, user = arg_username args, password = arg_password args,
      port = Some (arg_port args),
      secure = (if arg_protocol args = Ftps then SecureTrue
                else if arg_protocol args = FtpsLegacy then SecureImplicit
                else SecureFalse),
      rejectUnauthorized = (arg_security args = Strict)\<rparr>"

text \<open>
  \<open>connect\<close> (the verbosity flag of the client and the progress tracker it installs
  afterwards, which send nothing, are left out).
\<close>

definition connect :: "environment \<Rightarrow> arguments \<Rightarrow> unit action" where
  "connect env args =
     try_catch
       (block
         [logger LoggerVerbose ''Attempting connection to {}:{}''
            [arg_server args, show_nat (arg_port args)],
          client_call env (Access (connect_options args)),
          logger LoggerVerbose ''FTP connection successful.'' []])
       (\<lambda>error. block
          [logger LoggerAll
             ''Connection failed. Ensure the server supports the chosen protocol (FTP/FTPS).'' [],
           logger LoggerVerbose ''Connection error: {}'' [error_message error],
           throw error])"

definition fs_readFileSync :: "environment \<Rightarrow> string \<Rightarrow> string action" where
  "fs_readFileSync env path s =
     (case readFileSync env (trace s) path of
        Inr text \<Rightarrow> (Inr text, s\<lparr>trace := trace s @ [ReadFile path]\<rparr>)
      | Inl e \<Rightarrow> (Inl e, s\<lparr>trace := trace s @ [ReadFile path]\<rparr>))"

definition fs_unlinkSync :: "environment \<Rightarrow> string \<Rightarrow> unit action" where
  "fs_unlinkSync env path s =
     (case unlinkSync env (trace s) path of
        None \<Rightarrow> (Inr (), s\<lparr>trace := trace s @ [Unlink path]\<rparr>)
      | Some e \<Rightarrow> (Inl e, s\<lparr>trace := trace s @ [Unlink path]\<rparr>))"

definition tempFileNameHack :: string where
  "tempFileNameHack = ''.ftp-deploy-sync-server-state-buffer-file---delete.json''"

text \<open>
  \<open>JSON.parse\<close> throws a \<open>SyntaxError\<close> on text that is not JSON (\<open>JSON_parse\<close> gives
  \<open>None\<close>); the parsed value is cast to \<open>IFileList\<close> with no check of its fields.
\<close>

definition downloadFileList :: "environment \<Rightarrow> string \<Rightarrow> IFileList action" where
  "downloadFileList env path =
     bnd (retryRequest env (client_call env (DownloadTo tempFileNameHack path))) (\<lambda>_.
     bnd (fs_readFileSync env tempFileNameHack) (\<lambda>fileAsString.
     case JSON_parse env fileAsString of
       None \<Rightarrow> throw (JsError ''SyntaxError'' None)
     | Some fileAsObject \<Rightarrow>
         bnd (fs_unlinkSync env tempFileNameHack) (\<lambda>_. ret fileAsObject)))"

definition empty_server_state :: "environment \<Rightarrow> int \<Rightarrow> IFileList" where
  "empty_server_state env time =
     \<lparr>description = syncFileDescription env, version = currentSyncFileVersion env,
      generatedTime = time, data = []\<rparr>"

definition getServerFiles :: "environment \<Rightarrow> arguments \<Rightarrow> IFileList action" where
  "getServerFiles env args =
     try_catch
       (bnd (ensureDir env (arg_server_dir args)) (\<lambda>_.
        bnd (if arg_dangerous_clean_slate args then
               bnd (block
                 [logger LoggerAll ''----------------------------------------------------------------'' [],
                  logger LoggerAll ''Removing all files on the server because 'dangerous-clean-slate' was set, this will make the deployment very slow...'' [],
                  if \<not> arg_dry_run args then client_call env ClearWorkingDir else ret (),
                  logger LoggerAll ''Clear complete'' []])
                 (\<lambda>_. throw (JsError ''dangerous-clean-slate was run'' None))
             else ret ()) (\<lambda>_.
        bnd (downloadFileList env (arg_state_name args)) (\<lambda>serverFiles.
        bnd (block
          [logger LoggerAll ''----------------------------------------------------------------'' [],
           logger LoggerAll ''Last published on {}'' []]) (\<lambda>_.
        ret (if length (arg_exclude args) > 0
             then serverFiles\<lparr>data :=
                    filter (\<lambda>item. applyExcludeFilter env (name item) (rtype item = Folder)
                                     (arg_exclude args))
                      (data serverFiles)\<rparr>
             else serverFiles))))))
       (\<lambda>error.
          bnd (block
            [logger LoggerAll ''----------------------------------------------------------------'' [],
             logger LoggerAll ''No file exists on the server {} - this must be your first publish!''
               [arg_server_dir args @ arg_state_name args],
             logger LoggerAll ''The first publish will take a while... but once the initial sync is done only differences are published!'' [],
             logger LoggerAll ''If you get this message and its NOT your first publish, something is wrong.'' []])
            (\<lambda>_ s. (Inr (empty_server_state env (Date_now env (trace s))), s)))"

text \<open>The provider as \<open>deploy\<close> constructs it from the arguments.\<close>

definition provider_of :: "arguments \<Rightarrow> FTPSyncProvider" where
  "provider_of args =
     \<lparr>localPath = arg_local_dir args, serverPath = arg_server_dir args,
      stateName = arg_state_name args, dryRun = arg_dry_run args,
      server = arg_server args, username = arg_username args, password' = arg_password args\<rparr>"

section \<open>The plan of a run\<close>

text \<open>
  The five passes of the specification, in its order, as one list of steps: folder
  creations, uploads of new files, replacements of changed files, file deletions, folder
  deletions. The state file itself is never uploaded or replaced as an item.
\<close>

datatype step = CreateFolderStep | UploadStep | ReplaceStep | DeleteFileStep | DeleteFolderStep

definition plan :: "FTPSyncProvider \<Rightarrow> DiffResult \<Rightarrow> (step \<times> Record) list" where
  "plan p diffs =
     map (Pair CreateFolderStep) (filter (\<lambda>item. rtype item = Folder) (upload diffs)) @
     map (Pair UploadStep)
       (filter (\<lambda>item. name item \<noteq> stateName p) (filter (\<lambda>item. rtype item = File) (upload diffs))) @
     map (Pair ReplaceStep)
       (filter (\<lambda>item. name item \<noteq> stateName p) (filter (\<lambda>item. rtype item = File) (replace diffs))) @
     map (Pair DeleteFileStep) (filter (\<lambda>item. rtype item = File) (delete diffs)) @
     map (Pair DeleteFolderStep) (filter (\<lambda>item. rtype item = Folder) (delete diffs))"

text \<open>One step, as each version of the provider carries it out.\<close>

fun perform :: "environment \<Rightarrow> FTPSyncProvider \<Rightarrow> step \<times> Record \<Rightarrow> unit action" where
  "perform env p (CreateFolderStep, file) = block
     [logger LoggerStandard ''Creating folder: {}'' [name file], createFolder env p (name file)]"
| "perform env p (UploadStep, file) = block
     [logger LoggerStandard ''Uploading new file: {}'' [name file], uploadFile env p (name file) Upload]"
| "perform env p (ReplaceStep, file) = block
     [logger LoggerStandard ''Replacing file: {}'' [name file], uploadFile env p (name file) Replace]"
| "perform env p (DeleteFileStep, file) = block
     [logger LoggerStandard ''Deleting file: {}'' [name file], removeFile env p (name file)]"
| "perform env p (DeleteFolderStep, file) = block
     [logger LoggerStandard ''Deleting folder: {}'' [name file], removeFolder env p (name file)]"

fun perform_ts :: "environment \<Rightarrow> FTPSyncProvider \<Rightarrow> step \<times> Record \<Rightarrow> unit action" where
  "perform_ts env p (CreateFolderStep, file) = createFolder_ts env p (name file)"
| "perform_ts env p (UploadStep, file) = uploadFile_ts env p (name file) Upload"
| "perform_ts env p (ReplaceStep, file) = uploadFile_ts env p (name file) Replace"
| "perform_ts env p (DeleteFileStep, file) = removeFile_ts env p (name file)"
| "perform_ts env p (DeleteFolderStep, file) = removeFolder_ts env p (name file)"

text \<open>The transport requests of a trace, each with the client it was sent on.\<close>

fun calls :: "event list \<Rightarrow> (nat \<times> request) list" where
  "calls [] = []"
| "calls (Call c r # es) = (c, r) # calls es"
| "calls (e # es) = calls es"

text \<open>The lines that close a run of the orchestrator of part 001, and its last flush.\<close>

definition sync_footer :: "environment \<Rightarrow> FTPSyncProvider \<Rightarrow> nat \<Rightarrow> unit action" where
  "sync_footer env p n = block
     [logger LoggerAll ''----------------------------------------------------------------'' [],
      logger LoggerAll ''A je to tam!'' [],
      logger LoggerAll ''Sync complete. Saving current server state to {}''
        [serverPath p @ stateName p],
      flushState env p n]"

text \<open>The catch block of \<open>syncLocalToServer\<close> in \<open>src/syncProvider.ts\<close>.\<close>

definition sync_interrupted :: "environment \<Rightarrow> FTPSyncProvider \<Rightarrow> DiffResult \<Rightarrow> fault \<Rightarrow> unit action" where
  "sync_interrupted env p diffs error = block
     [logger LoggerAll ''Sync interrupted due to an error: {}'' [error_message error],
      updateStateFile env (localPath p) (stateName p) diffs,
      throw error]"

section \<open>Concrete runs\<close>

text \<open>
  A transport that accepts every request, a clock that stands still, and a
  \<open>retryRequest\<close> that runs its callback once; the other environments below differ from
  it in how the transport answers.
\<close>

definition calm_env :: environment where
  "calm_env =
     \<lparr>transport = (\<lambda>t c r. None), Date_now = (\<lambda>t. 0),
      writeFileSync = (\<lambda>t path c. None), readFileSync = (\<lambda>t path. Inr ''''),
      unlinkSync = (\<lambda>t path. None), JSON_parse = (\<lambda>text. None),
      retryRequest = (\<lambda>callback. callback),
      applyExcludeFilter = (\<lambda>path isDirectory excludes. True),
      FileNotFoundOrNoAccess = 550, currentSyncFileVersion = ''1.0.0'',
      syncFileDescription = ''DO NOT DELETE THIS FILE''\<rparr>"

definition site :: FTPSyncProvider where
  "site =
     \<lparr>localPath = ''./'', serverPath = ''./'', stateName = ''state.json'', dryRun = False,
      server = ''ftp.example.com'', username = ''deploy'', password' = ''secret''\<rparr>"

definition fresh :: pstate where
  "fresh =
     \<lparr>trace = [], client = 0, lastNoopTime = 0,
      state = \<lparr>description = ''Sync state file'', version = ''1.0.0'', generatedTime = 0, data = []\<rparr>\<rparr>"

text \<open>Every upload is refused with a fault that is not a dropped connection.\<close>

definition refusing_env :: environment where
  "refusing_env = calm_env
     \<lparr>transport := (\<lambda>t c r. case r of UploadFrom a b \<Rightarrow> Some (JsError ''disk full'' (Some 552))
                               | _ \<Rightarrow> None)\<rparr>"

text \<open>
  The connection drops twice: an upload fails with \<open>Client is closed\<close> until the client
  has been replaced twice (clients are numbered from 0).
\<close>

definition dropping_env :: environment where
  "dropping_env = calm_env
     \<lparr>transport := (\<lambda>t c r. case r of
          UploadFrom a b \<Rightarrow> if c < 2 then Some (JsError ''Client is closed'' None) else None
        | _ \<Rightarrow> None)\<rparr>"

text \<open>The file to delete is not on the server: every \<open>remove\<close> is answered with code 550.\<close>

definition missing_env :: environment where
  "missing_env = calm_env
     \<lparr>transport := (\<lambda>t c r. case r of
          Remove f \<Rightarrow> Some (JsError ''550 No such file or directory'' (Some 550))
        | _ \<Rightarrow> None)\<rparr>"


text \<open>One upload, the operation the concrete runs retry.\<close>

definition upload0 :: "environment \<Rightarrow> unit action" where
  "upload0 env = client_call env (UploadFrom ''./a.txt'' ''a.txt'')"

text \<open>The local files a trace writes, each with what was written.\<close>

fun writes :: "event list \<Rightarrow> (string \<times> content) list" where
  "writes [] = []"
| "writes (WriteFile path c # es) = (path, c) # writes es"
| "writes (e # es) = writes es"

text \<open>A change set of two new files.\<close>

definition two_uploads :: DiffResult where
  "two_uploads =
     \<lparr>upload = [\<lparr>rtype = File, name = ''a.txt'', rsize = Some 10, hash = Some ''h1''\<rparr>,
                \<lparr>rtype = File, name = ''b.txt'', rsize = Some 5, hash = Some ''h2''\<rparr>],
      delete = [], replace = [], same = [], sizeUpload = 15, sizeDelete = 0, sizeReplace = 0\<rparr>"

section \<open>What a run may emit\<close>

text \<open>
  \<open>emits_only P a\<close>: from every state, \<open>a\<close> extends the trace, and only by events that
  satisfy \<open>P\<close>. \<open>never_throws a\<close>: from every state, \<open>a\<close> returns normally.
\<close>

definition emits_only :: "(event \<Rightarrow> bool) \<Rightarrow> 'a action \<Rightarrow> bool" where
  "emits_only P a = (\<forall>s. \<exists>es. trace (snd (a s)) = trace s @ es \<and> list_all P es)"

definition never_throws :: "'a action \<Rightarrow> bool" where
  "never_throws a = (\<forall>s. \<exists>v. fst (a s) = Inr v)"

text \<open>
  The events of a dry run: log lines, and the keep-alive \<open>NOOP\<close> as the only request to
  the transport; no local file operation.
\<close>

fun dry_run_event :: "event \<Rightarrow> bool" where
  "dry_run_event (Call c r) = (r = Send ''NOOP'')"
| "dry_run_event (Log ch t args) = True"
| "dry_run_event e = False"

section \<open>Announcements and requests of a run\<close>

text \<open>
  Each method of the provider begins with a line on the channel \<open>all\<close> that announces its
  item (\<open>creating folder\<close>, \<open>uploading\<close>, \<open>replacing\<close>, \<open>removing\<close>, \<open>removing folder\<close>,
  with the path as logged). \<open>announced\<close> reads these lines off a trace, in order.
\<close>

fun announcement_of :: "event \<Rightarrow> (step \<times> string) option" where
  "announcement_of (Log ch t args) =
     (if ch = LoggerAll \<and> t = ''creating folder {}'' then Some (CreateFolderStep, concat args)
      else if ch = LoggerAll \<and> t = ''uploading {}'' then Some (UploadStep, concat args)
      else if ch = LoggerAll \<and> t = ''replacing {}'' then Some (ReplaceStep, concat args)
      else if ch = LoggerAll \<and> t = ''removing {}'' then Some (DeleteFileStep, concat args)
      else if ch = LoggerAll \<and> t = ''removing folder {}'' then Some (DeleteFolderStep, concat args)
      else None)"
| "announcement_of e = None"

fun announced :: "event list \<Rightarrow> (step \<times> string) list" where
  "announced [] = []"
| "announced (e # es) =
     (case announcement_of e of None \<Rightarrow> announced es | Some a \<Rightarrow> a # announced es)"

definition unannounced :: "event \<Rightarrow> bool" where
  "unannounced e = (announcement_of e = None)"

text \<open>The announcement of a step of the plan.\<close>

fun announcement :: "FTPSyncProvider \<Rightarrow> step \<times> Record \<Rightarrow> step \<times> string" where
  "announcement p (CreateFolderStep, f) = (CreateFolderStep, name f @ ''/'')"
| "announcement p (DeleteFolderStep, f) = (DeleteFolderStep, absoluteFolderPath p (name f))"
| "announcement p (k, f) = (k, name f)"

text \<open>
  \<open>announces xs a\<close>: from every state, whether it returns or throws, \<open>a\<close> adds exactly the
  announcements \<open>xs\<close>.
\<close>

definition announces :: "(step \<times> string) list \<Rightarrow> 'a action \<Rightarrow> bool" where
  "announces xs a = (\<forall>s. announced (trace (snd (a s))) = announced (trace s) @ xs)"

text \<open>
  The requests of a trace apart from the keep-alive \<open>NOOP\<close>, whose sending depends on the
  clock only.
\<close>

definition requests :: "event list \<Rightarrow> request list" where
  "requests t = filter (\<lambda>r. r \<noteq> Send ''NOOP'') (map snd (calls t))"

text \<open>
  The requests a step of the plan makes when nothing fails: a folder creation enters the
  folder (which creates what is missing of it) and goes back up once per path segment; an
  upload or replacement sends the file; a deletion removes the file, or the folder under
  its absolute path. \<open>push_request\<close> is the upload of the local state file to the remote
  root.
\<close>

fun requests_of :: "FTPSyncProvider \<Rightarrow> step \<times> Record \<Rightarrow> request list" where
  "requests_of p (CreateFolderStep, f) =
     (case folders (getFileBreadcrumbs (name f @ ''/'')) of
        None \<Rightarrow> []
      | Some fs \<Rightarrow> EnsureDir (join ''/'' fs) # replicate (length fs) Cdup)"
| "requests_of p (UploadStep, f) = [UploadFrom (localPath p @ name f) (name f)]"
| "requests_of p (ReplaceStep, f) = [UploadFrom (localPath p @ name f) (name f)]"
| "requests_of p (DeleteFileStep, f) = [Remove (name f)]"
| "requests_of p (DeleteFolderStep, f) = [RemoveDir (absoluteFolderPath p (name f))]"

definition push_request :: "FTPSyncProvider \<Rightarrow> request" where
  "push_request p = UploadFrom (localPath p @ stateName p) (serverPath p @ stateName p)"

text \<open>
  \<open>checkpoints\<close> lays what belongs to the items out along the counter of operations, with
  \<open>flushed\<close> after every item whose number is a multiple of 5.
\<close>

fun checkpoints :: "('x \<Rightarrow> 'm list) \<Rightarrow> 'm list \<Rightarrow> 'x list \<Rightarrow> nat \<Rightarrow> 'm list" where
  "checkpoints item flushed [] n = []"
| "checkpoints item flushed (x # xs) n =
     item x @ (if (n + 1) mod 5 = 0 then flushed else []) @ checkpoints item flushed xs (n + 1)"

text \<open>
  An environment in which nothing fails: the transport accepts every request, every
  local write succeeds, and \<open>retryRequest\<close> runs its callback once.
\<close>

definition obliging :: "environment \<Rightarrow> bool" where
  "obliging env =
     (transport env = (\<lambda>t c r. None) \<and> writeFileSync env = (\<lambda>t path c. None) \<and>
      retryRequest env = (\<lambda>callback. callback))"

text \<open>
  \<open>sends xs a\<close>: from every state, \<open>a\<close> returns normally and has added exactly the requests
  \<open>xs\<close>.
\<close>

definition sends :: "request list \<Rightarrow> 'a action \<Rightarrow> bool" where
  "sends xs a =
     (\<forall>s. (\<exists>v. fst (a s) = Inr v) \<and> requests (trace (snd (a s))) = requests (trace s) @ xs)"

text \<open>
  What a run has recorded: the manifest in memory (\<open>this.state\<close>) and the local files
  written. \<open>records_nothing a\<close>: from every state, \<open>a\<close> leaves both as they are.
\<close>

definition recorded :: "pstate \<Rightarrow> IFileList \<times> (string \<times> content) list" where
  "recorded s = (state s, writes (trace s))"

definition records_nothing :: "'a action \<Rightarrow> bool" where
  "records_nothing a = (\<forall>s. recorded (snd (a s)) = recorded s)"

text \<open>Two more change sets: a folder, four new files and a deletion; five new files.\<close>

definition six_changes :: DiffResult where
  "six_changes =
     \<lparr>upload = [\<lparr>rtype = Folder, name = ''img'', rsize = None, hash = None\<rparr>,
                \<lparr>rtype = File, name = ''a1'', rsize = Some 1, hash = Some ''h1''\<rparr>,
                \<lparr>rtype = File, name = ''a2'', rsize = Some 1, hash = Some ''h2''\<rparr>,
                \<lparr>rtype = File, name = ''a3'', rsize = Some 1, hash = Some ''h3''\<rparr>,
                \<lparr>rtype = File, name = ''a4'', rsize = Some 1, hash = Some ''h4''\<rparr>],
      delete = [\<lparr>rtype = File, name = ''old'', rsize = Some 1, hash = Some ''h0''\<rparr>],
      replace = [], same = [], sizeUpload = 4, sizeDelete = 1, sizeReplace = 0\<rparr>"

definition five_uploads :: DiffResult where
  "five_uploads =
     \<lparr>upload = [\<lparr>rtype = File, name = ''a1'', rsize = Some 1, hash = Some ''h1''\<rparr>,
                \<lparr>rtype = File, name = ''a2'', rsize = Some 1, hash = Some ''h2''\<rparr>,
                \<lparr>rtype = File, name = ''a3'', rsize = Some 1, hash = Some ''h3''\<rparr>,
                \<lparr>rtype = File, name = ''a4'', rsize = Some 1, hash = Some ''h4''\<rparr>,
                \<lparr>rtype = File, name = ''a5'', rsize = Some 1, hash = Some ''h5''\<rparr>],
      delete = [], replace = [], same = [], sizeUpload = 5, sizeDelete = 0, sizeReplace = 0\<rparr>"

section \<open>Folder removal\<close>

text \<open>
  \<open>removal_of path\<close> holds of every event but a request to remove another directory than
  \<open>path\<close>. \<open>retryRequest_keeps env P\<close>: around a callback that emits only events of \<open>P\<close>,
  \<open>retryRequest\<close> emits only such events.
\<close>

fun removal_of :: "string \<Rightarrow> event \<Rightarrow> bool" where
  "removal_of path (Call c (RemoveDir q)) = (q = path)"
| "removal_of path e = True"

definition retryRequest_keeps :: "environment \<Rightarrow> (event \<Rightarrow> bool) \<Rightarrow> bool" where
  "retryRequest_keeps env P =
     (\<forall>callback. emits_only P callback \<longrightarrow> emits_only P (retryRequest env callback))"

text \<open>Providers whose remote root is \<open>.\<close> and \<open>./relative/\<close>.\<close>

definition dot_root :: FTPSyncProvider where
  "dot_root = site\<lparr>serverPath := ''.''\<rparr>"

definition relative_root :: FTPSyncProvider where
  "relative_root = site\<lparr>serverPath := ''./relative/''\<rparr>"

section \<open>The baseline manifest\<close>

text \<open>
  The parts of \<open>getServerFiles\<close> by name: the exclude filter applied to the fetched
  manifest, the try block and the catch block.
\<close>

definition apply_excludes :: "environment \<Rightarrow> arguments \<Rightarrow> IFileList \<Rightarrow> IFileList" where
  "apply_excludes env args serverFiles =
     (if length (arg_exclude args) > 0
      then serverFiles\<lparr>data :=
             filter (\<lambda>item. applyExcludeFilter env (name item) (rtype item = Folder)
                              (arg_exclude args))
               (data serverFiles)\<rparr>
      else serverFiles)"

definition fetch_baseline :: "environment \<Rightarrow> arguments \<Rightarrow> IFileList action" where
  "fetch_baseline env args =
     bnd (ensureDir env (arg_server_dir args)) (\<lambda>_.
     bnd (if arg_dangerous_clean_slate args then
            bnd (block
              [logger LoggerAll ''----------------------------------------------------------------'' [],
               logger LoggerAll ''Removing all files on the server because 'dangerous-clean-slate' was set, this will make the deployment very slow...'' [],
               if \<not> arg_dry_run args then client_call env ClearWorkingDir else ret (),
               logger LoggerAll ''Clear complete'' []])
              (\<lambda>_. throw (JsError ''dangerous-clean-slate was run'' None))
          else ret ()) (\<lambda>_.
     bnd (downloadFileList env (arg_state_name args)) (\<lambda>serverFiles.
     bnd (block
       [logger LoggerAll ''----------------------------------------------------------------'' [],
        logger LoggerAll ''Last published on {}'' []]) (\<lambda>_.
     ret (apply_excludes env args serverFiles)))))"

definition first_publish :: "environment \<Rightarrow> arguments \<Rightarrow> fault \<Rightarrow> IFileList action" where
  "first_publish env args error =
     bnd (block
       [logger LoggerAll ''----------------------------------------------------------------'' [],
        logger LoggerAll ''No file exists on the server {} - this must be your first publish!''
          [arg_server_dir args @ arg_state_name args],
        logger LoggerAll ''The first publish will take a while... but once the initial sync is done only differences are published!'' [],
        logger LoggerAll ''If you get this message and its NOT your first publish, something is wrong.'' []])
       (\<lambda>_ s. (Inr (empty_server_state env (Date_now env (trace s))), s))"

text \<open>
  Arguments of a plain publish; a manifest of an unknown version, and an environment in
  which the server's state file parses to it; an environment whose server has no state
  file.
\<close>

definition publish_args :: arguments where
  "publish_args =
     \<lparr>arg_server = ''ftp.example.com'', arg_username = ''deploy'', arg_password = ''secret'',
      arg_port = 21, arg_protocol = Ftp, arg_security = Loose, arg_local_dir = ''./'',
      arg_server_dir = ''./'', arg_state_name = ''state.json'', arg_dry_run = False,
      arg_dangerous_clean_slate = False, arg_exclude = []\<rparr>"

definition stale_manifest :: IFileList where
  "stale_manifest =
     \<lparr>description = ''written by another tool'', version = ''0.0.1'', generatedTime = 5,
      data = [\<lparr>rtype = File, name = ''a.txt'', rsize = Some 10, hash = Some ''h1''\<rparr>]\<rparr>"

definition stale_env :: environment where
  "stale_env = calm_env\<lparr>JSON_parse := (\<lambda>text. Some stale_manifest)\<rparr>"

definition absent_env :: environment where
  "absent_env = calm_env
     \<lparr>transport := (\<lambda>t c r. case r of
          DownloadTo a b \<Rightarrow> Some (JsError ''550 No such file or directory'' (Some 550))
        | _ \<Rightarrow> None)\<rparr>"

section \<open>The deployment (unnamed part 000)\<close>

text \<open>
  What \<open>deploy\<close> uses of modules that are not among the source files: \<open>getLocalFiles\<close>
  (module \<open>localFiles\<close>), the diff tool (\<open>HashDiff\<close>), \<open>prettyError\<close> (module
  \<open>errorHandling\<close>); and of the collaborators, \<open>fs.existsSync\<close> and the names of the
  entries that \<open>client.list\<close> returns. Nothing is assumed of them.
\<close>

record modules =
  getLocalFiles :: "arguments \<Rightarrow> IFileList action"
  getDiffs :: "IFileList \<Rightarrow> IFileList \<Rightarrow> DiffResult"
  prettyError :: "arguments \<Rightarrow> fault \<Rightarrow> unit action"
  existsSync :: "event list \<Rightarrow> string \<Rightarrow> bool"
  list_names :: "event list \<Rightarrow> string \<Rightarrow> string list"

text \<open>\<open>client.list(path)\<close> on the current client: the names of the entries listed.\<close>

definition client_list :: "environment \<Rightarrow> modules \<Rightarrow> string \<Rightarrow> string list action" where
  "client_list env mods path s =
     (case transport env (trace s) (client s) (List path) of
        None \<Rightarrow> (Inr (list_names mods (trace s) path), s\<lparr>trace := trace s @ [Call (client s) (List path)]\<rparr>)
      | Some e \<Rightarrow> (Inl e, s\<lparr>trace := trace s @ [Call (client s) (List path)]\<rparr>))"

text \<open>A request on a given client (\<open>deploy\<close> closes the client it created itself).\<close>

definition client_call_on :: "environment \<Rightarrow> nat \<Rightarrow> request \<Rightarrow> unit action" where
  "client_call_on env c r s =
     (case transport env (trace s) c r of
        None \<Rightarrow> (Inr (), s\<lparr>trace := trace s @ [Call c r]\<rparr>)
      | Some e \<Rightarrow> (Inl e, s\<lparr>trace := trace s @ [Call c r]\<rparr>))"

text \<open>\<open>try { m } finally { f }\<close>: \<open>f\<close> runs in either case, and a fault of \<open>f\<close> prevails.\<close>

definition try_finally :: "'a action \<Rightarrow> unit action \<Rightarrow> 'a action" where
  "try_finally m f s =
     (case m s of (r, s1) \<Rightarrow> (case f s1 of (Inl e, s2) \<Rightarrow> (Inl e, s2) | (Inr u, s2) \<Rightarrow> (r, s2)))"

definition ensureStateFileExists ::
  "environment \<Rightarrow> modules \<Rightarrow> string \<Rightarrow> string \<Rightarrow> string \<Rightarrow> unit action" where
  "ensureStateFileExists env mods localPath' serverPath' stateName' =
     (let serverStatePath = serverPath' @ stateName' in block
       [logger LoggerAll ''Ensuring state file {} exists on the server.'' [serverStatePath],
        try_catch
          (bnd (client_list env mods serverPath') (\<lambda>files.
             if \<not> (stateName' \<in> set files) then block
               [logger LoggerStandard ''State file {} does not exist. Creating it...'' [serverStatePath],
                (\<lambda>s. createLocalState env (empty_server_state env (Date_now env (trace s)))
                        localPath' stateName' s),
                client_call env (UploadFrom (localPath' @ stateName') serverStatePath),
                logger LoggerStandard ''State file {} has been created on the server.''
                  [serverStatePath]]
             else logger LoggerStandard ''State file {} already exists.'' [serverStatePath]))
          (\<lambda>error. block
             [logger LoggerAll ''Error ensuring state file exists: {}'' [error_message error],
              throw error])])"

text \<open>
  The constructor of \<open>FTPSyncProvider\<close> (part 001): \<open>lastNoopTime\<close> is initialised with the
  clock, and \<open>this.state\<close> is read from the local state file when there is one.
\<close>

definition new_FTPSyncProvider :: "environment \<Rightarrow> modules \<Rightarrow> FTPSyncProvider \<Rightarrow> unit action" where
  "new_FTPSyncProvider env mods p = block
     [(\<lambda>s. (Inr (), s\<lparr>lastNoopTime := Date_now env (trace s)\<rparr>)),
      (\<lambda>s. if existsSync mods (trace s) (localPath p @ stateName p) then
              bnd (fs_readFileSync env (localPath p @ stateName p)) (\<lambda>stateFileContent.
                case JSON_parse env stateFileContent of
                  None \<Rightarrow> throw (JsError ''SyntaxError'' None)
                | Some parsed \<Rightarrow> block
                    [(\<lambda>s'. (Inr (), s'\<lparr>state := parsed\<rparr>)),
                     logger LoggerVerbose ''State loaded from file.'' []]) s
            else block
              [(\<lambda>s'. (Inr (), s'\<lparr>state :=
                   \<lparr>description = ''Sync state file'', version = ''1.0.0'',
                    generatedTime = Date_now env (trace s'), data = []\<rparr>\<rparr>)),
               logger LoggerVerbose ''Initialized new empty state.'' []] s)]"

text \<open>
  \<open>deploy\<close>. The timings and the figures of the closing report are left out; emoji are
  dropped from the log templates, and where two templates differ in the emoji only it is
  written as a word in brackets. The provider is the one of part 001.
\<close>

definition deploy :: "environment \<Rightarrow> modules \<Rightarrow> arguments \<Rightarrow> unit action" where
  "deploy env mods args =
     bnd (block
       [logger LoggerAll ''----------------------------------------------------------------'' [],
        logger LoggerAll ''Thanks for using ftp-deploy. Let's deploy some stuff!'' [],
        logger LoggerAll ''Nazdarek ... (Thank you Sam!)'' [],
        logger LoggerAll ''----------------------------------------------------------------'' [],
        logger LoggerAll ''If you found this project helpful, please support it'' [],
        logger LoggerAll ''by giving it a star on Github --> https://github.com/SamKirkland/FTP-Deploy-Action'' [],
        logger LoggerAll ''or add a badge to your projects readme --> https://github.com/SamKirkland/FTP-Deploy-Action#badge'' [],
        logger LoggerVerbose ''Using the following excludes filters: {}'' (arg_exclude args)]) (\<lambda>_.
     bnd (getLocalFiles mods args) (\<lambda>localFiles.
     bnd (createLocalState env localFiles (arg_local_dir args) (arg_state_name args)) (\<lambda>_.
     bnd new_client (\<lambda>_ s0.
     bnd (try_finally
       (try_catch
         (bnd (connect env args) (\<lambda>_.
          bnd (ensureStateFileExists env mods (arg_local_dir args) (arg_server_dir args)
                 (arg_state_name args)) (\<lambda>_.
          bnd (getServerFiles env args) (\<lambda>serverFiles.
          bnd (block
            [logger LoggerStandard ''----------------------------------------------------------------'' [],
             logger LoggerStandard ''Local Files: {}'' [show_nat (length (data localFiles))],
             logger LoggerStandard ''Server Files: {}'' [show_nat (length (data serverFiles))],
             logger LoggerStandard ''----------------------------------------------------------------'' [],
             logger LoggerStandard ''Calculating differences between client & server'' [],
             logger LoggerStandard ''----------------------------------------------------------------'' []]) (\<lambda>_.
          (let diffs = getDiffs mods localFiles serverFiles in
           bnd (block
             [block (map (\<lambda>item. logger LoggerStandard ''(folder) Create: {}'' [name item])
                       (filter (\<lambda>item. rtype item = Folder) (upload diffs))),
              block (map (\<lambda>item. logger LoggerStandard ''(file) Upload: {}'' [name item])
                       (filter (\<lambda>item. rtype item = File) (upload diffs))),
              block (map (\<lambda>item. logger LoggerStandard ''File replace: {}'' [name item])
                       (replace diffs)),
              block (map (\<lambda>item. logger LoggerStandard ''(file) Delete: {}'' [name item])
                       (filter (\<lambda>item. rtype item = File) (delete diffs))),
              block (map (\<lambda>item. logger LoggerStandard ''(folder) Delete: {}'' [name item])
                       (filter (\<lambda>item. rtype item = Folder) (delete diffs))),
              block (map (\<lambda>item.
                         if rtype item = File
                         then logger LoggerStandard ''File content is the same, doing nothing: {}''
                                [name item]
                         else ret ())
                       (same diffs))]) (\<lambda>_.
           bnd (new_FTPSyncProvider env mods (provider_of args)) (\<lambda>_.
           syncLocalToServer env (provider_of args) diffs))))))))
         (\<lambda>error. block [prettyError mods args error, throw error]))
       (client_call_on env (client s0) Close)) (\<lambda>_. block
       [logger LoggerAll ''----------------------------------------------------------------'' [],
        logger LoggerAll ''Time spent hashing: {}'' [],
        logger LoggerAll ''Time spent connecting to server: {}'' [],
        logger LoggerAll ''Time spent deploying: {} ({}/second)'' [],
        logger LoggerAll ''  - changing dirs: {}'' [],
        logger LoggerAll ''  - logging: {}'' [],
        logger LoggerAll ''----------------------------------------------------------------'' [],
        logger LoggerAll ''Total time: {}'' [],
        logger LoggerAll ''----------------------------------------------------------------'' []]) s0))))"

text \<open>
  A first deployment in dry-run mode: the server accepts every request and has no state
  file yet (the listing of the remote root is empty); two local files are to be
  published; what is read back from a state file parses to a manifest without entries.
\<close>

definition dry_args :: arguments where
  "dry_args = publish_args\<lparr>arg_dry_run := True\<rparr>"

definition blank_manifest :: IFileList where
  "blank_manifest =
     \<lparr>description = ''DO NOT DELETE THIS FILE'', version = ''1.0.0'', generatedTime = 0, data = []\<rparr>"

definition new_site_env :: environment where
  "new_site_env = calm_env\<lparr>JSON_parse := (\<lambda>text. Some blank_manifest)\<rparr>"

definition two_files :: IFileList where
  "two_files =
     \<lparr>description = ''DO NOT DELETE THIS FILE'', version = ''1.0.0'', generatedTime = 0,
      data = [\<lparr>rtype = File, name = ''a.txt'', rsize = Some 10, hash = Some ''h1''\<rparr>,
              \<lparr>rtype = File, name = ''b.txt'', rsize = Some 5, hash = Some ''h2''\<rparr>]\<rparr>"

definition tools :: modules where
  "tools =
     \<lparr>getLocalFiles = (\<lambda>args. ret two_files),
      getDiffs = (\<lambda>localFiles serverFiles. two_uploads),
      prettyError = (\<lambda>args error. logger LoggerAll ''{}'' [error_message error]),
      existsSync = (\<lambda>t path. True),
      list_names = (\<lambda>t path. [])\<rparr>"

section \<open>Laws of sequencing\<close>

declare safeOperation_loop.simps [simp del]
declare show_nat.simps [simp del]

lemma bnd_ret [simp]: "bnd (ret v) f = f v"
  by (rule ext) (simp add: bnd_def ret_def)

lemma bnd_throw [simp]: "bnd (throw e) f = throw e"
  by (rule ext) (simp add: bnd_def throw_def)

lemma bnd_assoc: "bnd (bnd m f) g = bnd m (\<lambda>v. bnd (f v) g)"
  by (rule ext) (simp add: bnd_def split: prod.splits sum.splits)

lemma block_append: "block (as @ bs) = bnd (block as) (\<lambda>_. block bs)"
  by (induction as) (simp_all add: bnd_assoc)

lemma block_nested: "block (block as # bs) = block (as @ bs)"
  by (simp add: block_append)

lemma apply_each_append:
  "apply_each body flush (xs @ ys) n = bnd (apply_each body flush xs n) (apply_each body flush ys)"
  by (induction xs arbitrary: n) (simp_all add: bnd_assoc)

lemma apply_each_map:
  "apply_each body flush (map f xs) n = apply_each (\<lambda>x. body (f x)) flush xs n"
  by (induction xs arbitrary: n) simp_all

section \<open>The order of the passes\<close>

lemma plan_blocks_ts:
  "block
     [block (map (\<lambda>file. createFolder_ts env p (name file)) fs1),
      block (map (\<lambda>file. uploadFile_ts env p (name file) Upload) fs2),
      block (map (\<lambda>file. uploadFile_ts env p (name file) Replace) fs3),
      block (map (\<lambda>file. removeFile_ts env p (name file)) fs4),
      block (map (\<lambda>file. removeFolder_ts env p (name file)) fs5),
      a, b] =
   block (map (perform_ts env p)
            (map (Pair CreateFolderStep) fs1 @ map (Pair UploadStep) fs2 @
             map (Pair ReplaceStep) fs3 @ map (Pair DeleteFileStep) fs4 @
             map (Pair DeleteFolderStep) fs5) @ [a, b])"
  by (simp add: block_append bnd_assoc comp_def)

lemma syncLocalToServer_plan:
  "syncLocalToServer env p diffs =
     bnd (sync_header diffs) (\<lambda>_.
     bnd (apply_each (perform env p) (flushState env p) (plan p diffs) 0) (sync_footer env p))"
  unfolding syncLocalToServer_def plan_def sync_footer_def
  by (simp only: apply_each_append apply_each_map bnd_assoc perform.simps)

lemma syncLocalToServer_ts_plan:
  "syncLocalToServer_ts env p diffs =
     bnd (sync_header diffs) (\<lambda>_.
     try_catch
       (block (map (perform_ts env p) (plan p diffs) @
          [logger LoggerAll ''----------------------------------------------------------------'' [],
           logger LoggerAll ''Sync complete.'' []]))
       (sync_interrupted env p diffs))"
proof -
  have "sync_interrupted env p diffs = (\<lambda>error. sync_interrupted env p diffs error)"
    by simp
  then show ?thesis
    unfolding syncLocalToServer_ts_def plan_def
    by (simp only: plan_blocks_ts sync_interrupted_def)
qed

section \<open>The retry loop\<close>

lemma loop_returns:
  assumes "attempt < retries" and "operation s = (Inr v, s')"
  shows "safeOperation_loop catch operation retries attempt lastError s = (Inr v, s')"
  using assms by (subst safeOperation_loop.simps) simp

lemma loop_catch_throws:
  assumes "attempt < retries" and "operation s = (Inl e, s')"
    and "catch retries attempt e s' = (Inl f, s'')"
  shows "safeOperation_loop catch operation retries attempt lastError s = (Inl f, s'')"
  using assms by (subst safeOperation_loop.simps) simp

lemma loop_retries:
  assumes "attempt < retries" and "operation s = (Inl e, s')"
    and "catch retries attempt e s' = (Inr (), s'')"
  shows "safeOperation_loop catch operation retries attempt lastError s =
         safeOperation_loop catch operation retries (Suc attempt) (Some (last_error e)) s''"
  using assms by (subst safeOperation_loop.simps) simp

lemma loop_exhausted:
  "\<not> attempt < retries \<Longrightarrow>
   safeOperation_loop catch operation retries attempt lastError s =
     (Inl (exhausted retries lastError), s)"
  by (subst safeOperation_loop.simps) simp

lemma calls_append [simp]: "calls (xs @ ys) = calls xs @ calls ys"
  by (induction xs rule: calls.induct) simp_all

lemma show_nat_3 [simp]: "show_nat 3 = ''3''"
  by (simp add: show_nat.simps digit_char_def)

lemmas run_defs =
  block.simps bnd_def ret_def throw_def try_catch_def logger_def emit_def client_call_def
  new_client_def

text \<open>The paths through a loop of three attempts, for any catch block.\<close>

lemma second_attempt:
  assumes "operation sa = (Inl e1, sb)" and "catch 3 0 e1 sb = (Inr (), sc)"
  shows "safeOperation_loop catch operation 3 0 None sa =
         safeOperation_loop catch operation 3 (Suc 0) (Some (last_error e1)) sc"
  by (rule loop_retries[where e = e1 and s' = sb]) (simp_all add: assms)

lemma third_attempt:
  assumes "operation sa = (Inl e1, sb)" and "catch 3 0 e1 sb = (Inr (), sc)"
    and "operation sc = (Inl e2, sd)" and "catch 3 1 e2 sd = (Inr (), se)"
  shows "safeOperation_loop catch operation 3 0 None sa =
         safeOperation_loop catch operation 3 (Suc (Suc 0)) (Some (last_error e2)) se"
proof -
  have "safeOperation_loop catch operation 3 (Suc 0) (Some (last_error e1)) sc =
        safeOperation_loop catch operation 3 (Suc (Suc 0)) (Some (last_error e2)) se"
    by (rule loop_retries[where e = e2 and s' = sd]) (use assms in simp_all)
  with second_attempt[where operation = operation and catch = catch, OF assms(1,2)]
  show ?thesis by simp
qed

lemma budget_exhausted:
  assumes "operation sa = (Inl e1, sb)" and "catch 3 0 e1 sb = (Inr (), sc)"
    and "operation sc = (Inl e2, sd)" and "catch 3 1 e2 sd = (Inr (), se)"
    and "operation se = (Inl e3, sf)" and "catch 3 2 e3 sf = (Inr (), sg)"
  shows "safeOperation_loop catch operation 3 0 None sa =
         (Inl (JsError (''Operation failed after 3 attempts: '' @ last_error e3) None), sg)"
proof -
  have "safeOperation_loop catch operation 3 (Suc (Suc 0)) (Some (last_error e2)) se =
        safeOperation_loop catch operation 3 (Suc (Suc (Suc 0))) (Some (last_error e3)) sg"
    by (rule loop_retries[where e = e3 and s' = sf]) (use assms in \<open>simp_all add: numeral_2_eq_2\<close>)
  also have "\<dots> = (Inl (exhausted 3 (Some (last_error e3))), sg)"
    by (rule loop_exhausted) (simp add: numeral_3_eq_3)
  finally show ?thesis
    using third_attempt[where operation = operation and catch = catch, OF assms(1-4)]
    by (simp add: exhausted_def)
qed



lemmas eval_defs =
  safeOperation_def safeOperation_loop.simps on_failure_def connection_issue_def startsWith_def
  exhausted_def reconnect_def reconnect_options_def sendNoopIfNeeded_def run_defs






lemma on_failure_ts_throws:
  assumes "fst (on_failure_ts env p retries attempt e s) = Inl f"
  shows "(\<exists>m c. e = JsError m c \<and> includes' m ''Client is closed'') \<and>
         (\<exists>t. transport env t (Suc (client s)) (Access (reconnect_options p)) = Some f)"
proof (cases e)
  case Thrown
  with assms show ?thesis by (simp add: on_failure_ts_def run_defs split: if_splits)
next
  case (JsError m c)
  show ?thesis
  proof (cases "includes' m ''Client is closed''")
    case False
    with assms JsError show ?thesis by (simp add: on_failure_ts_def run_defs split: if_splits)
  next
    case True
    with assms JsError show ?thesis
      by (auto simp: on_failure_ts_def reconnect_def run_defs split: option.splits if_splits)
  qed
qed

text \<open>
  The version of \<open>src/syncProvider.ts\<close> has the same loop; its catch block reconnects on
  \<open>Client is closed\<close> only and logs the failure afterwards. The same holds of it: a
  refused reconnect leaves \<open>safeOperation\<close> with the fault of the reconnect, and three
  failed attempts whose catch blocks return end in the error with the count.
\<close>

lemma safeOperation_ts_retry_budget:
  "(operation sa = (Inr v, sb) \<longrightarrow> safeOperation_ts env p operation 3 sa = (Inr v, sb)) \<and>
   (operation sa = (Inl e1, sb) \<and> on_failure_ts env p 3 0 e1 sb = (Inl f, sc) \<longrightarrow>
      safeOperation_ts env p operation 3 sa = (Inl f, sc)) \<and>
   (operation sa = (Inl e1, sb) \<and> on_failure_ts env p 3 0 e1 sb = (Inr (), sc) \<and>
    operation sc = (Inl e2, sd) \<and> on_failure_ts env p 3 1 e2 sd = (Inr (), se) \<and>
    operation se = (Inl e3, sf) \<and> on_failure_ts env p 3 2 e3 sf = (Inl f, sg) \<longrightarrow>
      safeOperation_ts env p operation 3 sa = (Inl f, sg)) \<and>
   (operation sa = (Inl e1, sb) \<and> on_failure_ts env p 3 0 e1 sb = (Inr (), sc) \<and>
    operation sc = (Inl e2, sd) \<and> on_failure_ts env p 3 1 e2 sd = (Inr (), se) \<and>
    operation se = (Inl e3, sf) \<and> on_failure_ts env p 3 2 e3 sf = (Inr (), sg) \<longrightarrow>
      safeOperation_ts env p operation 3 sa =
        (Inl (JsError (''Operation failed after 3 attempts: '' @ last_error e3) None), sg)) \<and>
   (fst (on_failure_ts env p retries attempt e s) = Inl f \<longrightarrow>
      (\<exists>m c. e = JsError m c \<and> includes' m ''Client is closed'') \<and>
      (\<exists>t. transport env t (Suc (client s)) (Access (reconnect_options p)) = Some f))"
proof (intro conjI impI)
  assume "operation sa = (Inr v, sb)"
  then show "safeOperation_ts env p operation 3 sa = (Inr v, sb)"
    unfolding safeOperation_ts_def by (intro loop_returns) simp_all
next
  assume a: "operation sa = (Inl e1, sb) \<and> on_failure_ts env p 3 0 e1 sb = (Inl f, sc)"
  show "safeOperation_ts env p operation 3 sa = (Inl f, sc)"
    unfolding safeOperation_ts_def
    by (rule loop_catch_throws[where e = e1 and s' = sb]) (use a in simp_all)
next
  assume a: "operation sa = (Inl e1, sb) \<and> on_failure_ts env p 3 0 e1 sb = (Inr (), sc) \<and>
    operation sc = (Inl e2, sd) \<and> on_failure_ts env p 3 1 e2 sd = (Inr (), se) \<and>
    operation se = (Inl e3, sf) \<and> on_failure_ts env p 3 2 e3 sf = (Inl f, sg)"
  have "safeOperation_loop (on_failure_ts env p) operation 3 (Suc (Suc 0)) (Some (last_error e2)) se =
        (Inl f, sg)"
    by (rule loop_catch_throws[where e = e3 and s' = sf]) (use a in \<open>simp_all add: numeral_2_eq_2\<close>)
  with a show "safeOperation_ts env p operation 3 sa = (Inl f, sg)"
    unfolding safeOperation_ts_def by (simp add: third_attempt)
next
  assume a: "operation sa = (Inl e1, sb) \<and> on_failure_ts env p 3 0 e1 sb = (Inr (), sc) \<and>
    operation sc = (Inl e2, sd) \<and> on_failure_ts env p 3 1 e2 sd = (Inr (), se) \<and>
    operation se = (Inl e3, sf) \<and> on_failure_ts env p 3 2 e3 sf = (Inr (), sg)"
  then have h: "operation sa = (Inl e1, sb)" "on_failure_ts env p 3 0 e1 sb = (Inr (), sc)"
    "operation sc = (Inl e2, sd)" "on_failure_ts env p 3 1 e2 sd = (Inr (), se)"
    "operation se = (Inl e3, sf)" "on_failure_ts env p 3 2 e3 sf = (Inr (), sg)"
    by simp_all
  show "safeOperation_ts env p operation 3 sa =
        (Inl (JsError (''Operation failed after 3 attempts: '' @ last_error e3) None), sg)"
    unfolding safeOperation_ts_def
    by (rule budget_exhausted[where operation = operation and catch = "on_failure_ts env p", OF h])
next
  assume h: "fst (on_failure_ts env p retries attempt e s) = Inl f"
  from on_failure_ts_throws[OF h] show "\<exists>m c. e = JsError m c \<and> includes' m ''Client is closed''"
    by simp
  from on_failure_ts_throws[OF h]
  show "\<exists>t. transport env t (Suc (client s)) (Access (reconnect_options p)) = Some f"
    by simp
qed

lemma calls_snoc_call [simp]: "calls (es @ [Call c r]) = calls es @ [(c, r)]"
  by simp

lemma reconnect_calls:
  "calls (trace (snd (reconnect env p s))) =
     calls (trace s) @ [(client s, Close), (Suc (client s), Access (reconnect_options p))] \<and>
   client (snd (reconnect env p s)) = Suc (client s)"
  by (simp add: reconnect_def run_defs split: option.splits)

lemma on_failure_transient:
  "connection_issue m \<Longrightarrow>
   calls (trace (snd (on_failure env p retries attempt (JsError m c) s))) =
     calls (trace s) @ [(client s, Close), (Suc (client s), Access (reconnect_options p))] \<and>
   client (snd (on_failure env p retries attempt (JsError m c) s)) = Suc (client s)"
  by (simp add: on_failure_def reconnect_def run_defs split: option.splits)

lemma on_failure_other:
  "\<not> connection_issue m \<Longrightarrow>
   fst (on_failure env p retries attempt (JsError m c) s) = Inr () \<and>
   calls (trace (snd (on_failure env p retries attempt (JsError m c) s))) = calls (trace s) \<and>
   client (snd (on_failure env p retries attempt (JsError m c) s)) = client s"
  by (simp add: on_failure_def run_defs)

lemma on_failure_thrown:
  "fst (on_failure env p retries attempt Thrown s) = Inr () \<and>
   calls (trace (snd (on_failure env p retries attempt Thrown s))) = calls (trace s) \<and>
   client (snd (on_failure env p retries attempt Thrown s)) = client s"
  by (simp add: on_failure_def run_defs)

text \<open>
  C4. The catch block of the retry loop classifies the fault. On an \<open>Error\<close> whose message
  has a dropped-connection signature it reconnects before anything else happens: the
  current client is closed and a new client is given the access request with the
  stored credentials (whether or not either request succeeds). On any other fault it
  sends nothing to the transport, keeps the client and returns, so the loop goes on to the
  next attempt. An operation that fails twice with such a signature, each reconnect
  succeeding, and succeeds on the third attempt makes \<open>safeOperation\<close> return its result.
\<close>

theorem safeOperation_classifies_faults:
  "(connection_issue m \<longrightarrow>
      calls (trace (snd (on_failure env p retries attempt (JsError m c) s))) =
        calls (trace s) @ [(client s, Close), (Suc (client s), Access (reconnect_options p))] \<and>
      client (snd (on_failure env p retries attempt (JsError m c) s)) = Suc (client s)) \<and>
   (\<not> connection_issue m' \<longrightarrow>
      fst (on_failure env p retries attempt (JsError m' c') s) = Inr () \<and>
      calls (trace (snd (on_failure env p retries attempt (JsError m' c') s))) = calls (trace s) \<and>
      client (snd (on_failure env p retries attempt (JsError m' c') s)) = client s) \<and>
   (fst (on_failure env p retries attempt Thrown s) = Inr () \<and>
    calls (trace (snd (on_failure env p retries attempt Thrown s))) = calls (trace s) \<and>
    client (snd (on_failure env p retries attempt Thrown s)) = client s) \<and>
   (operation s0 = (Inl (JsError m1 c1), s1) \<and> connection_issue m1 \<and>
    on_failure env p 3 0 (JsError m1 c1) s1 = (Inr (), s2) \<and>
    operation s2 = (Inl (JsError m2 c2), s3) \<and> connection_issue m2 \<and>
    on_failure env p 3 1 (JsError m2 c2) s3 = (Inr (), s4) \<and>
    operation s4 = (Inr v, s5) \<longrightarrow>
    safeOperation env p operation 3 s0 = (Inr v, s5))"
proof (intro conjI impI)
  assume a: "operation s0 = (Inl (JsError m1 c1), s1) \<and> connection_issue m1 \<and>
    on_failure env p 3 0 (JsError m1 c1) s1 = (Inr (), s2) \<and>
    operation s2 = (Inl (JsError m2 c2), s3) \<and> connection_issue m2 \<and>
    on_failure env p 3 1 (JsError m2 c2) s3 = (Inr (), s4) \<and>
    operation s4 = (Inr v, s5)"
  then have 1: "operation s0 = (Inl (JsError m1 c1), s1)"
    and 2: "on_failure env p 3 0 (JsError m1 c1) s1 = (Inr (), s2)"
    and 3: "operation s2 = (Inl (JsError m2 c2), s3)"
    and 4: "on_failure env p 3 1 (JsError m2 c2) s3 = (Inr (), s4)"
    and 5: "operation s4 = (Inr v, s5)"
    by simp_all
  have "safeOperation_loop (on_failure env p) operation 3 (Suc (Suc 0))
          (Some (last_error (JsError m2 c2))) s4 = (Inr v, s5)"
    by (rule loop_returns) (use 5 in simp_all)
  with third_attempt[where operation = operation and catch = "on_failure env p", OF 1 2 3 4]
  show "safeOperation env p operation 3 s0 = (Inr v, s5)"
    unfolding safeOperation_def by simp
qed (simp_all add: on_failure_transient on_failure_other on_failure_thrown)

lemma transient_signature: "connection_issue ''Client is closed''"
  by (simp add: connection_issue_def startsWith_def)

lemma dropped_upload:
  "client s < 2 \<Longrightarrow> fst (upload0 dropping_env s) = Inl (JsError ''Client is closed'' None)"
  by (simp add: upload0_def dropping_env_def calm_env_def client_call_def)

lemma dropping_reconnects:
  "fst (on_failure dropping_env site 3 k (JsError ''Client is closed'' None) s) = Inr ()"
  by (simp add: on_failure_def transient_signature reconnect_def dropping_env_def calm_env_def run_defs)

theorem safeOperation_classifies_faults_witness:
  "connection_issue ''Client is closed'' \<and> \<not> connection_issue ''disk full'' \<and>
   calls (trace (snd (on_failure dropping_env site 3 0 (JsError ''Client is closed'' None) fresh))) =
     [(0, Close), (1, Access (reconnect_options site))] \<and>
   calls (trace (snd (on_failure dropping_env site 3 0 (JsError ''disk full'' None) fresh))) = [] \<and>
   fst (safeOperation dropping_env site (upload0 dropping_env) 3 fresh) = Inr ()"
proof -
  let ?e = "JsError ''Client is closed'' None"
  let ?op = "upload0 dropping_env"
  let ?c = "on_failure dropping_env site"
  have t: "connection_issue ''Client is closed''" by (rule transient_signature)
  have n: "\<not> connection_issue ''disk full''"
    by (simp add: connection_issue_def startsWith_def)
  define s1 where "s1 = snd (?op fresh)"
  define s2 where "s2 = snd (?c 3 0 ?e s1)"
  define s3 where "s3 = snd (?op s2)"
  define s4 where "s4 = snd (?c 3 1 ?e s3)"
  define s5 where "s5 = snd (?op s4)"
  note T = safeOperation_classifies_faults
  have k1: "client s1 = 0"
    by (simp add: s1_def upload0_def client_call_def fresh_def split: option.splits)
  have k2: "client s2 = 1"
    using T[where m = "''Client is closed''" and env = dropping_env and p = site and retries = 3
        and attempt = 0 and c = None and s = s1, THEN conjunct1] t k1
    by (simp add: s2_def)
  have k3: "client s3 = 1"
    using k2 by (simp add: s3_def upload0_def client_call_def split: option.splits)
  have k4: "client s4 = 2"
    using T[where m = "''Client is closed''" and env = dropping_env and p = site and retries = 3
        and attempt = 1 and c = None and s = s3, THEN conjunct1] t k3
    by (simp add: s4_def)
  have o1: "?op fresh = (Inl ?e, s1)"
    using dropped_upload[of fresh] by (simp add: prod_eq_iff s1_def fresh_def)
  have o2: "?op s2 = (Inl ?e, s3)"
    using dropped_upload[of s2] k2 by (simp add: prod_eq_iff s3_def)
  have o3: "?op s4 = (Inr (), s5)"
    using k4 by (simp add: prod_eq_iff s5_def upload0_def dropping_env_def calm_env_def client_call_def)
  have c1: "?c 3 0 ?e s1 = (Inr (), s2)" and c2: "?c 3 1 ?e s3 = (Inr (), s4)"
    using dropping_reconnects by (simp_all add: prod_eq_iff s2_def s4_def)
  have r: "safeOperation dropping_env site ?op 3 fresh = (Inr (), s5)"
    using T[where env = dropping_env and p = site and operation = ?op and ?s0.0 = fresh
        and ?m1.0 = "''Client is closed''" and ?c1.0 = None and ?s1.0 = s1 and ?s2.0 = s2
        and ?m2.0 = "''Client is closed''" and ?c2.0 = None and ?s3.0 = s3 and ?s4.0 = s4
        and v = "()" and ?s5.0 = s5, THEN conjunct2, THEN conjunct2, THEN conjunct2]
      o1 o2 o3 c1 c2 t
    by simp
  have a: "calls (trace (snd (?c 3 0 ?e fresh))) = [(0, Close), (1, Access (reconnect_options site))]"
    using T[where m = "''Client is closed''" and env = dropping_env and p = site and retries = 3
        and attempt = 0 and c = None and s = fresh, THEN conjunct1] t
    by (simp add: fresh_def)
  have b: "calls (trace (snd (?c 3 0 (JsError ''disk full'' None) fresh))) = []"
    using T[where m' = "''disk full''" and env = dropping_env and p = site and retries = 3
        and attempt = 0 and c' = None and s = fresh, THEN conjunct2, THEN conjunct1] n
    by (simp add: fresh_def)
  from t n a b r show ?thesis by simp
qed





section \<open>Reconnecting\<close>

text \<open>
  C10. The requests of \<open>reconnect\<close> are a close on the current client and an access on a
  new one whose options have no port, explicit TLS and certificate validation off,
  for every provider, so also for the provider \<open>deploy\<close> builds from any arguments;
  the first connection (\<open>connect\<close>) instead passes the configured port and takes the
  TLS mode from the protocol and the validation from the security setting.
\<close>

theorem reconnect_always_explicit_tls:
  "calls (trace (snd (reconnect env p s))) =
     calls (trace s) @
       [(client s, Close),
        (Suc (client s),
         Access \<lparr>host = server p, user = username p, password = password' p, port = None,
                 secure = SecureTrue, rejectUnauthorized = False\<rparr>)] \<and>
   calls (trace (snd (reconnect env (provider_of args) s))) =
     calls (trace s) @
       [(client s, Close),
        (Suc (client s),
         Access \<lparr>host = arg_server args, user = arg_username args, password = arg_password args,
                 port = None, secure = SecureTrue, rejectUnauthorized = False\<rparr>)] \<and>
   calls (trace (snd (connect env args s))) =
     calls (trace s) @
       [(client s,
         Access \<lparr>host = arg_server args, user = arg_username args, password = arg_password args,
                 port = Some (arg_port args),
                 secure = (case arg_protocol args of
                             Ftp \<Rightarrow> SecureFalse | Ftps \<Rightarrow> SecureTrue | FtpsLegacy \<Rightarrow> SecureImplicit),
                 rejectUnauthorized = (arg_security args = Strict)\<rparr>)]"
  by (simp add: reconnect_calls reconnect_options_def provider_of_def connect_def connect_options_def
      run_defs split: option.splits protocol.splits)

section \<open>Faults while the change set is applied\<close>

lemma writes_append [simp]: "writes (xs @ ys) = writes xs @ writes ys"
  by (induction xs rule: writes.induct) simp_all

text \<open>
  C5. The file to delete is not on the server: the transport answers every \<open>remove\<close> with
  an error of code 550, which is \<open>FileNotFoundOrNoAccess\<close> here. \<open>removeFile\<close> does not
  return: the retry layer has replaced the fault by its own \<open>Error\<close>, which has no code,
  so the test on the code in \<open>removeFile\<close> fails and the error is thrown on. Both versions
  of the provider do this.
\<close>

theorem removeFile_not_found_is_fatal:
  "fst (removeFile missing_env site ''old.txt'' fresh) =
     Inl (JsError ''Operation failed after 3 attempts: 550 No such file or directory'' None) \<and>
   fst (removeFile_ts missing_env site ''old.txt'' fresh) =
     Inl (JsError ''Operation failed after 3 attempts: 550 No such file or directory'' None)"
  by (simp add: removeFile_def removeFile_ts_def safeOperation_ts_def on_failure_ts_def
      missing_env_def calm_env_def site_def fresh_def eval_defs)

text \<open>
  C7. The first of two uploads fails on all three attempts. \<open>syncLocalToServer\<close> of part
  001 throws the fault of the retry layer; the second file is never sent, and nothing is
  written to the local state file and nothing is pushed: there is no checkpoint on this
  path.
\<close>

theorem sync_aborts_without_checkpoint:
  "fst (syncLocalToServer refusing_env site two_uploads fresh) =
     Inl (JsError ''Operation failed after 3 attempts: disk full'' None) \<and>
   calls (trace (snd (syncLocalToServer refusing_env site two_uploads fresh))) =
     [(0, UploadFrom ''./a.txt'' ''a.txt''), (0, UploadFrom ''./a.txt'' ''a.txt''),
      (0, UploadFrom ''./a.txt'' ''a.txt'')] \<and>
   writes (trace (snd (syncLocalToServer refusing_env site two_uploads fresh))) = []"
  by (simp add: syncLocalToServer_def sync_header_def uploadFile_def flushState_def two_uploads_def
      refusing_env_def calm_env_def site_def fresh_def eval_defs)

text \<open>
  The version of \<open>src/syncProvider.ts\<close> on the same input: the same fault is thrown and the
  second file is not sent, but the catch block has written the state file first.
\<close>

lemma sync_ts_checkpoints_on_fault:
  "fst (syncLocalToServer_ts refusing_env site two_uploads fresh) =
     Inl (JsError ''Operation failed after 3 attempts: disk full'' None) \<and>
   calls (trace (snd (syncLocalToServer_ts refusing_env site two_uploads fresh))) =
     [(0, UploadFrom ''./a.txt'' ''a.txt''), (0, UploadFrom ''./a.txt'' ''a.txt''),
      (0, UploadFrom ''./a.txt'' ''a.txt'')] \<and>
   map fst (writes (trace (snd (syncLocalToServer_ts refusing_env site two_uploads fresh)))) =
     [''./state.json'']"
  by (simp add: syncLocalToServer_ts_def sync_header_def uploadFile_ts_def updateStateFile_def
      fs_writeFileSync_def safeOperation_ts_def on_failure_ts_def two_uploads_def
      refusing_env_def calm_env_def site_def fresh_def eval_defs)

section \<open>Events of composed actions\<close>

named_theorems emits

lemma emits_onlyI:
  "(\<And>s. \<exists>es. trace (snd (a s)) = trace s @ es \<and> list_all P es) \<Longrightarrow> emits_only P a"
  by (simp add: emits_only_def)

lemma emits_onlyD:
  "emits_only P a \<Longrightarrow> \<exists>es. trace (snd (a s)) = trace s @ es \<and> list_all P es"
  by (simp add: emits_only_def)

lemma emits_ret [emits]: "emits_only P (ret v)"
  by (simp add: emits_only_def ret_def)

lemma emits_throw [emits]: "emits_only P (throw e)"
  by (simp add: emits_only_def throw_def)

lemma emits_bnd [emits]:
  assumes "emits_only P m" and "\<And>v. emits_only P (f v)"
  shows "emits_only P (bnd m f)"
proof (rule emits_onlyI)
  fix s
  obtain r s1 where m: "m s = (r, s1)" by (cases "m s")
  from emits_onlyD[OF assms(1), of s] m obtain es where es: "trace s1 = trace s @ es" "list_all P es"
    by auto
  show "\<exists>es. trace (snd (bnd m f s)) = trace s @ es \<and> list_all P es"
  proof (cases r)
    case (Inl e)
    with m es show ?thesis by (auto simp: bnd_def)
  next
    case (Inr v)
    from emits_onlyD[OF assms(2), of v s1] obtain fs where
      "trace (snd (f v s1)) = trace s1 @ fs" "list_all P fs" by auto
    with m es Inr show ?thesis by (auto simp: bnd_def intro!: exI[of _ "es @ fs"])
  qed
qed

lemma emits_try_catch [emits]:
  assumes "emits_only P m" and "\<And>e. emits_only P (h e)"
  shows "emits_only P (try_catch m h)"
proof (rule emits_onlyI)
  fix s
  obtain r s1 where m: "m s = (r, s1)" by (cases "m s")
  from emits_onlyD[OF assms(1), of s] m obtain es where es: "trace s1 = trace s @ es" "list_all P es"
    by auto
  show "\<exists>es. trace (snd (try_catch m h s)) = trace s @ es \<and> list_all P es"
  proof (cases r)
    case (Inr v)
    with m es show ?thesis by (auto simp: try_catch_def)
  next
    case (Inl e)
    from emits_onlyD[OF assms(2), of e s1] obtain fs where
      "trace (snd (h e s1)) = trace s1 @ fs" "list_all P fs" by auto
    with m es Inl show ?thesis by (auto simp: try_catch_def intro!: exI[of _ "es @ fs"])
  qed
qed

lemma emits_block_Nil [emits]: "emits_only P (block [])"
  by (simp add: emits_ret)

lemma emits_block_Cons [emits]:
  "emits_only P a \<Longrightarrow> emits_only P (block as) \<Longrightarrow> emits_only P (block (a # as))"
  by (simp add: emits_bnd)

lemma emits_block_all:
  "(\<And>a. a \<in> set as \<Longrightarrow> emits_only P a) \<Longrightarrow> emits_only P (block as)"
  by (induction as) (simp_all add: emits_ret emits_bnd)

lemma emits_emit: "P e \<Longrightarrow> emits_only P (emit e)"
  by (simp add: emits_only_def emit_def)

lemma emits_logger [emits]: "P (Log ch t args) \<Longrightarrow> emits_only P (logger ch t args)"
  by (simp add: logger_def emits_emit)

lemma emits_client_call [emits]: "(\<And>c. P (Call c r)) \<Longrightarrow> emits_only P (client_call env r)"
  by (auto simp: emits_only_def client_call_def split: option.splits)

lemma emits_writeFileSync [emits]:
  "P (WriteFile path c) \<Longrightarrow> emits_only P (fs_writeFileSync env path c)"
  by (auto simp: emits_only_def fs_writeFileSync_def split: option.splits)

lemma emits_reading_state:
  "(\<And>s0. emits_only P (f s0)) \<Longrightarrow> emits_only P (\<lambda>s. f s s)"
  by (simp add: emits_only_def)

lemma emits_new_client [emits]: "emits_only P new_client"
  by (simp add: emits_only_def new_client_def)

lemma emits_state_push [emits]: "emits_only P (state_push e)"
  by (simp add: emits_only_def state_push_def)

lemma emits_if [emits]:
  "(c \<Longrightarrow> emits_only P a) \<Longrightarrow> (\<not> c \<Longrightarrow> emits_only P b) \<Longrightarrow> emits_only P (if c then a else b)"
  by simp

lemma emits_case_option [emits]:
  "(x = None \<Longrightarrow> emits_only P a) \<Longrightarrow> (\<And>y. x = Some y \<Longrightarrow> emits_only P (f y)) \<Longrightarrow>
   emits_only P (case x of None \<Rightarrow> a | Some y \<Rightarrow> f y)"
  by (cases x) simp_all

lemma emits_case_fault [emits]:
  "(\<And>m c. e = JsError m c \<Longrightarrow> emits_only P (f m c)) \<Longrightarrow> (e = Thrown \<Longrightarrow> emits_only P a) \<Longrightarrow>
   emits_only P (case e of JsError m c \<Rightarrow> f m c | Thrown \<Rightarrow> a)"
  by (cases e) simp_all

lemma emits_loop:
  assumes "\<And>r k e. emits_only P (catch r k e)" and "emits_only P operation"
  shows "emits_only P (safeOperation_loop catch operation retries attempt lastError)"
proof (rule emits_onlyI)
  fix s
  show "\<exists>es. trace (snd (safeOperation_loop catch operation retries attempt lastError s)) = trace s @ es \<and>
             list_all P es"
  proof (induction "retries - attempt" arbitrary: attempt lastError s)
    case 0
    then show ?case by (subst safeOperation_loop.simps) simp
  next
    case (Suc n)
    then have lt: "attempt < retries" and n: "n = retries - (attempt + 1)" by simp_all
    obtain r s1 where op: "operation s = (r, s1)" by (cases "operation s")
    from emits_onlyD[OF assms(2), of s] op obtain es where
      es: "trace s1 = trace s @ es" "list_all P es" by auto
    show ?case
    proof (cases r)
      case (Inr v)
      with op lt es show ?thesis by (subst safeOperation_loop.simps) simp
    next
      case (Inl e)
      obtain r2 s2 where c: "catch retries attempt e s1 = (r2, s2)"
        by (cases "catch retries attempt e s1")
      from emits_onlyD[OF assms(1), of retries attempt e s1] c obtain fs where
        fs: "trace s2 = trace s1 @ fs" "list_all P fs" by auto
      show ?thesis
      proof (cases r2)
        case (Inl f)
        with op \<open>r = Inl e\<close> c lt es fs show ?thesis
          by (subst safeOperation_loop.simps) (simp add: exI[of _ "es @ fs"])
      next
        case (Inr u)
        from Suc(1)[OF n, of "Some (last_error e)" s2] obtain gs where
          "trace (snd (safeOperation_loop catch operation retries (attempt + 1)
                         (Some (last_error e)) s2)) = trace s2 @ gs" "list_all P gs"
          by auto
        with op \<open>r = Inl e\<close> c Inr lt es fs show ?thesis
          by (subst safeOperation_loop.simps) (simp add: exI[of _ "es @ fs @ gs"])
      qed
    qed
  qed
qed

lemma emits_apply_each:
  assumes "\<And>x. emits_only P (body x)" and "\<And>n. emits_only P (flush n)"
  shows "emits_only P (apply_each body flush xs n)"
  by (induction xs arbitrary: n) (auto intro!: emits assms)

lemma emits_reconnect:
  assumes "\<And>ch t args. P (Log ch t args)" and "\<And>c. P (Call c Close)"
    and "\<And>c. P (Call c (Access (reconnect_options p)))"
  shows "emits_only P (reconnect env p)"
  unfolding reconnect_def by (intro emits assms)

lemma emits_sendNoopIfNeeded:
  assumes "P (Log LoggerAll ''{Hey Mr. FTP ... I am still here!!!}'' [])"
    and "\<And>m. P (Log LoggerVerbose ''Failed to send NOOP: {}'' [m])"
    and "P (Log LoggerVerbose ''Failed to send NOOP: Unknown error'' [])"
    and "\<And>c. P (Call c (Send ''NOOP''))"
  shows "emits_only P (sendNoopIfNeeded env force)"
proof (rule emits_onlyI)
  fix s :: pstate
  let ?now = "Date_now env (trace s)"
  have "emits_only P
     (try_catch
        (block
          [client_call env (Send ''NOOP''),
           logger LoggerAll ''{Hey Mr. FTP ... I am still here!!!}'' [],
           (\<lambda>s'. (Inr (), s'\<lparr>lastNoopTime := ?now\<rparr>))])
        (\<lambda>error. case error of
           JsError m c \<Rightarrow> logger LoggerVerbose ''Failed to send NOOP: {}'' [m]
         | Thrown \<Rightarrow> logger LoggerVerbose ''Failed to send NOOP: Unknown error'' []))"
    by (intro emits assms) (simp add: emits_only_def)
  from emits_onlyD[OF this, of s]
  show "\<exists>es. trace (snd (sendNoopIfNeeded env force s)) = trace s @ es \<and> list_all P es"
    by (simp add: sendNoopIfNeeded_def Let_def)
qed

lemma never_throws_sendNoopIfNeeded: "never_throws (sendNoopIfNeeded env force)"
  by (auto simp: never_throws_def sendNoopIfNeeded_def Let_def run_defs
      split: option.splits fault.splits)

named_theorems nothrow

lemma never_throwsD: "never_throws a \<Longrightarrow> \<exists>v. fst (a s) = Inr v"
  by (simp add: never_throws_def)

lemma nothrow_ret [nothrow]: "never_throws (ret v)"
  by (simp add: never_throws_def ret_def)

lemma nothrow_bnd [nothrow]:
  assumes "never_throws m" and "\<And>v. never_throws (f v)"
  shows "never_throws (bnd m f)"
  unfolding never_throws_def
proof
  fix s
  from never_throwsD[OF assms(1), of s] obtain v where "fst (m s) = Inr v" by auto
  then obtain s1 where "m s = (Inr v, s1)" by (cases "m s") auto
  with never_throwsD[OF assms(2), of v s1] show "\<exists>v. fst (bnd m f s) = Inr v"
    by (simp add: bnd_def)
qed

lemma nothrow_block_Nil [nothrow]: "never_throws (block [])"
  by (simp add: nothrow_ret)

lemma nothrow_block_Cons [nothrow]:
  "never_throws a \<Longrightarrow> never_throws (block as) \<Longrightarrow> never_throws (block (a # as))"
  by (simp add: nothrow_bnd)

lemma nothrow_block_all:
  "(\<And>a. a \<in> set as \<Longrightarrow> never_throws a) \<Longrightarrow> never_throws (block as)"
  by (induction as) (simp_all add: nothrow_ret nothrow_bnd)

lemma nothrow_logger [nothrow]: "never_throws (logger ch t args)"
  by (simp add: never_throws_def logger_def emit_def)

lemma nothrow_if [nothrow]:
  "(c \<Longrightarrow> never_throws a) \<Longrightarrow> (\<not> c \<Longrightarrow> never_throws b) \<Longrightarrow> never_throws (if c then a else b)"
  by simp

lemma nothrow_apply_each:
  assumes "\<And>x. never_throws (body x)" and "\<And>n. never_throws (flush n)"
  shows "never_throws (apply_each body flush xs n)"
  by (induction xs arbitrary: n) (auto intro!: nothrow assms)

lemma nothrow_sync_header: "never_throws (sync_header diffs)"
  unfolding sync_header_def Let_def by (intro nothrow)

lemma emits_sync_header: "(\<And>ch t args. P (Log ch t args)) \<Longrightarrow> emits_only P (sync_header diffs)"
  unfolding sync_header_def Let_def by (intro emits) simp_all

lemma dry_perform:
  assumes "dryRun p"
  shows "emits_only dry_run_event (perform env p x)" and "never_throws (perform env p x)"
    and "emits_only dry_run_event (perform_ts env p x)" and "never_throws (perform_ts env p x)"
proof -
  obtain k f where x: "x = (k, f)" by (cases x)
  note noop = emits_sendNoopIfNeeded[of dry_run_event] never_throws_sendNoopIfNeeded
  show "emits_only dry_run_event (perform env p x)"
    using assms unfolding x
    by (cases k) (simp_all add: createFolder_def uploadFile_def removeFile_def removeFolder_def,
        (intro emits noop; simp)+)
  show "never_throws (perform env p x)"
    using assms unfolding x
    by (cases k) (simp_all add: createFolder_def uploadFile_def removeFile_def removeFolder_def,
        (intro nothrow noop)+)
  show "emits_only dry_run_event (perform_ts env p x)"
    using assms unfolding x
    by (cases k) (simp_all add: createFolder_ts_def uploadFile_ts_def removeFile_ts_def
        removeFolder_ts_def, (intro emits noop; simp)+)
  show "never_throws (perform_ts env p x)"
    using assms unfolding x
    by (cases k) (simp_all add: createFolder_ts_def uploadFile_ts_def removeFile_ts_def
        removeFolder_ts_def, (intro nothrow noop)+)
qed

lemma dry_flushState:
  "dryRun p \<Longrightarrow> emits_only P (flushState env p n)" "dryRun p \<Longrightarrow> never_throws (flushState env p n)"
  by (simp_all add: flushState_def emits_ret nothrow_ret)

lemma never_throws_unit: "never_throws a \<Longrightarrow> fst (a s) = Inr ()"
  using never_throwsD[of a s] by auto

lemma nothrow_try_catch: "never_throws m \<Longrightarrow> never_throws (try_catch m h)"
  unfolding never_throws_def
proof
  fix s
  assume "\<forall>s. \<exists>v. fst (m s) = Inr v"
  then obtain v where "fst (m s) = Inr v" by auto
  then show "\<exists>v. fst (try_catch m h s) = Inr v"
    by (cases "m s") (simp add: try_catch_def)
qed

lemma emits_try_catch_unused:
  assumes "never_throws m" and "emits_only P m"
  shows "emits_only P (try_catch m h)"
proof (rule emits_onlyI)
  fix s
  from never_throwsD[OF assms(1), of s] obtain v where "fst (m s) = Inr v" by auto
  then have "try_catch m h s = m s"
    by (cases "m s") (simp add: try_catch_def)
  with emits_onlyD[OF assms(2), of s]
  show "\<exists>es. trace (snd (try_catch m h s)) = trace s @ es \<and> list_all P es" by simp
qed

lemma dry_block_ts:
  assumes "dryRun p"
  shows "never_throws (block (map (perform_ts env p) xs @ [logger ch1 t1 a1, logger ch2 t2 a2]))"
    and "emits_only dry_run_event
           (block (map (perform_ts env p) xs @ [logger ch1 t1 a1, logger ch2 t2 a2]))"
  by (auto intro!: nothrow_block_all emits_block_all dry_perform[OF assms] nothrow_logger emits_logger)

section \<open>The passes in the trace\<close>

lemma announced_append [simp]: "announced (xs @ ys) = announced xs @ announced ys"
  by (induction xs) (simp_all split: option.splits)

lemma announced_quiet: "list_all unannounced es \<Longrightarrow> announced es = []"
  by (induction es) (simp_all add: unannounced_def)

lemma quiet_announced:
  "emits_only unannounced a \<Longrightarrow> announced (trace (snd (a s))) = announced (trace s)"
  using emits_onlyD[of unannounced a s] by (auto simp: announced_quiet)

lemma announcesD: "announces xs a \<Longrightarrow> announced (trace (snd (a s))) = announced (trace s) @ xs"
  by (simp add: announces_def)

lemma announces_first:
  assumes "announcement_of (Log ch t args) = Some x" and "emits_only unannounced (block as)"
  shows "announces [x] (block (logger ch t args # as))"
  unfolding announces_def
proof
  fix s :: pstate
  have "block (logger ch t args # as) s = block as (s\<lparr>trace := trace s @ [Log ch t args]\<rparr>)"
    by (simp add: bnd_def logger_def emit_def)
  with quiet_announced[OF assms(2), of "s\<lparr>trace := trace s @ [Log ch t args]\<rparr>"] assms(1)
  show "announced (trace (snd (block (logger ch t args # as) s))) = announced (trace s) @ [x]"
    by simp
qed

lemma announces_after_log:
  assumes "unannounced (Log ch t args)" and "announces xs a"
  shows "announces xs (block [logger ch t args, a])"
  unfolding announces_def
proof
  fix s :: pstate
  let ?s = "s\<lparr>trace := trace s @ [Log ch t args]\<rparr>"
  have "snd (block [logger ch t args, a] s) = snd (a ?s)"
    by (simp add: run_defs split: prod.splits sum.splits)
  with announcesD[OF assms(2), of ?s] assms(1)
  show "announced (trace (snd (block [logger ch t args, a] s))) = announced (trace s) @ xs"
    by (simp add: unannounced_def)
qed

lemma retryRequest_keepsD:
  "retryRequest_keeps env P \<Longrightarrow> emits_only P callback \<Longrightarrow> emits_only P (retryRequest env callback)"
  by (simp add: retryRequest_keeps_def)

lemma quiet_reconnect: "emits_only unannounced (reconnect env p)"
  unfolding reconnect_def by (intro emits) (simp_all add: unannounced_def)

lemma quiet_on_failure: "emits_only unannounced (on_failure env p r k e)"
  unfolding on_failure_def by (intro emits quiet_reconnect) (simp_all add: unannounced_def)

lemma quiet_on_failure_ts: "emits_only unannounced (on_failure_ts env p r k e)"
  unfolding on_failure_ts_def by (intro emits quiet_reconnect) (simp_all add: unannounced_def)

lemma quiet_safeOperation:
  "emits_only unannounced operation \<Longrightarrow> emits_only unannounced (safeOperation env p operation n)"
  unfolding safeOperation_def by (intro emits_loop quiet_on_failure)

lemma quiet_safeOperation_ts:
  "emits_only unannounced operation \<Longrightarrow> emits_only unannounced (safeOperation_ts env p operation n)"
  unfolding safeOperation_ts_def by (intro emits_loop quiet_on_failure_ts)

lemma quiet_sendNoopIfNeeded: "emits_only unannounced (sendNoopIfNeeded env force)"
  by (rule emits_sendNoopIfNeeded) (simp_all add: unannounced_def)

lemma quiet_ensureDir:
  assumes "retryRequest_keeps env unannounced"
  shows "emits_only unannounced (ensureDir env folder)"
  unfolding ensureDir_def
  by (intro emits retryRequest_keepsD[OF assms]) (simp_all add: unannounced_def)

lemma quiet_upDir:
  assumes "retryRequest_keeps env unannounced"
  shows "emits_only unannounced (upDir env dirCount)"
proof (cases dirCount)
  case None
  then show ?thesis by (simp add: upDir_def emits_ret)
next
  case (Some n)
  have "emits_only unannounced (retryRequest env (client_call env Cdup))"
    by (intro emits retryRequest_keepsD[OF assms]) (simp add: unannounced_def)
  then have "emits_only unannounced (block (replicate n (retryRequest env (client_call env Cdup))))"
    by (intro emits_block_all) simp
  with Some show ?thesis by (simp add: upDir_def)
qed

lemma quiet_createLocalState: "emits_only unannounced (createLocalState env m d n)"
  unfolding createLocalState_def by (intro emits) (simp_all add: unannounced_def)

lemma quiet_createLocalState_state:
  "emits_only unannounced (\<lambda>s. createLocalState env (state s) d n s)"
  using quiet_createLocalState by (simp add: emits_only_def)

lemma quiet_write_reading:
  "emits_only unannounced (\<lambda>s. fs_writeFileSync env path (c s) s)"
  by (auto simp: emits_only_def fs_writeFileSync_def unannounced_def split: option.splits)

lemma quiet_updateStateFile: "emits_only unannounced (updateStateFile env d n diffs)"
  unfolding updateStateFile_def
  by (intro emits quiet_write_reading) (simp_all add: unannounced_def)

lemma quiet_flushState: "emits_only unannounced (flushState env p n)"
  unfolding flushState_def
  by (intro emits quiet_safeOperation) (simp_all add: unannounced_def)

lemma createFolder_announces:
  assumes "retryRequest_keeps env unannounced"
  shows "announces [(CreateFolderStep, folderPath @ ''/'')] (createFolder env p folderPath)"
  unfolding createFolder_def Let_def
  apply (rule announces_first)
   apply simp
  apply (intro emits quiet_sendNoopIfNeeded quiet_safeOperation quiet_ensureDir[OF assms]
      quiet_upDir[OF assms] quiet_createLocalState_state)
   apply (simp_all add: unannounced_def)
  done

lemma createFolder_ts_announces:
  assumes "retryRequest_keeps env unannounced"
  shows "announces [(CreateFolderStep, folderPath @ ''/'')] (createFolder_ts env p folderPath)"
  unfolding createFolder_ts_def Let_def
  apply (rule announces_first)
   apply simp
  apply (intro emits quiet_sendNoopIfNeeded quiet_safeOperation_ts quiet_ensureDir[OF assms]
      quiet_upDir[OF assms] quiet_updateStateFile)
   apply (simp_all add: unannounced_def)
  done

lemma uploadFile_announces:
  "announces [(if type = Upload then UploadStep else ReplaceStep, filePath)]
     (uploadFile env p filePath type)"
  unfolding uploadFile_def
  apply (rule announces_first)
   apply simp
  apply (intro emits quiet_sendNoopIfNeeded quiet_safeOperation)
   apply (simp_all add: unannounced_def)
  done

lemma uploadFile_ts_announces:
  "announces [(if type = Upload then UploadStep else ReplaceStep, filePath)]
     (uploadFile_ts env p filePath type)"
  unfolding uploadFile_ts_def
  apply (rule announces_first)
   apply simp
  apply (intro emits quiet_sendNoopIfNeeded quiet_safeOperation_ts)
   apply (simp_all add: unannounced_def)
  done

lemma removeFile_announces:
  "announces [(DeleteFileStep, filePath)] (removeFile env p filePath)"
  unfolding removeFile_def
  apply (rule announces_first)
   apply simp
  apply (intro emits quiet_safeOperation)
     apply (simp_all add: unannounced_def)
  done

lemma removeFile_ts_announces:
  "announces [(DeleteFileStep, filePath)] (removeFile_ts env p filePath)"
  unfolding removeFile_ts_def
  apply (rule announces_first)
   apply simp
  apply (intro emits quiet_safeOperation_ts)
     apply (simp_all add: unannounced_def)
  done

lemma removeFolder_announces:
  assumes "retryRequest_keeps env unannounced"
  shows "announces [(DeleteFolderStep, absoluteFolderPath p folderPath)]
           (removeFolder env p folderPath)"
  unfolding removeFolder_def
  apply (rule announces_first)
   apply simp
  apply (intro emits quiet_safeOperation retryRequest_keepsD[OF assms])
   apply (simp_all add: unannounced_def)
  done

lemma removeFolder_ts_announces:
  assumes "retryRequest_keeps env unannounced"
  shows "announces [(DeleteFolderStep, absoluteFolderPath p folderPath)]
           (removeFolder_ts env p folderPath)"
  unfolding removeFolder_ts_def
  apply (rule announces_first)
   apply simp
  apply (intro emits quiet_safeOperation_ts retryRequest_keepsD[OF assms])
   apply (simp_all add: unannounced_def)
  done

lemma perform_announces:
  assumes "retryRequest_keeps env unannounced"
  shows "announces [announcement p x] (perform env p x)"
    and "announces [announcement p x] (perform_ts env p x)"
proof -
  obtain k f where x: "x = (k, f)" by (cases x)
  note ops = createFolder_announces[OF assms, of "name f" p]
    uploadFile_announces[of Upload "name f" env p] uploadFile_announces[of Replace "name f" env p]
    removeFile_announces[of "name f" env p] removeFolder_announces[OF assms, of p "name f"]
  note ops_ts = createFolder_ts_announces[OF assms, of "name f" p]
    uploadFile_ts_announces[of Upload "name f" env p] uploadFile_ts_announces[of Replace "name f" env p]
    removeFile_ts_announces[of "name f" env p] removeFolder_ts_announces[OF assms, of p "name f"]
  show "announces [announcement p x] (perform_ts env p x)"
    unfolding x using ops_ts by (cases k) simp_all
  show "announces [announcement p x] (perform env p x)"
  proof (cases k)
    case CreateFolderStep
    show ?thesis unfolding x CreateFolderStep perform.simps
      by (rule announces_after_log) (simp_all add: unannounced_def ops)
  next
    case UploadStep
    show ?thesis unfolding x UploadStep perform.simps
      by (rule announces_after_log) (use ops in \<open>simp_all add: unannounced_def\<close>)
  next
    case ReplaceStep
    show ?thesis unfolding x ReplaceStep perform.simps
      by (rule announces_after_log) (use ops in \<open>simp_all add: unannounced_def\<close>)
  next
    case DeleteFileStep
    show ?thesis unfolding x DeleteFileStep perform.simps
      by (rule announces_after_log) (simp_all add: unannounced_def ops)
  next
    case DeleteFolderStep
    show ?thesis unfolding x DeleteFolderStep perform.simps
      by (rule announces_after_log) (simp_all add: unannounced_def ops)
  qed
qed

lemma apply_each_announces:
  assumes "\<And>x. announces [g x] (body x)" and "\<And>n. emits_only unannounced (flush n)"
  shows "\<exists>k\<le>length xs.
           announced (trace (snd (apply_each body flush xs n s))) =
             announced (trace s) @ map g (take k xs) \<and>
           (\<forall>v. fst (apply_each body flush xs n s) = Inr v \<longrightarrow> k = length xs)"
proof (induction xs arbitrary: n s)
  case Nil
  show ?case by (simp add: ret_def)
next
  case (Cons x xs)
  let ?fl = "if (n + 1) mod 5 = 0 then flush (n + 1) else ret ()"
  obtain r1 s1 where b: "body x s = (r1, s1)" by (cases "body x s")
  with announcesD[OF assms(1), of x s] have a1: "announced (trace s1) = announced (trace s) @ [g x]"
    by simp
  show ?case
  proof (cases r1)
    case (Inl e)
    with b a1 show ?thesis by (intro exI[of _ 1]) (simp add: bnd_def)
  next
    case (Inr u)
    obtain r2 s2 where f: "?fl s1 = (r2, s2)" by (cases "?fl s1")
    have "emits_only unannounced ?fl" by (simp add: assms(2) emits_ret)
    from quiet_announced[OF this, of s1] f a1
    have a2: "announced (trace s2) = announced (trace s) @ [g x]" by simp
    show ?thesis
    proof (cases r2)
      case (Inl e)
      with b f Inr a2 show ?thesis by (intro exI[of _ 1]) (simp add: bnd_def)
    next
      case (Inr u2)
      from Cons[of "n + 1" s2] obtain k where k: "k \<le> length xs"
        "announced (trace (snd (apply_each body flush xs (n + 1) s2))) =
           announced (trace s2) @ map g (take k xs)"
        "\<forall>v. fst (apply_each body flush xs (n + 1) s2) = Inr v \<longrightarrow> k = length xs"
        by auto
      with b f \<open>r1 = Inr u\<close> Inr a2 show ?thesis
        by (intro exI[of _ "Suc k"]) (simp add: bnd_def)
    qed
  qed
qed

lemma block_map_announces:
  assumes "\<And>x. announces [g x] (body x)" and "emits_only unannounced (block rest)"
  shows "\<exists>k\<le>length xs.
           announced (trace (snd (block (map body xs @ rest) s))) =
             announced (trace s) @ map g (take k xs) \<and>
           (fst (block (map body xs @ rest) s) = Inr () \<longrightarrow> k = length xs)"
proof (induction xs arbitrary: s)
  case Nil
  from quiet_announced[OF assms(2), of s] show ?case by simp
next
  case (Cons x xs)
  obtain r1 s1 where b: "body x s = (r1, s1)" by (cases "body x s")
  with announcesD[OF assms(1), of x s] have a1: "announced (trace s1) = announced (trace s) @ [g x]"
    by simp
  show ?case
  proof (cases r1)
    case (Inl e)
    with b a1 show ?thesis by (intro exI[of _ 1]) (simp add: bnd_def)
  next
    case (Inr u)
    from Cons[of s1] obtain k where k: "k \<le> length xs"
      "announced (trace (snd (block (map body xs @ rest) s1))) =
         announced (trace s1) @ map g (take k xs)"
      "fst (block (map body xs @ rest) s1) = Inr () \<longrightarrow> k = length xs"
      by auto
    with b Inr a1 show ?thesis
      by (intro exI[of _ "Suc k"]) (simp add: bnd_def)
  qed
qed

lemma quiet_sync_header: "emits_only unannounced (sync_header diffs)"
  unfolding sync_header_def Let_def by (intro emits) (simp_all add: unannounced_def)

lemma quiet_sync_footer: "emits_only unannounced (sync_footer env p n)"
  unfolding sync_footer_def by (intro emits quiet_flushState) (simp_all add: unannounced_def)

lemma quiet_sync_interrupted: "emits_only unannounced (sync_interrupted env p diffs e)"
  unfolding sync_interrupted_def by (intro emits quiet_updateStateFile) (simp_all add: unannounced_def)

lemma sync_header_returns: "\<exists>s1. sync_header diffs s = (Inr (), s1)"
  using never_throws_unit[OF nothrow_sync_header, of diffs s]
  by (cases "sync_header diffs s") auto

lemma sync_announces:
  assumes "retryRequest_keeps env unannounced"
  shows "\<exists>k\<le>length (plan p diffs).
           announced (trace (snd (syncLocalToServer env p diffs s))) =
             announced (trace s) @ map (announcement p) (take k (plan p diffs)) \<and>
           (fst (syncLocalToServer env p diffs s) = Inr () \<longrightarrow> k = length (plan p diffs))"
proof -
  obtain s1 where h: "sync_header diffs s = (Inr (), s1)" using sync_header_returns by blast
  from quiet_announced[OF quiet_sync_header, of diffs s] h
  have a1: "announced (trace s1) = announced (trace s)" by simp
  let ?loop = "apply_each (perform env p) (flushState env p) (plan p diffs) 0"
  from apply_each_announces[where body = "perform env p" and g = "announcement p"
      and flush = "flushState env p" and xs = "plan p diffs" and n = 0 and s = s1,
      OF perform_announces(1)[OF assms] quiet_flushState]
  obtain k where k: "k \<le> length (plan p diffs)"
    "announced (trace (snd (?loop s1))) = announced (trace s1) @ map (announcement p) (take k (plan p diffs))"
    "\<forall>v. fst (?loop s1) = Inr v \<longrightarrow> k = length (plan p diffs)"
    by auto
  obtain r2 s2 where l: "?loop s1 = (r2, s2)" by (cases "?loop s1")
  show ?thesis
  proof (cases r2)
    case (Inl e)
    with h l k a1 show ?thesis
      by (intro exI[of _ k]) (simp add: syncLocalToServer_plan bnd_def)
  next
    case (Inr n)
    from quiet_announced[OF quiet_sync_footer, of env p n s2]
    have "announced (trace (snd (sync_footer env p n s2))) = announced (trace s2)" .
    with h l k a1 Inr show ?thesis
      by (intro exI[of _ k]) (simp add: syncLocalToServer_plan bnd_def)
  qed
qed

lemma sync_ts_announces:
  assumes "retryRequest_keeps env unannounced"
  shows "\<exists>k\<le>length (plan p diffs).
           announced (trace (snd (syncLocalToServer_ts env p diffs s))) =
             announced (trace s) @ map (announcement p) (take k (plan p diffs)) \<and>
           (fst (syncLocalToServer_ts env p diffs s) = Inr () \<longrightarrow> k = length (plan p diffs))"
proof -
  obtain s1 where h: "sync_header diffs s = (Inr (), s1)" using sync_header_returns by blast
  from quiet_announced[OF quiet_sync_header, of diffs s] h
  have a1: "announced (trace s1) = announced (trace s)" by simp
  let ?rest = "[logger LoggerAll ''----------------------------------------------------------------'' [],
                logger LoggerAll ''Sync complete.'' []]"
  let ?body = "block (map (perform_ts env p) (plan p diffs) @ ?rest)"
  have "emits_only unannounced (block ?rest)"
    by (intro emits) (simp_all add: unannounced_def)
  from block_map_announces[where body = "perform_ts env p" and g = "announcement p"
      and rest = ?rest and xs = "plan p diffs" and s = s1, OF perform_announces(2)[OF assms] this]
  obtain k where k: "k \<le> length (plan p diffs)"
    "announced (trace (snd (?body s1))) = announced (trace s1) @ map (announcement p) (take k (plan p diffs))"
    "fst (?body s1) = Inr () \<longrightarrow> k = length (plan p diffs)"
    by auto
  obtain r2 s2 where l: "?body s1 = (r2, s2)" by (cases "?body s1")
  show ?thesis
  proof (cases r2)
    case (Inl e)
    from quiet_announced[OF quiet_sync_interrupted, of env p diffs e s2]
    have "announced (trace (snd (sync_interrupted env p diffs e s2))) = announced (trace s2)" .
    moreover have "\<exists>f. fst (sync_interrupted env p diffs e s2) = Inl f"
      by (auto simp: sync_interrupted_def updateStateFile_def fs_writeFileSync_def run_defs
          split: option.splits)
    ultimately show ?thesis using h l k a1 Inl
      by (intro exI[of _ k]) (auto simp add: syncLocalToServer_ts_plan bnd_def try_catch_def)
  next
    case (Inr u)
    with h l k a1 show ?thesis
      by (intro exI[of _ k]) (simp add: syncLocalToServer_ts_plan bnd_def try_catch_def)
  qed
qed

lemma requests_append [simp]: "requests (xs @ ys) = requests xs @ requests ys"
  by (simp add: requests_def)

lemma sendsI:
  "(\<And>s. (\<exists>v. fst (a s) = Inr v) \<and> requests (trace (snd (a s))) = requests (trace s) @ xs) \<Longrightarrow>
   sends xs a"
  by (simp add: sends_def)

lemma sendsD:
  "sends xs a \<Longrightarrow> (\<exists>v. fst (a s) = Inr v) \<and> requests (trace (snd (a s))) = requests (trace s) @ xs"
  by (simp add: sends_def)

lemma sends_eq: "sends xs a \<Longrightarrow> xs = ys \<Longrightarrow> sends ys a"
  by simp

lemma sends_ret: "sends [] (ret v)"
  by (simp add: sends_def ret_def)

lemma sends_bnd:
  assumes "sends xs m" and "\<And>v. sends ys (f v)"
  shows "sends (xs @ ys) (bnd m f)"
proof (rule sendsI)
  fix s
  from sendsD[OF assms(1), of s] obtain v s1 where m: "m s = (Inr v, s1)"
    and r: "requests (trace s1) = requests (trace s) @ xs"
    by (cases "m s") auto
  from sendsD[OF assms(2), of v s1] m r
  show "(\<exists>v. fst (bnd m f s) = Inr v) \<and>
        requests (trace (snd (bnd m f s))) = requests (trace s) @ xs @ ys"
    by (simp add: bnd_def)
qed

lemma sends_block_Nil: "sends [] (block [])"
  by (simp add: sends_ret)

lemma sends_block_Cons:
  "sends xs a \<Longrightarrow> sends ys (block as) \<Longrightarrow> sends (xs @ ys) (block (a # as))"
  by (simp add: sends_bnd)

lemma sends_logger: "sends [] (logger ch t args)"
  by (simp add: sends_def logger_def emit_def requests_def)

lemma sends_client_call:
  "obliging env \<Longrightarrow> r \<noteq> Send ''NOOP'' \<Longrightarrow> sends [r] (client_call env r)"
  by (simp add: sends_def client_call_def obliging_def requests_def)

lemma sends_retryRequest:
  "obliging env \<Longrightarrow> sends xs callback \<Longrightarrow> sends xs (retryRequest env callback)"
  by (simp add: obliging_def)

lemma sends_writeFileSync: "obliging env \<Longrightarrow> sends [] (fs_writeFileSync env path c)"
  by (simp add: sends_def fs_writeFileSync_def obliging_def requests_def)

lemma sends_write_reading:
  "obliging env \<Longrightarrow> sends [] (\<lambda>s. fs_writeFileSync env path (c s) s)"
  by (simp add: sends_def fs_writeFileSync_def obliging_def requests_def)

lemma sends_state_push: "sends [] (state_push e)"
  by (simp add: sends_def state_push_def)

lemma sends_sendNoopIfNeeded: "sends [] (sendNoopIfNeeded env force)"
  by (auto simp: sends_def sendNoopIfNeeded_def Let_def run_defs requests_def
      split: option.splits fault.splits)

lemma sends_try_catch: "sends xs m \<Longrightarrow> sends xs (try_catch m h)"
proof (rule sendsI)
  fix s
  assume "sends xs m"
  from sendsD[OF this, of s] obtain v s1 where "m s = (Inr v, s1)"
    "requests (trace s1) = requests (trace s) @ xs"
    by (cases "m s") auto
  then show "(\<exists>v. fst (try_catch m h s) = Inr v) \<and>
        requests (trace (snd (try_catch m h s))) = requests (trace s) @ xs"
    by (simp add: try_catch_def)
qed

lemma sends_loop:
  assumes "sends xs operation"
  shows "sends xs (safeOperation_loop catch operation 3 0 None)"
proof (rule sendsI)
  fix s
  from sendsD[OF assms, of s] obtain v s1 where o: "operation s = (Inr v, s1)"
    and r: "requests (trace s1) = requests (trace s) @ xs"
    by (cases "operation s") auto
  have "safeOperation_loop catch operation 3 0 None s = (Inr v, s1)"
    by (rule loop_returns) (simp_all add: o)
  with r show "(\<exists>v. fst (safeOperation_loop catch operation 3 0 None s) = Inr v) \<and>
        requests (trace (snd (safeOperation_loop catch operation 3 0 None s))) =
          requests (trace s) @ xs"
    by simp
qed



lemma sends_safeOperation:
  assumes "sends xs operation"
  shows "sends xs (safeOperation env p operation 3)"
  unfolding safeOperation_def by (rule sends_loop[OF assms])

lemma sends_safeOperation_ts:
  assumes "sends xs operation"
  shows "sends xs (safeOperation_ts env p operation 3)"
  unfolding safeOperation_ts_def by (rule sends_loop[OF assms])

lemma sends_calls:
  assumes "obliging env"
  shows "sends [EnsureDir d] (client_call env (EnsureDir d))"
    and "sends [Cdup] (client_call env Cdup)"
    and "sends [Remove f] (client_call env (Remove f))"
    and "sends [RemoveDir f] (client_call env (RemoveDir f))"
    and "sends [UploadFrom a b] (client_call env (UploadFrom a b))"
  by (simp_all add: sends_client_call[OF assms])

lemmas sends_steps =
  sends_block_Cons sends_block_Nil sends_logger sends_sendNoopIfNeeded sends_state_push
  sends_safeOperation sends_safeOperation_ts sends_try_catch sends_ret

lemma sends_ensureDir:
  assumes "obliging env"
  shows "sends [EnsureDir folder] (ensureDir env folder)"
  unfolding ensureDir_def
  by (rule sends_eq, (rule sends_steps sends_retryRequest[OF assms] sends_calls[OF assms])+, simp)

lemma sends_replicate: "sends xs a \<Longrightarrow> sends (concat (replicate n xs)) (block (replicate n a))"
  by (induction n) (simp_all add: sends_ret sends_bnd)

lemma sends_upDir:
  assumes "obliging env"
  shows "sends (case dirCount of None \<Rightarrow> [] | Some n \<Rightarrow> replicate n Cdup) (upDir env dirCount)"
proof (cases dirCount)
  case None
  then show ?thesis by (simp add: upDir_def sends_ret)
next
  case (Some n)
  have "sends [Cdup] (retryRequest env (client_call env Cdup))"
    by (rule sends_retryRequest[OF assms] sends_calls[OF assms])+
  from sends_replicate[OF this, of n] have
    "sends (concat (replicate n [Cdup])) (block (replicate n (retryRequest env (client_call env Cdup))))" .
  moreover have "concat (replicate n [Cdup]) = replicate n Cdup"
    by (induction n) simp_all
  ultimately show ?thesis using Some by (simp add: upDir_def)
qed

lemma sends_createLocalState:
  assumes "obliging env"
  shows "sends [] (\<lambda>s. createLocalState env (f s) d n s)"
proof -
  have "sends [] (createLocalState env m d n)" for m
    unfolding createLocalState_def
    by (rule sends_eq, (rule sends_steps sends_writeFileSync[OF assms])+, simp)
  then show ?thesis by (simp add: sends_def)
qed

lemma sends_updateStateFile:
  assumes "obliging env"
  shows "sends [] (updateStateFile env d n diffs)"
  unfolding updateStateFile_def
  by (rule sends_eq, (rule sends_steps sends_write_reading[OF assms])+, simp)

lemma sends_createFolder:
  assumes "obliging env" and "\<not> dryRun p"
  shows "sends (requests_of p (CreateFolderStep, f)) (createFolder env p (name f))"
proof -
  let ?path = "getFileBreadcrumbs (name f @ ''/'')"
  have dir: "sends (case folders ?path of None \<Rightarrow> [] | Some fs \<Rightarrow> [EnsureDir (join ''/'' fs)])
     (case folders ?path of
        None \<Rightarrow> logger LoggerVerbose ''  no need to change dir'' []
      | Some fs \<Rightarrow> safeOperation env p (ensureDir env (join ''/'' fs)) 3)"
    by (cases "folders ?path")
      (simp_all add: sends_logger sends_safeOperation sends_ensureDir[OF assms(1)])
  have up: "sends (case map_option length (folders ?path) of None \<Rightarrow> [] | Some n \<Rightarrow> replicate n Cdup)
     (upDir env (map_option length (folders ?path)))"
    by (rule sends_upDir[OF assms(1)])
  have "sends (requests_of p (CreateFolderStep, f))
     (block [logger LoggerAll ''creating folder {}'' [name f @ ''/''],
        block
        [sendNoopIfNeeded env False,
         case folders ?path of
           None \<Rightarrow> logger LoggerVerbose ''  no need to change dir'' []
         | Some fs \<Rightarrow> safeOperation env p (ensureDir env (join ''/'' fs)) 3,
         upDir env (map_option length (folders ?path)),
         logger LoggerVerbose ''  completed'' [],
         state_push \<lparr>rtype = Folder, name = name f, rsize = None, hash = None\<rparr>,
         (\<lambda>s. createLocalState env (state s) (localPath p) (stateName p) s)]])"
    by (rule sends_eq, (rule dir up sends_createLocalState[OF assms(1)] sends_steps)+,
        simp split: option.splits)
  then show ?thesis using assms(2) by (simp only: createFolder_def Let_def if_False)
qed

lemma sends_createFolder_ts:
  assumes "obliging env" and "\<not> dryRun p"
  shows "sends (requests_of p (CreateFolderStep, f)) (createFolder_ts env p (name f))"
proof -
  let ?path = "getFileBreadcrumbs (name f @ ''/'')"
  have dir: "sends (case folders ?path of None \<Rightarrow> [] | Some fs \<Rightarrow> [EnsureDir (join ''/'' fs)])
     (case folders ?path of
        None \<Rightarrow> logger LoggerVerbose ''  no need to change dir'' []
      | Some fs \<Rightarrow> safeOperation_ts env p (ensureDir env (join ''/'' fs)) 3)"
    by (cases "folders ?path")
      (simp_all add: sends_logger sends_safeOperation_ts sends_ensureDir[OF assms(1)])
  have up: "sends (case map_option length (folders ?path) of None \<Rightarrow> [] | Some n \<Rightarrow> replicate n Cdup)
     (upDir env (map_option length (folders ?path)))"
    by (rule sends_upDir[OF assms(1)])
  have "sends (requests_of p (CreateFolderStep, f))
     (block [logger LoggerAll ''creating folder {}'' [name f @ ''/''],
        block
        [sendNoopIfNeeded env False,
         case folders ?path of
           None \<Rightarrow> logger LoggerVerbose ''  no need to change dir'' []
         | Some fs \<Rightarrow> safeOperation_ts env p (ensureDir env (join ''/'' fs)) 3,
         updateStateFile env (localPath p) (stateName p)
           \<lparr>upload = [\<lparr>rtype = Folder, name = name f, rsize = None, hash = None\<rparr>],
            delete = [], replace = [], same = [],
            sizeUpload = 0, sizeDelete = 0, sizeReplace = 0\<rparr>,
         upDir env (map_option length (folders ?path)),
         logger LoggerVerbose ''  completed'' []]])"
    by (rule sends_eq, (rule dir up sends_updateStateFile[OF assms(1)] sends_steps)+,
        simp split: option.splits)
  then show ?thesis using assms(2) by (simp only: createFolder_ts_def Let_def if_False)
qed

lemma sends_uploadFile:
  assumes "obliging env" and "\<not> dryRun p"
  shows "sends [UploadFrom (localPath p @ filePath) filePath] (uploadFile env p filePath type)"
proof -
  have "sends [UploadFrom (localPath p @ filePath) filePath] (block
     [logger LoggerAll (if type = Upload then ''uploading {}'' else ''replacing {}'') [filePath],
      sendNoopIfNeeded env False,
      safeOperation env p (client_call env (UploadFrom (localPath p @ filePath) filePath)) 3,
      logger LoggerVerbose (if type = Upload then ''  file uploaded'' else ''  file replaced'') []])"
    by (rule sends_eq, (rule sends_steps sends_calls[OF assms(1)])+, simp)
  then show ?thesis using assms(2) by (simp only: uploadFile_def if_True not_False_eq_True)
qed

lemma sends_uploadFile_ts:
  assumes "obliging env" and "\<not> dryRun p"
  shows "sends [UploadFrom (localPath p @ filePath) filePath] (uploadFile_ts env p filePath type)"
proof -
  have "sends [UploadFrom (localPath p @ filePath) filePath] (block
     [logger LoggerAll (if type = Upload then ''uploading {}'' else ''replacing {}'') [filePath],
      sendNoopIfNeeded env False,
      safeOperation_ts env p (client_call env (UploadFrom (localPath p @ filePath) filePath)) 3,
      logger LoggerVerbose (if type = Upload then ''  file uploaded'' else ''  file replaced'') []])"
    by (rule sends_eq, (rule sends_steps sends_calls[OF assms(1)])+, simp)
  then show ?thesis using assms(2) by (simp only: uploadFile_ts_def if_True not_False_eq_True)
qed

lemma sends_removeFile:
  assumes "obliging env" and "\<not> dryRun p"
  shows "sends [Remove filePath] (removeFile env p filePath)"
proof -
  have "sends [Remove filePath] (block
     [logger LoggerAll ''removing {}'' [filePath],
      try_catch (safeOperation env p (client_call env (Remove filePath)) 3)
        (\<lambda>e. if error_code e = Some (FileNotFoundOrNoAccess env)
              then logger LoggerStandard
                     ''File not found or you do not have access to the file - skipping...'' []
              else throw e),
      logger LoggerVerbose ''  file removed'' [],
      logger LoggerVerbose ''  completed'' []])"
    by (rule sends_eq, (rule sends_steps sends_calls[OF assms(1)])+, simp)
  then show ?thesis using assms(2) by (simp only: removeFile_def if_True not_False_eq_True)
qed

lemma sends_removeFile_ts:
  assumes "obliging env" and "\<not> dryRun p"
  shows "sends [Remove filePath] (removeFile_ts env p filePath)"
proof -
  have "sends [Remove filePath] (block
     [logger LoggerAll ''removing {}'' [filePath],
      try_catch (safeOperation_ts env p (client_call env (Remove filePath)) 3)
        (\<lambda>e. if error_code e = Some (FileNotFoundOrNoAccess env)
              then logger LoggerStandard
                     ''File not found or you do not have access to the file - skipping...'' []
              else throw e),
      logger LoggerVerbose ''  file removed'' [],
      logger LoggerVerbose ''  completed'' []])"
    by (rule sends_eq, (rule sends_steps sends_calls[OF assms(1)])+, simp)
  then show ?thesis using assms(2) by (simp only: removeFile_ts_def if_True not_False_eq_True)
qed

lemma sends_removeFolder:
  assumes "obliging env" and "\<not> dryRun p"
  shows "sends [RemoveDir (absoluteFolderPath p folderPath)] (removeFolder env p folderPath)"
proof -
  have "sends [RemoveDir (absoluteFolderPath p folderPath)] (block
     [logger LoggerAll ''removing folder {}'' [absoluteFolderPath p folderPath],
      safeOperation env p
        (retryRequest env (client_call env (RemoveDir (absoluteFolderPath p folderPath)))) 3,
      logger LoggerVerbose ''  completed'' []])"
    by (rule sends_eq,
        (rule sends_steps sends_retryRequest[OF assms(1)] sends_calls[OF assms(1)])+, simp)
  then show ?thesis using assms(2) by (simp only: removeFolder_def if_True not_False_eq_True)
qed

lemma sends_removeFolder_ts:
  assumes "obliging env" and "\<not> dryRun p"
  shows "sends [RemoveDir (absoluteFolderPath p folderPath)] (removeFolder_ts env p folderPath)"
proof -
  have "sends [RemoveDir (absoluteFolderPath p folderPath)] (block
     [logger LoggerAll ''removing folder {}'' [absoluteFolderPath p folderPath],
      safeOperation_ts env p
        (retryRequest env (client_call env (RemoveDir (absoluteFolderPath p folderPath)))) 3,
      logger LoggerVerbose ''  completed'' []])"
    by (rule sends_eq,
        (rule sends_steps sends_retryRequest[OF assms(1)] sends_calls[OF assms(1)])+, simp)
  then show ?thesis using assms(2) by (simp only: removeFolder_ts_def if_True not_False_eq_True)
qed

lemma sends_after_log: "sends xs a \<Longrightarrow> sends xs (block [logger ch t args, a])"
  by (rule sends_eq, (rule sends_steps | assumption)+, simp)

lemma sends_perform:
  assumes "obliging env" and "\<not> dryRun p"
  shows "sends (requests_of p x) (perform env p x)"
    and "sends (requests_of p x) (perform_ts env p x)"
proof -
  obtain k f where x: "x = (k, f)" by (cases x)
  note ops = sends_createFolder[OF assms, of f] sends_uploadFile[OF assms, of "name f"]
    sends_removeFile[OF assms, of "name f"] sends_removeFolder[OF assms, of "name f"]
  note ops_ts = sends_createFolder_ts[OF assms, of f] sends_uploadFile_ts[OF assms, of "name f"]
    sends_removeFile_ts[OF assms, of "name f"] sends_removeFolder_ts[OF assms, of "name f"]
  show "sends (requests_of p x) (perform_ts env p x)"
  proof (cases k)
    case CreateFolderStep
    show ?thesis unfolding x CreateFolderStep perform_ts.simps by (rule ops_ts)
  qed (simp_all add: x ops_ts)
  show "sends (requests_of p x) (perform env p x)"
  proof (cases k)
    case CreateFolderStep
    show ?thesis unfolding x CreateFolderStep perform.simps
      by (rule sends_after_log) (rule ops)
  next
    case UploadStep
    show ?thesis unfolding x UploadStep perform.simps
      by (rule sends_after_log) (simp add: ops)
  next
    case ReplaceStep
    show ?thesis unfolding x ReplaceStep perform.simps
      by (rule sends_after_log) (simp add: ops)
  next
    case DeleteFileStep
    show ?thesis unfolding x DeleteFileStep perform.simps
      by (rule sends_after_log) (simp add: ops)
  next
    case DeleteFolderStep
    show ?thesis unfolding x DeleteFolderStep perform.simps
      by (rule sends_after_log) (simp add: ops)
  qed
qed

lemma sends_flushState:
  assumes "obliging env" and "\<not> dryRun p"
  shows "sends [push_request p] (flushState env p n)"
proof -
  have "sends [push_request p]
     (try_catch
        (block
          [safeOperation env p
             (client_call env
                (UploadFrom (localPath p @ stateName p) (serverPath p @ stateName p))) 3,
           logger LoggerVerbose ''State file {} uploaded to the server after {} operations.''
             [stateName p, show_nat n]])
        (\<lambda>error. logger LoggerAll ''Failed to upload state file: {}'' [error_message error]))"
    unfolding push_request_def
    by (rule sends_eq, (rule sends_steps sends_calls[OF assms(1)])+, simp)
  then show ?thesis using assms(2) by (simp only: flushState_def if_True not_False_eq_True)
qed

lemma sends_apply_each:
  assumes "\<And>x. sends (item x) (body x)" and "\<And>n. sends flushed (flush n)"
  shows "sends (checkpoints item flushed xs n) (apply_each body flush xs n)"
proof (induction xs arbitrary: n)
  case Nil
  show ?case by (simp add: sends_ret)
next
  case (Cons x xs)
  have f: "sends (if (n + 1) mod 5 = 0 then flushed else [])
             (if (n + 1) mod 5 = 0 then flush (n + 1) else ret ())"
    using assms(2) by (simp add: sends_ret)
  show ?case
    unfolding apply_each.simps checkpoints.simps
    by (rule sends_bnd assms(1) f Cons)+
qed

lemma sends_block_map:
  assumes "\<And>x. sends (item x) (body x)" and "sends ys (block rest)"
  shows "sends (concat (map item xs) @ ys) (block (map body xs @ rest))"
  by (induction xs) (simp_all add: assms sends_bnd)

lemma sync_sends:
  assumes "obliging env" and "\<not> dryRun p"
  shows "sends (checkpoints (requests_of p) [push_request p] (plan p diffs) 0 @ [push_request p])
           (syncLocalToServer env p diffs)"
proof -
  have h: "sends [] (sync_header diffs)"
    unfolding sync_header_def Let_def by (rule sends_eq, (rule sends_steps)+, simp)
  have f: "sends [push_request p] (sync_footer env p n)" for n
    unfolding sync_footer_def
    by (rule sends_eq, (rule sends_steps sends_flushState[OF assms])+, simp)
  have "sends ([] @ checkpoints (requests_of p) [push_request p] (plan p diffs) 0 @ [push_request p])
          (syncLocalToServer env p diffs)"
    unfolding syncLocalToServer_plan
    by (rule sends_bnd h sends_apply_each sends_perform(1)[OF assms] sends_flushState[OF assms] f)+
  then show ?thesis by simp
qed

lemma sync_ts_sends:
  assumes "obliging env" and "\<not> dryRun p"
  shows "sends (concat (map (requests_of p) (plan p diffs))) (syncLocalToServer_ts env p diffs)"
proof -
  have h: "sends [] (sync_header diffs)"
    unfolding sync_header_def Let_def by (rule sends_eq, (rule sends_steps)+, simp)
  have two: "sends []
      (block [logger LoggerAll ''----------------------------------------------------------------'' [],
              logger LoggerAll ''Sync complete.'' []])"
    by (rule sends_eq, (rule sends_steps)+, simp)
  have "sends ([] @ concat (map (requests_of p) (plan p diffs)) @ [])
          (syncLocalToServer_ts env p diffs)"
    unfolding syncLocalToServer_ts_plan
    by (rule sends_bnd h sends_try_catch sends_block_map sends_perform(2)[OF assms] two)+
  then show ?thesis by simp
qed

text \<open>
  C1. Both versions of \<open>syncLocalToServer\<close> go through the change set in the five passes of
  the plan: folder creations, uploads, replacements, file deletions, folder deletions.
  In every environment (whose \<open>retryRequest\<close> logs no announcement of its own) the
  announcements a run adds to the trace are those of the first \<open>k\<close> steps of the plan, in
  the order of the plan, and of all its steps when the run returns normally; so a step is
  begun only after all steps before it, and a run that throws has begun no step after the
  one that failed. When nothing fails, a run that is not a dry run returns normally and
  its requests to the transport are exactly those of the steps in the order of the plan
  (with the pushes of the state file of part 001 after every fifth step and at the end).
\<close>

theorem syncLocalToServer_five_passes:
  "(retryRequest_keeps env unannounced \<longrightarrow>
      (\<exists>k\<le>length (plan p diffs).
         announced (trace (snd (syncLocalToServer env p diffs s))) =
           announced (trace s) @ map (announcement p) (take k (plan p diffs)) \<and>
         (fst (syncLocalToServer env p diffs s) = Inr () \<longrightarrow> k = length (plan p diffs))) \<and>
      (\<exists>k\<le>length (plan p diffs).
         announced (trace (snd (syncLocalToServer_ts env p diffs s))) =
           announced (trace s) @ map (announcement p) (take k (plan p diffs)) \<and>
         (fst (syncLocalToServer_ts env p diffs s) = Inr () \<longrightarrow> k = length (plan p diffs)))) \<and>
   (obliging env \<and> \<not> dryRun p \<longrightarrow>
      fst (syncLocalToServer env p diffs s) = Inr () \<and>
      requests (trace (snd (syncLocalToServer env p diffs s))) =
        requests (trace s) @
        checkpoints (requests_of p) [push_request p] (plan p diffs) 0 @ [push_request p] \<and>
      fst (syncLocalToServer_ts env p diffs s) = Inr () \<and>
      requests (trace (snd (syncLocalToServer_ts env p diffs s))) =
        requests (trace s) @ concat (map (requests_of p) (plan p diffs)))"
proof (intro conjI impI)
  assume "retryRequest_keeps env unannounced"
  then show "\<exists>k\<le>length (plan p diffs).
         announced (trace (snd (syncLocalToServer env p diffs s))) =
           announced (trace s) @ map (announcement p) (take k (plan p diffs)) \<and>
         (fst (syncLocalToServer env p diffs s) = Inr () \<longrightarrow> k = length (plan p diffs))"
    by (rule sync_announces)
next
  assume "retryRequest_keeps env unannounced"
  then show "\<exists>k\<le>length (plan p diffs).
         announced (trace (snd (syncLocalToServer_ts env p diffs s))) =
           announced (trace s) @ map (announcement p) (take k (plan p diffs)) \<and>
         (fst (syncLocalToServer_ts env p diffs s) = Inr () \<longrightarrow> k = length (plan p diffs))"
    by (rule sync_ts_announces)
next
  assume a: "obliging env \<and> \<not> dryRun p"
  then have o: "obliging env" and d: "\<not> dryRun p" by simp_all
  from sendsD[OF sync_sends[OF o d], of diffs s]
  show "fst (syncLocalToServer env p diffs s) = Inr ()"
    and "requests (trace (snd (syncLocalToServer env p diffs s))) =
        requests (trace s) @
        checkpoints (requests_of p) [push_request p] (plan p diffs) 0 @ [push_request p]"
    by auto
  from sendsD[OF sync_ts_sends[OF o d], of diffs s]
  show "fst (syncLocalToServer_ts env p diffs s) = Inr ()"
    and "requests (trace (snd (syncLocalToServer_ts env p diffs s))) =
        requests (trace s) @ concat (map (requests_of p) (plan p diffs))"
    by auto
qed

lemma six_changes_plan:
  "plan site six_changes =
     [(CreateFolderStep, \<lparr>rtype = Folder, name = ''img'', rsize = None, hash = None\<rparr>),
      (UploadStep, \<lparr>rtype = File, name = ''a1'', rsize = Some 1, hash = Some ''h1''\<rparr>),
      (UploadStep, \<lparr>rtype = File, name = ''a2'', rsize = Some 1, hash = Some ''h2''\<rparr>),
      (UploadStep, \<lparr>rtype = File, name = ''a3'', rsize = Some 1, hash = Some ''h3''\<rparr>),
      (UploadStep, \<lparr>rtype = File, name = ''a4'', rsize = Some 1, hash = Some ''h4''\<rparr>),
      (DeleteFileStep, \<lparr>rtype = File, name = ''old'', rsize = Some 1, hash = Some ''h0''\<rparr>)]"
  by (simp add: plan_def six_changes_def site_def)

theorem syncLocalToServer_five_passes_witness:
  "retryRequest_keeps calm_env unannounced \<and> obliging calm_env \<and> \<not> dryRun site \<and>
   fst (syncLocalToServer calm_env site six_changes fresh) = Inr () \<and>
   announced (trace (snd (syncLocalToServer calm_env site six_changes fresh))) =
     [(CreateFolderStep, ''img/''), (UploadStep, ''a1''), (UploadStep, ''a2''),
      (UploadStep, ''a3''), (UploadStep, ''a4''), (DeleteFileStep, ''old'')] \<and>
   requests (trace (snd (syncLocalToServer calm_env site six_changes fresh))) =
     [EnsureDir ''img'', Cdup,
      UploadFrom ''./a1'' ''a1'', UploadFrom ''./a2'' ''a2'', UploadFrom ''./a3'' ''a3'',
      UploadFrom ''./a4'' ''a4'', UploadFrom ''./state.json'' ''./state.json'',
      Remove ''old'', UploadFrom ''./state.json'' ''./state.json''] \<and>
   announced (trace (snd (syncLocalToServer_ts calm_env site six_changes fresh))) =
     [(CreateFolderStep, ''img/''), (UploadStep, ''a1''), (UploadStep, ''a2''),
      (UploadStep, ''a3''), (UploadStep, ''a4''), (DeleteFileStep, ''old'')] \<and>
   requests (trace (snd (syncLocalToServer_ts calm_env site six_changes fresh))) =
     [EnsureDir ''img'', Cdup,
      UploadFrom ''./a1'' ''a1'', UploadFrom ''./a2'' ''a2'', UploadFrom ''./a3'' ''a3'',
      UploadFrom ''./a4'' ''a4'', Remove ''old'']"
proof -
  have k: "retryRequest_keeps calm_env unannounced"
    by (simp add: retryRequest_keeps_def calm_env_def)
  have o: "obliging calm_env" by (simp add: obliging_def calm_env_def)
  have d: "\<not> dryRun site" by (simp add: site_def)
  have b: "folders (getFileBreadcrumbs ''img/'') = Some [''img'']"
    by (simp add: getFileBreadcrumbs_def)
  have f: "localPath site = ''./''" "serverPath site = ''./''" "stateName site = ''state.json''"
    by (simp_all add: site_def)
  note T = syncLocalToServer_five_passes[of calm_env site six_changes fresh]
  from T o d have r: "fst (syncLocalToServer calm_env site six_changes fresh) = Inr ()"
    "fst (syncLocalToServer_ts calm_env site six_changes fresh) = Inr ()"
    by simp_all
  from T o d have q: "requests (trace (snd (syncLocalToServer calm_env site six_changes fresh))) =
     [EnsureDir ''img'', Cdup,
      UploadFrom ''./a1'' ''a1'', UploadFrom ''./a2'' ''a2'', UploadFrom ''./a3'' ''a3'',
      UploadFrom ''./a4'' ''a4'', UploadFrom ''./state.json'' ''./state.json'',
      Remove ''old'', UploadFrom ''./state.json'' ''./state.json'']"
    "requests (trace (snd (syncLocalToServer_ts calm_env site six_changes fresh))) =
     [EnsureDir ''img'', Cdup,
      UploadFrom ''./a1'' ''a1'', UploadFrom ''./a2'' ''a2'', UploadFrom ''./a3'' ''a3'',
      UploadFrom ''./a4'' ''a4'', Remove ''old'']"
    by (simp_all add: six_changes_plan b push_request_def requests_def fresh_def f)
  from T k r have a: "announced (trace (snd (syncLocalToServer calm_env site six_changes fresh))) =
     [(CreateFolderStep, ''img/''), (UploadStep, ''a1''), (UploadStep, ''a2''),
      (UploadStep, ''a3''), (UploadStep, ''a4''), (DeleteFileStep, ''old'')]"
    "announced (trace (snd (syncLocalToServer_ts calm_env site six_changes fresh))) =
     [(CreateFolderStep, ''img/''), (UploadStep, ''a1''), (UploadStep, ''a2''),
      (UploadStep, ''a3''), (UploadStep, ''a4''), (DeleteFileStep, ''old'')]"
    by (auto simp add: six_changes_plan fresh_def)
  from k o d r a q show ?thesis by simp
qed

section \<open>What the checkpoints hold\<close>

lemma records_nothingI: "(\<And>s. recorded (snd (a s)) = recorded s) \<Longrightarrow> records_nothing a"
  by (simp add: records_nothing_def)

lemma records_nothingD: "records_nothing a \<Longrightarrow> recorded (snd (a s)) = recorded s"
  by (simp add: records_nothing_def)

named_theorems unrecorded

lemma rn_ret [unrecorded]: "records_nothing (ret v)"
  by (simp add: records_nothing_def ret_def)

lemma rn_throw [unrecorded]: "records_nothing (throw e)"
  by (simp add: records_nothing_def throw_def)

lemma rn_bnd [unrecorded]:
  assumes "records_nothing m" and "\<And>v. records_nothing (f v)"
  shows "records_nothing (bnd m f)"
proof (rule records_nothingI)
  fix s
  obtain r s1 where m: "m s = (r, s1)" by (cases "m s")
  with records_nothingD[OF assms(1), of s] have "recorded s1 = recorded s" by simp
  with m records_nothingD[OF assms(2), of _ s1] show "recorded (snd (bnd m f s)) = recorded s"
    by (cases r) (simp_all add: bnd_def)
qed

lemma rn_try_catch [unrecorded]:
  assumes "records_nothing m" and "\<And>e. records_nothing (h e)"
  shows "records_nothing (try_catch m h)"
proof (rule records_nothingI)
  fix s
  obtain r s1 where m: "m s = (r, s1)" by (cases "m s")
  with records_nothingD[OF assms(1), of s] have "recorded s1 = recorded s" by simp
  with m records_nothingD[OF assms(2), of _ s1] show "recorded (snd (try_catch m h s)) = recorded s"
    by (cases r) (simp_all add: try_catch_def)
qed

lemma rn_block_Nil [unrecorded]: "records_nothing (block [])"
  by (simp add: rn_ret)

lemma rn_block_Cons [unrecorded]:
  "records_nothing a \<Longrightarrow> records_nothing (block as) \<Longrightarrow> records_nothing (block (a # as))"
  by (simp add: rn_bnd)

lemma rn_logger [unrecorded]: "records_nothing (logger ch t args)"
  by (simp add: records_nothing_def recorded_def logger_def emit_def)

lemma rn_client_call [unrecorded]: "records_nothing (client_call env r)"
  by (simp add: records_nothing_def recorded_def client_call_def split: option.splits)

lemma rn_new_client [unrecorded]: "records_nothing new_client"
  by (simp add: records_nothing_def recorded_def new_client_def)

lemma rn_if [unrecorded]:
  "(c \<Longrightarrow> records_nothing a) \<Longrightarrow> (\<not> c \<Longrightarrow> records_nothing b) \<Longrightarrow>
   records_nothing (if c then a else b)"
  by simp

lemma rn_case_fault [unrecorded]:
  "(\<And>m c. e = JsError m c \<Longrightarrow> records_nothing (f m c)) \<Longrightarrow> (e = Thrown \<Longrightarrow> records_nothing a) \<Longrightarrow>
   records_nothing (case e of JsError m c \<Rightarrow> f m c | Thrown \<Rightarrow> a)"
  by (cases e) simp_all

lemma rn_loop:
  assumes "\<And>r k e. records_nothing (catch r k e)" and "records_nothing operation"
  shows "records_nothing (safeOperation_loop catch operation retries attempt lastError)"
proof (rule records_nothingI)
  fix s
  show "recorded (snd (safeOperation_loop catch operation retries attempt lastError s)) = recorded s"
  proof (induction "retries - attempt" arbitrary: attempt lastError s)
    case 0
    then show ?case by (subst safeOperation_loop.simps) simp
  next
    case (Suc n)
    then have lt: "attempt < retries" and n: "n = retries - (attempt + 1)" by simp_all
    obtain r s1 where op: "operation s = (r, s1)" by (cases "operation s")
    from records_nothingD[OF assms(2), of s] op have e1: "recorded s1 = recorded s" by simp
    show ?case
    proof (cases r)
      case (Inr v)
      with op lt e1 show ?thesis by (subst safeOperation_loop.simps) simp
    next
      case (Inl e)
      obtain r2 s2 where c: "catch retries attempt e s1 = (r2, s2)"
        by (cases "catch retries attempt e s1")
      from records_nothingD[OF assms(1), of retries attempt e s1] c e1
      have e2: "recorded s2 = recorded s" by simp
      show ?thesis
      proof (cases r2)
        case (Inl f)
        with op \<open>r = Inl e\<close> c lt e2 show ?thesis
          by (subst safeOperation_loop.simps) simp
      next
        case (Inr u)
        from Suc(1)[OF n, of "Some (last_error e)" s2] e2
        have "recorded (snd (safeOperation_loop catch operation retries (attempt + 1)
                         (Some (last_error e)) s2)) = recorded s"
          by simp
        with op \<open>r = Inl e\<close> c Inr lt show ?thesis
          by (subst safeOperation_loop.simps) simp
      qed
    qed
  qed
qed

lemma rn_reconnect: "records_nothing (reconnect env p)"
  unfolding reconnect_def by (intro unrecorded)

lemma rn_on_failure: "records_nothing (on_failure env p r k e)"
  unfolding on_failure_def by (intro unrecorded rn_reconnect)

lemma rn_safeOperation:
  "records_nothing operation \<Longrightarrow> records_nothing (safeOperation env p operation n)"
  unfolding safeOperation_def by (intro rn_loop rn_on_failure)

lemma rn_sendNoopIfNeeded: "records_nothing (sendNoopIfNeeded env force)"
  by (auto simp: records_nothing_def recorded_def sendNoopIfNeeded_def Let_def run_defs
      split: option.splits fault.splits)

lemma rn_uploadFile: "records_nothing (uploadFile env p filePath type)"
  unfolding uploadFile_def by (intro unrecorded rn_sendNoopIfNeeded rn_safeOperation)

lemma rn_removeFile: "records_nothing (removeFile env p filePath)"
  unfolding removeFile_def by (intro unrecorded rn_safeOperation)

lemma rn_flushState: "records_nothing (flushState env p n)"
  unfolding flushState_def by (intro unrecorded rn_safeOperation)

lemmas sync_eval =
  syncLocalToServer_def sync_header_def uploadFile_def removeFile_def removeFolder_def
  createFolder_def flushState_def createLocalState_def state_push_def fs_writeFileSync_def
  ensureDir_def upDir_def getFileBreadcrumbs_def calm_env_def site_def fresh_def eval_defs

text \<open>
  C2. A push of the state file does not checkpoint the work done. \<open>flushState\<close> uploads the
  local state file as it is on disk and serialises nothing (third conjunct); an upload,
  a replacement and a file deletion neither add to the manifest in memory nor write the
  local state file (first and second conjunct), which among the operations only the
  folder creation does. So with five new files, every request accepted: the state file
  is pushed after the fifth upload and again at the end, no local file has been written
  at any point, and the manifest in memory has no entry. With a folder, four new files
  and a deletion, the file pushed after the fifth operation is the one written after the
  folder creation: it lists the folder and none of the four files uploaded since.
\<close>

theorem checkpoint_pushes_stale_state:
  "records_nothing (uploadFile env p filePath type) \<and>
   records_nothing (removeFile env p filePath) \<and>
   records_nothing (flushState env p n) \<and>
   fst (syncLocalToServer calm_env site five_uploads fresh) = Inr () \<and>
   calls (trace (snd (syncLocalToServer calm_env site five_uploads fresh))) =
     [(0, UploadFrom ''./a1'' ''a1''), (0, UploadFrom ''./a2'' ''a2''),
      (0, UploadFrom ''./a3'' ''a3''), (0, UploadFrom ''./a4'' ''a4''),
      (0, UploadFrom ''./a5'' ''a5''),
      (0, UploadFrom ''./state.json'' ''./state.json''),
      (0, UploadFrom ''./state.json'' ''./state.json'')] \<and>
   writes (trace (snd (syncLocalToServer calm_env site five_uploads fresh))) = [] \<and>
   data (state (snd (syncLocalToServer calm_env site five_uploads fresh))) = [] \<and>
   fst (syncLocalToServer calm_env site six_changes fresh) = Inr () \<and>
   calls (trace (snd (syncLocalToServer calm_env site six_changes fresh))) =
     [(0, EnsureDir ''img''), (0, Cdup),
      (0, UploadFrom ''./a1'' ''a1''), (0, UploadFrom ''./a2'' ''a2''),
      (0, UploadFrom ''./a3'' ''a3''), (0, UploadFrom ''./a4'' ''a4''),
      (0, UploadFrom ''./state.json'' ''./state.json''),
      (0, Remove ''old''),
      (0, UploadFrom ''./state.json'' ''./state.json'')] \<and>
   writes (trace (snd (syncLocalToServer calm_env site six_changes fresh))) =
     [(''./state.json'',
       StateJson \<lparr>description = ''Sync state file'', version = ''1.0.0'', generatedTime = 0,
                  data = [\<lparr>rtype = Folder, name = ''img'', rsize = None, hash = None\<rparr>]\<rparr>)]"
proof (intro conjI)
  show "records_nothing (uploadFile env p filePath type)" by (rule rn_uploadFile)
  show "records_nothing (removeFile env p filePath)" by (rule rn_removeFile)
  show "records_nothing (flushState env p n)" by (rule rn_flushState)
qed (simp_all add: five_uploads_def six_changes_def sync_eval Let_def)

section \<open>Dry runs\<close>

text \<open>
  The provider honours the dry-run flag. In dry-run mode both versions of
  \<open>syncLocalToServer\<close> return normally for every change set and environment, and what
  they add to the trace are log lines and at most keep-alive \<open>NOOP\<close> requests: no
  directory creation, upload, deletion or push of the state file, and no local write.
\<close>

lemma sync_dry_run_quiet:
  assumes "dryRun p"
  shows "fst (syncLocalToServer env p diffs s) = Inr () \<and>
         (\<exists>es. trace (snd (syncLocalToServer env p diffs s)) = trace s @ es \<and>
               list_all dry_run_event es) \<and>
         fst (syncLocalToServer_ts env p diffs s) = Inr () \<and>
         (\<exists>es. trace (snd (syncLocalToServer_ts env p diffs s)) = trace s @ es \<and>
               list_all dry_run_event es)"
proof -
  have e1: "emits_only dry_run_event (syncLocalToServer env p diffs)"
    unfolding syncLocalToServer_plan sync_footer_def
    by (intro emits emits_sync_header emits_apply_each dry_perform[OF assms] dry_flushState[OF assms])
      simp_all
  have n1: "never_throws (syncLocalToServer env p diffs)"
    unfolding syncLocalToServer_plan sync_footer_def
    by (intro nothrow nothrow_sync_header nothrow_apply_each dry_perform[OF assms]
        dry_flushState[OF assms])
  have e2: "emits_only dry_run_event (syncLocalToServer_ts env p diffs)"
    unfolding syncLocalToServer_ts_plan
    by (intro emits_bnd emits_sync_header emits_try_catch_unused dry_block_ts[OF assms]) simp
  have n2: "never_throws (syncLocalToServer_ts env p diffs)"
    unfolding syncLocalToServer_ts_plan
    by (intro nothrow_bnd nothrow_sync_header nothrow_try_catch dry_block_ts[OF assms])
  note r1 = never_throws_unit[OF n1, of s] and r2 = never_throws_unit[OF n2, of s]
  from emits_onlyD[OF e1, of s] emits_onlyD[OF e2, of s] r1 r2
  show ?thesis by simp
qed

lemmas deploy_eval =
  deploy_def connect_def connect_options_def ensureStateFileExists_def client_list_def
  client_call_on_def try_finally_def getServerFiles_def downloadFileList_def fs_readFileSync_def
  fs_unlinkSync_def new_FTPSyncProvider_def provider_of_def empty_server_state_def
  tempFileNameHack_def dry_args_def publish_args_def new_site_env_def blank_manifest_def tools_def
  two_files_def two_uploads_def syncLocalToServer_def sync_header_def uploadFile_def
  flushState_def createLocalState_def fs_writeFileSync_def ensureDir_def calm_env_def fresh_def
  eval_defs

text \<open>
  C8. A first deployment in dry-run mode. \<open>deploy\<close> computes the change set and the
  provider announces its two uploads without sending them; but before that
  \<open>ensureStateFileExists\<close>, which has no dry-run test, has found no state file on the
  server, overwritten the local state file with an empty manifest and uploaded it to
  the remote root, and \<open>getServerFiles\<close> has asked the transport to enter (and so to
  create, where missing) the remote directory. A state file has been pushed to the
  remote target in a dry run.
\<close>

theorem deploy_dry_run_pushes_state:
  "arg_dry_run dry_args \<and>
   fst (deploy new_site_env tools dry_args fresh) = Inr () \<and>
   calls (trace (snd (deploy new_site_env tools dry_args fresh))) =
     [(1, Access \<lparr>host = ''ftp.example.com'', user = ''deploy'', password = ''secret'',
                   port = Some 21, secure = SecureFalse, rejectUnauthorized = False\<rparr>),
      (1, List ''./''),
      (1, UploadFrom ''./state.json'' ''./state.json''),
      (1, EnsureDir ''./''),
      (1, DownloadTo ''.ftp-deploy-sync-server-state-buffer-file---delete.json'' ''state.json''),
      (1, Close)] \<and>
   writes (trace (snd (deploy new_site_env tools dry_args fresh))) =
     [(''./state.json'', StateJson two_files), (''./state.json'', StateJson blank_manifest)] \<and>
   announced (trace (snd (deploy new_site_env tools dry_args fresh))) =
     [(UploadStep, ''a.txt''), (UploadStep, ''b.txt'')]"
  by (simp add: deploy_eval Let_def)

section \<open>The path of a folder removal\<close>

lemma replace_first_prefix:
  "startsWith s pat \<Longrightarrow> replace_first s pat rep = rep @ drop (length pat) s"
  by (cases s) (simp_all add: startsWith_def)

lemma absoluteFolderPath_eq:
  "absoluteFolderPath p folderPath =
     ''/'' @ (if startsWith (serverPath p) ''./'' then drop 2 (serverPath p) else serverPath p) @
     folderPath"
  by (simp add: absoluteFolderPath_def replace_first_prefix numeral_2_eq_2)

lemma emits_removeFolder:
  assumes "retryRequest_keeps env (removal_of (absoluteFolderPath p folderPath))"
  shows "emits_only (removal_of (absoluteFolderPath p folderPath)) (removeFolder env p folderPath)"
proof -
  let ?P = "removal_of (absoluteFolderPath p folderPath)"
  have "emits_only ?P (client_call env (RemoveDir (absoluteFolderPath p folderPath)))"
    by (rule emits_client_call) simp
  with assms have rr: "emits_only ?P
      (retryRequest env (client_call env (RemoveDir (absoluteFolderPath p folderPath))))"
    by (simp add: retryRequest_keeps_def)
  have rc: "emits_only ?P (reconnect env p)"
    by (rule emits_reconnect) simp_all
  have "emits_only ?P (on_failure env p r k e)" for r k e
    unfolding on_failure_def by (intro emits rc) simp_all
  then have "emits_only ?P (safeOperation env p
      (retryRequest env (client_call env (RemoveDir (absoluteFolderPath p folderPath)))) 3)"
    unfolding safeOperation_def by (intro emits_loop rr)
  then show ?thesis
    unfolding removeFolder_def by (intro emits) simp_all
qed

text \<open>
  C9, as the code has it. The path \<open>removeFolder\<close> asks the transport to remove is a slash,
  then the remote root without a leading \<open>./\<close> if it has one (otherwise the root as it
  is), then the folder path. Every recursive removal requested while \<open>removeFolder\<close> runs
  is for that path, provided \<open>retryRequest\<close> requests no other removal of its own; and
  when \<open>retryRequest\<close> just runs its callback and the transport accepts the request, that
  removal is the one request made.
\<close>

theorem removeFolder_absolute_path:
  "absoluteFolderPath p folderPath =
     ''/'' @ (if startsWith (serverPath p) ''./'' then drop 2 (serverPath p) else serverPath p) @
     folderPath \<and>
   (retryRequest_keeps env (removal_of (absoluteFolderPath p folderPath)) \<longrightarrow>
      (\<exists>es. trace (snd (removeFolder env p folderPath s)) = trace s @ es \<and>
            list_all (removal_of (absoluteFolderPath p folderPath)) es)) \<and>
   (\<not> dryRun p \<and> retryRequest env = (\<lambda>callback. callback) \<and>
    transport env (trace s @ [Log LoggerAll ''removing folder {}'' [absoluteFolderPath p folderPath]])
      (client s) (RemoveDir (absoluteFolderPath p folderPath)) = None \<longrightarrow>
      fst (removeFolder env p folderPath s) = Inr () \<and>
      calls (trace (snd (removeFolder env p folderPath s))) =
        calls (trace s) @ [(client s, RemoveDir (absoluteFolderPath p folderPath))])"
proof (intro conjI impI)
  show "absoluteFolderPath p folderPath =
     ''/'' @ (if startsWith (serverPath p) ''./'' then drop 2 (serverPath p) else serverPath p) @
     folderPath"
    by (rule absoluteFolderPath_eq)
next
  assume "retryRequest_keeps env (removal_of (absoluteFolderPath p folderPath))"
  from emits_onlyD[OF emits_removeFolder[OF this], of s]
  show "\<exists>es. trace (snd (removeFolder env p folderPath s)) = trace s @ es \<and>
            list_all (removal_of (absoluteFolderPath p folderPath)) es" .
next
  assume a: "\<not> dryRun p \<and> retryRequest env = (\<lambda>callback. callback) \<and>
    transport env (trace s @ [Log LoggerAll ''removing folder {}'' [absoluteFolderPath p folderPath]])
      (client s) (RemoveDir (absoluteFolderPath p folderPath)) = None"
  then show "fst (removeFolder env p folderPath s) = Inr ()"
    by (simp add: removeFolder_def safeOperation_def safeOperation_loop.simps run_defs)
  from a show "calls (trace (snd (removeFolder env p folderPath s))) =
        calls (trace s) @ [(client s, RemoveDir (absoluteFolderPath p folderPath))]"
    by (simp add: removeFolder_def safeOperation_def safeOperation_loop.simps run_defs)
qed

text \<open>
  With the root \<open>.\<close> the folder \<open>assets\<close> is removed as \<open>/.assets\<close>: a root written as a bare
  dot is not normalised.
\<close>

theorem removeFolder_dot_root_counterexample:
  "absoluteFolderPath dot_root ''assets'' = ''/.assets'' \<and>
   calls (trace (snd (removeFolder calm_env dot_root ''assets'' fresh))) =
     [(0, RemoveDir ''/.assets'')]"
  by (simp add: absoluteFolderPath_def removeFolder_def dot_root_def calm_env_def site_def fresh_def
      eval_defs)

theorem removeFolder_absolute_path_witness:
  "retryRequest_keeps calm_env (removal_of ''/relative/assets'') \<and>
   \<not> dryRun relative_root \<and> retryRequest calm_env = (\<lambda>callback. callback) \<and>
   absoluteFolderPath relative_root ''assets'' = ''/relative/assets'' \<and>
   (\<exists>es. trace (snd (removeFolder calm_env relative_root ''assets'' fresh)) = trace fresh @ es \<and>
         list_all (removal_of ''/relative/assets'') es) \<and>
   fst (removeFolder calm_env relative_root ''assets'' fresh) = Inr () \<and>
   calls (trace (snd (removeFolder calm_env relative_root ''assets'' fresh))) =
     [(0, RemoveDir ''/relative/assets'')]"
proof -
  have k: "retryRequest_keeps calm_env P" for P
    by (simp add: retryRequest_keeps_def calm_env_def)
  have d: "\<not> dryRun relative_root" by (simp add: relative_root_def site_def)
  have i: "retryRequest calm_env = (\<lambda>callback. callback)" by (simp add: calm_env_def)
  have t: "transport calm_env t c r = None" for t c r by (simp add: calm_env_def)
  have a: "absoluteFolderPath relative_root ''assets'' = ''/relative/assets''"
    using removeFolder_absolute_path[of relative_root "''assets''", THEN conjunct1]
    by (simp add: relative_root_def site_def startsWith_def)
  from removeFolder_absolute_path[of relative_root "''assets''" calm_env fresh] k d i t a
  show ?thesis by (simp add: fresh_def)
qed

section \<open>Fetching the baseline\<close>

lemma getServerFiles_parts:
  "getServerFiles env args = try_catch (fetch_baseline env args) (first_publish env args)"
  unfolding getServerFiles_def fetch_baseline_def first_publish_def apply_excludes_def
  by (rule refl)

lemma first_publish_result:
  "\<exists>time. fst (first_publish env args error s) = Inr (empty_server_state env time)"
  by (auto simp add: first_publish_def run_defs)

lemma degraded:
  assumes "fst (fetch_baseline env args s) = Inl e"
  shows "\<exists>time. fst (getServerFiles env args s) = Inr (empty_server_state env time)"
proof -
  from assms obtain s1 where "fetch_baseline env args s = (Inl e, s1)"
    by (cases "fetch_baseline env args s") auto
  with first_publish_result[of env args e s1] show ?thesis
    by (simp add: getServerFiles_parts try_catch_def)
qed

lemma fetched:
  assumes "fst (fetch_baseline env args s) = Inr m"
  shows "fst (getServerFiles env args s) = Inr m"
  using assms by (cases "fetch_baseline env args s") (simp add: getServerFiles_parts try_catch_def)

lemma download_result:
  "downloadFileList env path s = (Inr m, s') \<Longrightarrow> \<exists>fileAsString. JSON_parse env fileAsString = Some m"
  by (auto simp: downloadFileList_def bnd_def ret_def throw_def
      split: prod.splits sum.splits option.splits)

lemma fetch_result:
  assumes "fetch_baseline env args s = (Inr m, s')"
  shows "\<exists>fileAsString parsed. JSON_parse env fileAsString = Some parsed \<and> m = apply_excludes env args parsed"
proof -
  from assms obtain parsed s1 s2 where
    "downloadFileList env (arg_state_name args) s1 = (Inr parsed, s2)" "m = apply_excludes env args parsed"
    by (auto simp: fetch_baseline_def bnd_def ret_def throw_def
        split: prod.splits sum.splits if_splits)
  with download_result show ?thesis by blast
qed

text \<open>The ways \<open>downloadFileList\<close> ends, by what the collaborators answer in the run.\<close>

lemma download_cases:
  fixes env path
  defines "request \<equiv> retryRequest env (client_call env (DownloadTo tempFileNameHack path))"
  shows "request s = (Inl e, s') \<Longrightarrow> fst (downloadFileList env path s) = Inl e"
    and "request s = (Inr (), s') \<Longrightarrow> readFileSync env (trace s') tempFileNameHack = Inl e \<Longrightarrow>
         fst (downloadFileList env path s) = Inl e"
    and "request s = (Inr (), s') \<Longrightarrow> readFileSync env (trace s') tempFileNameHack = Inr fileAsString \<Longrightarrow>
         JSON_parse env fileAsString = None \<Longrightarrow>
         fst (downloadFileList env path s) = Inl (JsError ''SyntaxError'' None)"
    and "request s = (Inr (), s') \<Longrightarrow> readFileSync env (trace s') tempFileNameHack = Inr fileAsString \<Longrightarrow>
         JSON_parse env fileAsString = Some parsed \<Longrightarrow>
         unlinkSync env (trace s' @ [ReadFile tempFileNameHack]) tempFileNameHack = Some e \<Longrightarrow>
         fst (downloadFileList env path s) = Inl e"
    and "request s = (Inr (), s') \<Longrightarrow> readFileSync env (trace s') tempFileNameHack = Inr fileAsString \<Longrightarrow>
         JSON_parse env fileAsString = Some parsed \<Longrightarrow>
         unlinkSync env (trace s' @ [ReadFile tempFileNameHack]) tempFileNameHack = None \<Longrightarrow>
         fst (downloadFileList env path s) = Inr parsed"
  unfolding request_def
  by (simp_all add: downloadFileList_def bnd_def fs_readFileSync_def fs_unlinkSync_def ret_def
      throw_def)

lemma fetch_cases:
  shows "ensureDir env (arg_server_dir args) s = (Inl e, s') \<Longrightarrow>
         fst (fetch_baseline env args s) = Inl e"
    and "arg_dangerous_clean_slate args \<Longrightarrow> \<exists>e. fst (fetch_baseline env args s) = Inl e"
    and "ensureDir env (arg_server_dir args) s = (Inr (), s') \<Longrightarrow>
         \<not> arg_dangerous_clean_slate args \<Longrightarrow>
         fst (downloadFileList env (arg_state_name args) s') = Inl e \<Longrightarrow>
         fst (fetch_baseline env args s) = Inl e"
    and "ensureDir env (arg_server_dir args) s = (Inr (), s') \<Longrightarrow>
         \<not> arg_dangerous_clean_slate args \<Longrightarrow>
         fst (downloadFileList env (arg_state_name args) s') = Inr parsed \<Longrightarrow>
         fst (fetch_baseline env args s) = Inr (apply_excludes env args parsed)"
proof -
  show "ensureDir env (arg_server_dir args) s = (Inl e, s') \<Longrightarrow>
        fst (fetch_baseline env args s) = Inl e"
    by (simp add: fetch_baseline_def bnd_def)
  show "arg_dangerous_clean_slate args \<Longrightarrow> \<exists>e. fst (fetch_baseline env args s) = Inl e"
    by (cases "ensureDir env (arg_server_dir args) s")
      (auto simp: fetch_baseline_def run_defs split: sum.splits option.splits)
  show "ensureDir env (arg_server_dir args) s = (Inr (), s') \<Longrightarrow>
        \<not> arg_dangerous_clean_slate args \<Longrightarrow>
        fst (downloadFileList env (arg_state_name args) s') = Inl e \<Longrightarrow>
        fst (fetch_baseline env args s) = Inl e"
    by (cases "downloadFileList env (arg_state_name args) s'")
      (simp add: fetch_baseline_def bnd_def ret_def)
  show "ensureDir env (arg_server_dir args) s = (Inr (), s') \<Longrightarrow>
        \<not> arg_dangerous_clean_slate args \<Longrightarrow>
        fst (downloadFileList env (arg_state_name args) s') = Inr parsed \<Longrightarrow>
        fst (fetch_baseline env args s) = Inr (apply_excludes env args parsed)"
    by (cases "downloadFileList env (arg_state_name args) s'")
      (simp add: fetch_baseline_def run_defs)
qed

text \<open>
  C6, as the code has it. \<open>getServerFiles\<close> never throws: it returns either the empty
  manifest (no entries, the current version) or a manifest parsed from the fetched text,
  after the exclude filter. In the run at hand it returns the empty manifest when
  entering the remote directory fails, when \<open>dangerous-clean-slate\<close> is set, when the
  download of the state file fails, when the downloaded file cannot be read, when its
  text does not parse, and when the buffer file cannot be deleted afterwards. When all
  of these succeed, the manifest that was parsed becomes the baseline, with its entries
  (those the exclude filter keeps) and with whatever version it has: the version is
  never compared with the current one.
\<close>

theorem getServerFiles_never_fails:
  "(\<exists>m. fst (getServerFiles env args s) = Inr m \<and>
        ((\<exists>time. m = empty_server_state env time) \<or>
         (\<exists>fileAsString parsed. JSON_parse env fileAsString = Some parsed \<and> m = apply_excludes env args parsed))) \<and>
   (ensureDir env (arg_server_dir args) s = (Inl e, s1) \<longrightarrow>
      (\<exists>time. fst (getServerFiles env args s) = Inr (empty_server_state env time))) \<and>
   (arg_dangerous_clean_slate args \<longrightarrow>
      (\<exists>time. fst (getServerFiles env args s) = Inr (empty_server_state env time))) \<and>
   (ensureDir env (arg_server_dir args) s = (Inr (), s1) \<and> \<not> arg_dangerous_clean_slate args \<and>
    retryRequest env (client_call env (DownloadTo tempFileNameHack (arg_state_name args))) s1 =
      (Inl e, s2) \<longrightarrow>
      (\<exists>time. fst (getServerFiles env args s) = Inr (empty_server_state env time))) \<and>
   (ensureDir env (arg_server_dir args) s = (Inr (), s1) \<and> \<not> arg_dangerous_clean_slate args \<and>
    retryRequest env (client_call env (DownloadTo tempFileNameHack (arg_state_name args))) s1 =
      (Inr (), s2) \<and>
    readFileSync env (trace s2) tempFileNameHack = Inl e \<longrightarrow>
      (\<exists>time. fst (getServerFiles env args s) = Inr (empty_server_state env time))) \<and>
   (ensureDir env (arg_server_dir args) s = (Inr (), s1) \<and> \<not> arg_dangerous_clean_slate args \<and>
    retryRequest env (client_call env (DownloadTo tempFileNameHack (arg_state_name args))) s1 =
      (Inr (), s2) \<and>
    readFileSync env (trace s2) tempFileNameHack = Inr fileAsString \<and> JSON_parse env fileAsString = None \<longrightarrow>
      (\<exists>time. fst (getServerFiles env args s) = Inr (empty_server_state env time))) \<and>
   (ensureDir env (arg_server_dir args) s = (Inr (), s1) \<and> \<not> arg_dangerous_clean_slate args \<and>
    retryRequest env (client_call env (DownloadTo tempFileNameHack (arg_state_name args))) s1 =
      (Inr (), s2) \<and>
    readFileSync env (trace s2) tempFileNameHack = Inr fileAsString \<and> JSON_parse env fileAsString = Some parsed \<and>
    unlinkSync env (trace s2 @ [ReadFile tempFileNameHack]) tempFileNameHack = Some e \<longrightarrow>
      (\<exists>time. fst (getServerFiles env args s) = Inr (empty_server_state env time))) \<and>
   (ensureDir env (arg_server_dir args) s = (Inr (), s1) \<and> \<not> arg_dangerous_clean_slate args \<and>
    retryRequest env (client_call env (DownloadTo tempFileNameHack (arg_state_name args))) s1 =
      (Inr (), s2) \<and>
    readFileSync env (trace s2) tempFileNameHack = Inr fileAsString \<and> JSON_parse env fileAsString = Some parsed \<and>
    unlinkSync env (trace s2 @ [ReadFile tempFileNameHack]) tempFileNameHack = None \<longrightarrow>
      fst (getServerFiles env args s) = Inr (apply_excludes env args parsed)) \<and>
   version (apply_excludes env args parsed) = version parsed \<and>
   (arg_exclude args = [] \<longrightarrow> apply_excludes env args parsed = parsed) \<and>
   data (empty_server_state env time) = [] \<and>
   version (empty_server_state env time) = currentSyncFileVersion env"
proof (intro conjI impI)
  obtain r s' where f: "fetch_baseline env args s = (r, s')" by (cases "fetch_baseline env args s")
  show "\<exists>m. fst (getServerFiles env args s) = Inr m \<and>
        ((\<exists>time. m = empty_server_state env time) \<or>
         (\<exists>fileAsString parsed. JSON_parse env fileAsString = Some parsed \<and> m = apply_excludes env args parsed))"
  proof (cases r)
    case (Inl e)
    with f first_publish_result[of env args e s'] show ?thesis
      by (auto simp: getServerFiles_parts try_catch_def)
  next
    case (Inr m)
    with f fetch_result[of env args s m s'] show ?thesis
      by (auto simp: getServerFiles_parts try_catch_def)
  qed
next
  assume "ensureDir env (arg_server_dir args) s = (Inl e, s1)"
  then show "\<exists>time. fst (getServerFiles env args s) = Inr (empty_server_state env time)"
    by (intro degraded fetch_cases(1))
next
  assume "arg_dangerous_clean_slate args"
  from fetch_cases(2)[OF this, of env s] obtain e' where "fst (fetch_baseline env args s) = Inl e'"
    by blast
  then show "\<exists>time. fst (getServerFiles env args s) = Inr (empty_server_state env time)"
    by (rule degraded)
next
  assume a: "ensureDir env (arg_server_dir args) s = (Inr (), s1) \<and> \<not> arg_dangerous_clean_slate args \<and>
    retryRequest env (client_call env (DownloadTo tempFileNameHack (arg_state_name args))) s1 =
      (Inl e, s2)"
  then have "fst (downloadFileList env (arg_state_name args) s1) = Inl e"
    by (intro download_cases(1)[where s' = s2]) simp
  with a have "fst (fetch_baseline env args s) = Inl e"
    by (intro fetch_cases(3)[where s' = s1]) simp_all
  then show "\<exists>time. fst (getServerFiles env args s) = Inr (empty_server_state env time)"
    by (rule degraded)
next
  assume a: "ensureDir env (arg_server_dir args) s = (Inr (), s1) \<and> \<not> arg_dangerous_clean_slate args \<and>
    retryRequest env (client_call env (DownloadTo tempFileNameHack (arg_state_name args))) s1 =
      (Inr (), s2) \<and>
    readFileSync env (trace s2) tempFileNameHack = Inl e"
  then have "fst (downloadFileList env (arg_state_name args) s1) = Inl e"
    by (intro download_cases(2)[where s' = s2]) simp_all
  with a have "fst (fetch_baseline env args s) = Inl e"
    by (intro fetch_cases(3)[where s' = s1]) simp_all
  then show "\<exists>time. fst (getServerFiles env args s) = Inr (empty_server_state env time)"
    by (rule degraded)
next
  assume a: "ensureDir env (arg_server_dir args) s = (Inr (), s1) \<and> \<not> arg_dangerous_clean_slate args \<and>
    retryRequest env (client_call env (DownloadTo tempFileNameHack (arg_state_name args))) s1 =
      (Inr (), s2) \<and>
    readFileSync env (trace s2) tempFileNameHack = Inr fileAsString \<and> JSON_parse env fileAsString = None"
  then have "fst (downloadFileList env (arg_state_name args) s1) = Inl (JsError ''SyntaxError'' None)"
    by (intro download_cases(3)[where s' = s2 and fileAsString = fileAsString]) simp_all
  with a have "fst (fetch_baseline env args s) = Inl (JsError ''SyntaxError'' None)"
    by (intro fetch_cases(3)[where s' = s1]) simp_all
  then show "\<exists>time. fst (getServerFiles env args s) = Inr (empty_server_state env time)"
    by (rule degraded)
next
  assume a: "ensureDir env (arg_server_dir args) s = (Inr (), s1) \<and> \<not> arg_dangerous_clean_slate args \<and>
    retryRequest env (client_call env (DownloadTo tempFileNameHack (arg_state_name args))) s1 =
      (Inr (), s2) \<and>
    readFileSync env (trace s2) tempFileNameHack = Inr fileAsString \<and> JSON_parse env fileAsString = Some parsed \<and>
    unlinkSync env (trace s2 @ [ReadFile tempFileNameHack]) tempFileNameHack = Some e"
  then have "fst (downloadFileList env (arg_state_name args) s1) = Inl e"
    by (intro download_cases(4)[where s' = s2 and fileAsString = fileAsString and parsed = parsed]) simp_all
  with a have "fst (fetch_baseline env args s) = Inl e"
    by (intro fetch_cases(3)[where s' = s1]) simp_all
  then show "\<exists>time. fst (getServerFiles env args s) = Inr (empty_server_state env time)"
    by (rule degraded)
next
  assume a: "ensureDir env (arg_server_dir args) s = (Inr (), s1) \<and> \<not> arg_dangerous_clean_slate args \<and>
    retryRequest env (client_call env (DownloadTo tempFileNameHack (arg_state_name args))) s1 =
      (Inr (), s2) \<and>
    readFileSync env (trace s2) tempFileNameHack = Inr fileAsString \<and> JSON_parse env fileAsString = Some parsed \<and>
    unlinkSync env (trace s2 @ [ReadFile tempFileNameHack]) tempFileNameHack = None"
  then have "fst (downloadFileList env (arg_state_name args) s1) = Inr parsed"
    by (intro download_cases(5)[where s' = s2 and fileAsString = fileAsString]) simp_all
  with a have "fst (fetch_baseline env args s) = Inr (apply_excludes env args parsed)"
    by (intro fetch_cases(4)[where s' = s1]) simp_all
  then show "fst (getServerFiles env args s) = Inr (apply_excludes env args parsed)"
    by (rule fetched)
qed (simp_all add: empty_server_state_def apply_excludes_def)

lemmas fetch_eval =
  getServerFiles_def downloadFileList_def fs_readFileSync_def fs_unlinkSync_def ensureDir_def
  tempFileNameHack_def empty_server_state_def publish_args_def calm_env_def fresh_def run_defs

text \<open>
  The server's state file parses to a manifest of version \<open>0.0.1\<close> while the current
  version is \<open>1.0.0\<close>: it becomes the baseline, entries and all.
\<close>

theorem getServerFiles_unknown_version_counterexample:
  "fst (getServerFiles stale_env publish_args fresh) = Inr stale_manifest \<and>
   version stale_manifest = ''0.0.1'' \<and> currentSyncFileVersion stale_env = ''1.0.0'' \<and>
   data stale_manifest = [\<lparr>rtype = File, name = ''a.txt'', rsize = Some 10, hash = Some ''h1''\<rparr>]"
  by (simp add: stale_env_def stale_manifest_def fetch_eval)

theorem getServerFiles_never_fails_witness:
  "fst (getServerFiles stale_env publish_args fresh) =
     Inr \<lparr>description = ''written by another tool'', version = ''0.0.1'', generatedTime = 5,
          data = [\<lparr>rtype = File, name = ''a.txt'', rsize = Some 10, hash = Some ''h1''\<rparr>]\<rparr> \<and>
   (\<exists>time. fst (getServerFiles absent_env publish_args fresh) = Inr (empty_server_state absent_env time)) \<and>
   (\<exists>time. fst (getServerFiles calm_env publish_args fresh) = Inr (empty_server_state calm_env time)) \<and>
   (\<exists>time. fst (getServerFiles calm_env (publish_args\<lparr>arg_dangerous_clean_slate := True\<rparr>) fresh) =
            Inr (empty_server_state calm_env time)) \<and>
   (\<exists>time. fst (getServerFiles (calm_env\<lparr>transport := (\<lambda>t c r. Some (JsError ''550 Permission denied'' (Some 550)))\<rparr>)
                   publish_args fresh) =
            Inr (empty_server_state calm_env time)) \<and>
   (\<exists>time. fst (getServerFiles (calm_env\<lparr>readFileSync := (\<lambda>t path. Inl (JsError ''ENOENT'' None))\<rparr>)
                   publish_args fresh) =
            Inr (empty_server_state calm_env time)) \<and>
   (\<exists>time. fst (getServerFiles (stale_env\<lparr>unlinkSync := (\<lambda>t path. Some (JsError ''EPERM'' None))\<rparr>)
                   publish_args fresh) =
            Inr (empty_server_state calm_env time))"
proof -
  note T = getServerFiles_never_fails
  let ?dl = "\<lambda>env. retryRequest env
     (client_call env (DownloadTo tempFileNameHack (arg_state_name publish_args)))"
  have n: "\<not> arg_dangerous_clean_slate publish_args" "arg_exclude publish_args = []"
    by (simp_all add: publish_args_def)
  have 1: "fst (getServerFiles stale_env publish_args fresh) = Inr stale_manifest"
  proof -
    define s1 where "s1 = snd (ensureDir stale_env (arg_server_dir publish_args) fresh)"
    define s2 where "s2 = snd (?dl stale_env s1)"
    have e: "ensureDir stale_env (arg_server_dir publish_args) fresh = (Inr (), s1)"
      by (simp add: s1_def prod_eq_iff ensureDir_def stale_env_def calm_env_def run_defs)
    have d: "?dl stale_env s1 = (Inr (), s2)"
      by (simp add: s2_def prod_eq_iff stale_env_def calm_env_def client_call_def)
    have r: "readFileSync stale_env (trace s2) tempFileNameHack = Inr []"
      "JSON_parse stale_env [] = Some stale_manifest"
      "unlinkSync stale_env (trace s2 @ [ReadFile tempFileNameHack]) tempFileNameHack = None"
      by (simp_all add: stale_env_def calm_env_def)
    from T[where env = stale_env and args = publish_args and s = fresh and ?s1.0 = s1 and ?s2.0 = s2
        and fileAsString = "[]" and parsed = stale_manifest] e d r n
    show ?thesis by simp
  qed
  have 2: "\<exists>time. fst (getServerFiles absent_env publish_args fresh) =
                   Inr (empty_server_state absent_env time)"
  proof -
    define s1 where "s1 = snd (ensureDir absent_env (arg_server_dir publish_args) fresh)"
    define s2 where "s2 = snd (?dl absent_env s1)"
    have e: "ensureDir absent_env (arg_server_dir publish_args) fresh = (Inr (), s1)"
      by (simp add: s1_def prod_eq_iff ensureDir_def absent_env_def calm_env_def run_defs)
    have d: "?dl absent_env s1 = (Inl (JsError ''550 No such file or directory'' (Some 550)), s2)"
      by (simp add: s2_def prod_eq_iff absent_env_def calm_env_def client_call_def)
    from T[where env = absent_env and args = publish_args and s = fresh and ?s1.0 = s1 and ?s2.0 = s2
        and e = "JsError ''550 No such file or directory'' (Some 550)"] e d n
    show ?thesis by simp
  qed
  have 3: "\<exists>time. fst (getServerFiles calm_env publish_args fresh) =
                   Inr (empty_server_state calm_env time)"
  proof -
    define s1 where "s1 = snd (ensureDir calm_env (arg_server_dir publish_args) fresh)"
    define s2 where "s2 = snd (?dl calm_env s1)"
    have e: "ensureDir calm_env (arg_server_dir publish_args) fresh = (Inr (), s1)"
      by (simp add: s1_def prod_eq_iff ensureDir_def calm_env_def run_defs)
    have d: "?dl calm_env s1 = (Inr (), s2)"
      by (simp add: s2_def prod_eq_iff calm_env_def client_call_def)
    have r: "readFileSync calm_env (trace s2) tempFileNameHack = Inr []"
      "JSON_parse calm_env [] = None"
      by (simp_all add: calm_env_def)
    from T[where env = calm_env and args = publish_args and s = fresh and ?s1.0 = s1 and ?s2.0 = s2
        and fileAsString = "[]"] e d r n
    show ?thesis by simp
  qed
  have 4: "\<exists>time. fst (getServerFiles calm_env (publish_args\<lparr>arg_dangerous_clean_slate := True\<rparr>) fresh) =
            Inr (empty_server_state calm_env time)"
    using T[where env = calm_env and args = "publish_args\<lparr>arg_dangerous_clean_slate := True\<rparr>"
        and s = fresh]
    by simp
  have 5: "\<exists>time. fst (getServerFiles (calm_env\<lparr>transport := (\<lambda>t c r. Some (JsError ''550 Permission denied'' (Some 550)))\<rparr>)
                   publish_args fresh) =
            Inr (empty_server_state calm_env time)"
  proof -
    let ?env = "calm_env\<lparr>transport := (\<lambda>t c r. Some (JsError ''550 Permission denied'' (Some 550)))\<rparr>"
    define s1 where "s1 = snd (ensureDir ?env (arg_server_dir publish_args) fresh)"
    have e: "ensureDir ?env (arg_server_dir publish_args) fresh =
             (Inl (JsError ''550 Permission denied'' (Some 550)), s1)"
      by (simp add: s1_def prod_eq_iff ensureDir_def calm_env_def run_defs)
    from T[where env = ?env and args = publish_args and s = fresh and ?s1.0 = s1
        and e = "JsError ''550 Permission denied'' (Some 550)"] e
    show ?thesis by (simp add: empty_server_state_def)
  qed
  have 6: "\<exists>time. fst (getServerFiles (calm_env\<lparr>readFileSync := (\<lambda>t path. Inl (JsError ''ENOENT'' None))\<rparr>)
                   publish_args fresh) =
            Inr (empty_server_state calm_env time)"
  proof -
    let ?env = "calm_env\<lparr>readFileSync := (\<lambda>t path. Inl (JsError ''ENOENT'' None))\<rparr>"
    define s1 where "s1 = snd (ensureDir ?env (arg_server_dir publish_args) fresh)"
    define s2 where "s2 = snd (?dl ?env s1)"
    have e: "ensureDir ?env (arg_server_dir publish_args) fresh = (Inr (), s1)"
      by (simp add: s1_def prod_eq_iff ensureDir_def calm_env_def run_defs)
    have d: "?dl ?env s1 = (Inr (), s2)"
      by (simp add: s2_def prod_eq_iff calm_env_def client_call_def)
    have r: "readFileSync ?env (trace s2) tempFileNameHack = Inl (JsError ''ENOENT'' None)"
      by simp
    from T[where env = ?env and args = publish_args and s = fresh and ?s1.0 = s1 and ?s2.0 = s2
        and e = "JsError ''ENOENT'' None"] e d r n
    show ?thesis by (simp add: empty_server_state_def)
  qed
  have 7: "\<exists>time. fst (getServerFiles (stale_env\<lparr>unlinkSync := (\<lambda>t path. Some (JsError ''EPERM'' None))\<rparr>)
                   publish_args fresh) =
            Inr (empty_server_state calm_env time)"
  proof -
    let ?env = "stale_env\<lparr>unlinkSync := (\<lambda>t path. Some (JsError ''EPERM'' None))\<rparr>"
    define s1 where "s1 = snd (ensureDir ?env (arg_server_dir publish_args) fresh)"
    define s2 where "s2 = snd (?dl ?env s1)"
    have e: "ensureDir ?env (arg_server_dir publish_args) fresh = (Inr (), s1)"
      by (simp add: s1_def prod_eq_iff ensureDir_def stale_env_def calm_env_def run_defs)
    have d: "?dl ?env s1 = (Inr (), s2)"
      by (simp add: s2_def prod_eq_iff stale_env_def calm_env_def client_call_def)
    have r: "readFileSync ?env (trace s2) tempFileNameHack = Inr []"
      "JSON_parse ?env [] = Some stale_manifest"
      "unlinkSync ?env (trace s2 @ [ReadFile tempFileNameHack]) tempFileNameHack =
         Some (JsError ''EPERM'' None)"
      by (simp_all add: stale_env_def calm_env_def)
    from T[where env = ?env and args = publish_args and s = fresh and ?s1.0 = s1 and ?s2.0 = s2
        and fileAsString = "[]" and parsed = stale_manifest and e = "JsError ''EPERM'' None"] e d r n
    show ?thesis by (simp add: empty_server_state_def stale_env_def)
  qed
  from 1 2 3 4 5 6 7 show ?thesis by (simp add: stale_manifest_def)
qed

section \<open>The catch block of \<open>src/syncProvider.ts\<close>\<close>

text \<open>
  In general, for the version of \<open>src/syncProvider.ts\<close>: when a step (or a closing log
  line) throws \<open>e\<close>, the run continues with the catch block, which sends nothing to the
  transport, writes the state file once and throws: \<open>e\<close> again when the write succeeded,
  the fault of the write otherwise.
\<close>

lemma sync_ts_interrupted:
  assumes "block (map (perform_ts env p) (plan p diffs) @
             [logger LoggerAll ''----------------------------------------------------------------'' [],
              logger LoggerAll ''Sync complete.'' []]) (snd (sync_header diffs s)) = (Inl e, s2)"
  shows "syncLocalToServer_ts env p diffs s = sync_interrupted env p diffs e s2"
proof -
  have "fst (sync_header diffs s) = Inr ()"
    by (rule never_throws_unit[OF nothrow_sync_header])
  then obtain s1 where h: "sync_header diffs s = (Inr (), s1)"
    by (cases "sync_header diffs s") auto
  with assms show ?thesis
    by (simp add: syncLocalToServer_ts_plan bnd_def try_catch_def)
qed

lemma sync_interrupted_checkpoint:
  "calls (trace (snd (sync_interrupted env p diffs e s))) = calls (trace s) \<and>
   map fst (writes (trace (snd (sync_interrupted env p diffs e s)))) =
     map fst (writes (trace s)) @ [localPath p @ stateName p] \<and>
   (\<exists>f. fst (sync_interrupted env p diffs e s) = Inl f \<and>
        (f = e \<or> (\<exists>t c. writeFileSync env t (localPath p @ stateName p) c = Some f)))"
  by (auto simp: sync_interrupted_def updateStateFile_def fs_writeFileSync_def run_defs
      split: option.splits)

end
